theory Spec2Isabelle
  imports Complex_Main "HOL-Library.Word"
begin

section \<open>The libvirt exporter: data model\<close>

text \<open>
  The exporter (\<^verbatim>\<open>libvirt_exporter.go\<close>) talks to two outside parties: the libvirt
  daemon, through the Go binding \<^verbatim>\<open>libvirt-go\<close>, and the Prometheus client library,
  through the channel \<^verbatim>\<open>ch\<close> on which it sends metrics. Both are observed here through
  one trace of events, in program order: every call made to libvirt together with
  the answer it got, every metric sent on \<^verbatim>\<open>ch\<close>, and every line logged.

  A Go \<^verbatim>\<open>error\<close> is a value. The program never looks inside one (it only compares
  with \<^verbatim>\<open>nil\<close>), so the model keeps what identifies it: the libvirt error number and
  message, the message of a decoding error of \<^verbatim>\<open>encoding/xml\<close>, and the one error
  \<^verbatim>\<open>NewConstMetric\<close> of the Prometheus client can return.
\<close>

datatype error =
    VirError (Code: nat) (Message: string)
  | XMLError string
  | ErrInconsistentCardinality

definition ERR_NO_SUPPORT :: nat where
  \<comment> \<open>\<^verbatim>\<open>VIR_ERR_NO_SUPPORT\<close>: the driver does not implement the call\<close>
  "ERR_NO_SUPPORT = 3"

definition ERR_RPC :: nat where
  \<comment> \<open>\<^verbatim>\<open>VIR_ERR_RPC\<close>: a failure of the transport to the daemon\<close>
  "ERR_RPC = 39"

definition CONNECT_LIST_DOMAINS_ACTIVE :: nat where
  "CONNECT_LIST_DOMAINS_ACTIVE = 1"

text \<open>
  A function of the program either returns or panics. Its \<^verbatim>\<open>error\<close> result is
  an \<open>error option\<close>, \<open>None\<close> for \<^verbatim>\<open>nil\<close>.
\<close>

datatype 'a exit = Return 'a | Panic error

text \<open>
  \<^verbatim>\<open>libvirt.Connect\<close> and \<^verbatim>\<open>libvirt.Domain\<close> are structs around one C pointer; the
  pointer is a number here. Domain identifiers are \<^verbatim>\<open>uint32\<close>; no arithmetic is done on
  them, so they are natural numbers.
\<close>

datatype Connect = Connect nat

datatype Domain = Domain nat

text \<open>
  \<^verbatim>\<open>libvirt.DomainBlockStats\<close>: every counter is an \<^verbatim>\<open>int64\<close> with a flag that says
  whether the hypervisor reported it. A counter is a word of 64 bits; \<open>sint\<close> reads it
  as the signed number it stands for.
\<close>

record DomainBlockStats =
  RdBytesSet :: bool
  RdBytes :: "64 word"
  RdReqSet :: bool
  RdReq :: "64 word"
  RdTotalTimesSet :: bool
  RdTotalTimes :: "64 word"
  WrBytesSet :: bool
  WrBytes :: "64 word"
  WrReqSet :: bool
  WrReq :: "64 word"
  WrTotalTimesSet :: bool
  WrTotalTimes :: "64 word"
  FlushReqSet :: bool
  FlushReq :: "64 word"
  FlushTotalTimesSet :: bool
  FlushTotalTimes :: "64 word"
  ErrsSet :: bool
  Errs :: "64 word"

text \<open>
  Modelled from the spec: the package \<^verbatim>\<open>./libvirt_schema\<close>, which declares the
  struct \<^verbatim>\<open>xml.Unmarshal\<close> fills, is not among the sources. The spec gives a
  descriptor an ordered sequence of disks, each with a source and a target device
  name; the field names are those \<^verbatim>\<open>CollectDomain\<close> reads
  (\<^verbatim>\<open>desc.Devices.Disks\<close>, \<^verbatim>\<open>disk.Source.File\<close>, \<^verbatim>\<open>disk.Target.Device\<close>).
\<close>

record DiskSource =
  File :: string

record DiskTarget =
  Device :: string

record Disk =
  Source :: DiskSource
  Target :: DiskTarget

record Devices =
  Disks :: "Disk list"

record schema_Domain =
  Devices :: Devices

subsection \<open>Floating-point numbers\<close>

text \<open>
  A finite \<^verbatim>\<open>float64\<close> is an integer mantissa times a power of two. The two operations
  the program uses, the conversion \<^verbatim>\<open>float64(x)\<close> of an \<^verbatim>\<open>int64\<close> and the division, round
  their exact result to the nearest number with 53 bits of mantissa, a tie going to the
  even mantissa (IEEE 754, the only rounding Go has). Both exact results are fractions of
  integers, so the rounding is defined on a fraction \<open>n / d\<close> with \<open>0 < d\<close>:
  \<open>binade\<close> is the exponent of the power of two at or below \<open>\<bar>n / d\<bar>\<close>, the unit of the
  result is 52 binary places below it, and never below \<open>2 powi - 1074\<close>, the smallest subnormal. Overflow to infinity is not modelled: the quotient of an \<^verbatim>\<open>int64\<close> by
  \<open>10 ^ 9\<close> is far from it, and the divisor of the program is not zero.
\<close>

datatype float64 = Float64 (mantissa: int) (exponent: int)

definition valof :: "float64 \<Rightarrow> real" where
  \<comment> \<open>the real number a \<^verbatim>\<open>float64\<close> stands for\<close>
  "valof f = (if 0 \<le> exponent f then of_int (mantissa f * 2 ^ nat (exponent f))
              else of_int (mantissa f) / 2 ^ nat (- exponent f))"

fun bitlen :: "nat \<Rightarrow> nat" where
  \<comment> \<open>the number of binary digits\<close>
  "bitlen n = (if n = 0 then 0 else Suc (bitlen (n div 2)))"

declare bitlen.simps [simp del]

definition round_even :: "int \<Rightarrow> int \<Rightarrow> int" where
  \<comment> \<open>the integer nearest to \<open>n / d\<close>, the even one of two that are equally near\<close>
  "round_even n d =
     (let q = n div d; r = n mod d
      in if 2 * r < d then q else if d < 2 * r then q + 1 else if even q then q else q + 1)"

definition binade :: "int \<Rightarrow> int \<Rightarrow> int" where
  \<comment> \<open>the \<open>k\<close> with \<open>2 powi k \<le> \<bar>n / d\<bar>\<close> and \<open>\<bar>n / d\<bar> < 2 powi (k + 1)\<close>\<close>
  "binade n d =
     (let k = int (bitlen (nat \<bar>n\<bar>)) - int (bitlen (nat d))
      in if (if 0 \<le> k then d * 2 ^ nat k \<le> \<bar>n\<bar> else d \<le> \<bar>n\<bar> * 2 ^ nat (- k)) then k else k - 1)"

definition round_float64 :: "int \<Rightarrow> int \<Rightarrow> float64" where
  \<comment> \<open>the \<^verbatim>\<open>float64\<close> nearest to \<open>n / d\<close>, for \<open>0 < d\<close>\<close>
  "round_float64 n d =
     (if n = 0 then Float64 0 0
      else
        let e = max (binade n d - 52) (- 1074)
        in if 0 \<le> e then Float64 (round_even n (d * 2 ^ nat e)) e
           else Float64 (round_even (n * 2 ^ nat (- e)) d) e)"

definition float64_of_int64 :: "64 word \<Rightarrow> float64" where
  \<comment> \<open>the conversion \<^verbatim>\<open>float64(x)\<close> of an \<^verbatim>\<open>int64\<close>\<close>
  "float64_of_int64 x = round_float64 (sint x) 1"

definition float64_quo :: "float64 \<Rightarrow> float64 \<Rightarrow> float64" where
  \<comment> \<open>\<^verbatim>\<open>a / b\<close> on \<^verbatim>\<open>float64\<close>, for a divisor that is not zero\<close>
  "float64_quo a b =
     (let n = (if mantissa b < 0 then - mantissa a else mantissa a);
          d = \<bar>mantissa b\<bar>;
          k = exponent a - exponent b
      in if 0 \<le> k then round_float64 (n * 2 ^ nat k) d else round_float64 n (d * 2 ^ nat (- k)))"

definition float64_1e9 :: float64 where
  \<comment> \<open>the constant \<^verbatim>\<open>1e9\<close> of lines 124, 151 and 169, converted to \<^verbatim>\<open>float64\<close>\<close>
  "float64_1e9 = round_float64 1000000000 1"

subsection \<open>The Prometheus client\<close>

text \<open>
  A descriptor as \<^verbatim>\<open>prometheus.NewDesc(fqName, help, variableLabels, nil)\<close> builds it,
  and a constant metric as \<^verbatim>\<open>prometheus.NewConstMetric\<close> builds it. A metric value is
  a \<^verbatim>\<open>float64\<close>. Every value the program sends is finite, and \<open>val\<close> holds the real
  number that \<^verbatim>\<open>float64\<close> stands for (\<open>valof\<close>); the rounding is in the operations
  that compute it.
\<close>

record Desc =
  fqName :: string
  helpText :: string
  variableLabels :: "string list"

datatype ValueType = CounterValue | GaugeValue

record Metric =
  metricDesc :: Desc
  valType :: ValueType
  val :: real
  labelValues :: "string list"

definition BuildFQName :: "string \<Rightarrow> string \<Rightarrow> string \<Rightarrow> string" where
  \<comment> \<open>joins the non-empty parts with an underscore; an empty name gives the empty string\<close>
  "BuildFQName namespace subsystem name =
     (if name = [] then []
      else if namespace \<noteq> [] \<and> subsystem \<noteq> [] then namespace @ ''_'' @ subsystem @ ''_'' @ name
      else if namespace \<noteq> [] then namespace @ ''_'' @ name
      else if subsystem \<noteq> [] then subsystem @ ''_'' @ name
      else name)"

definition NewDesc :: "string \<Rightarrow> string \<Rightarrow> string list \<Rightarrow> Desc" where
  "NewDesc fq h labels = \<lparr>fqName = fq, helpText = h, variableLabels = labels\<rparr>"

definition NewConstMetric :: "Desc \<Rightarrow> ValueType \<Rightarrow> real \<Rightarrow> string list \<Rightarrow> error + Metric" where
  \<comment> \<open>fails when the label values do not match the descriptor's variable labels in number\<close>
  "NewConstMetric d vt v lvs =
     (if length lvs \<noteq> length (variableLabels d) then Inl ErrInconsistentCardinality
      else Inr \<lparr>metricDesc = d, valType = vt, val = v, labelValues = lvs\<rparr>)"

definition MustNewConstMetric :: "Desc \<Rightarrow> ValueType \<Rightarrow> real \<Rightarrow> string list \<Rightarrow> Metric exit" where
  \<comment> \<open>the version of \<open>NewConstMetric\<close> that panics where that one returns an error\<close>
  "MustNewConstMetric d vt v lvs =
     (case NewConstMetric d vt v lvs of Inl err \<Rightarrow> Panic err | Inr m \<Rightarrow> Return m)"

subsection \<open>Events and the libvirt daemon\<close>

datatype event =
    EvNewConnect string "error + Connect"
  | EvClose Connect
  | EvListAllDomains Connect nat "error + Domain list"
  | EvListDomains Connect "error + nat list"
  | EvLookupDomainById Connect nat "error + Domain"
  | EvFree Domain
  | EvGetName Domain "error + string"
  | EvGetXMLDesc Domain nat "error + string"
  | EvBlockStats Domain string "error + DomainBlockStats"
  | EvSend Metric
  | EvLogPrintf string error

type_synonym trace = "event list"

text \<open>
  The daemon is a parameter of every function of the program. What it answers to a
  call may depend on everything that happened before, so each operation takes the
  trace so far. \<^verbatim>\<open>xml.Unmarshal\<close> into the schema is a function of the document alone.
  The results of \<^verbatim>\<open>Close\<close> and \<^verbatim>\<open>Free\<close> are dropped by the program and are not
  modelled.
\<close>

record libvirt =
  NewConnect :: "trace \<Rightarrow> string \<Rightarrow> error + Connect"
  ListAllDomains :: "trace \<Rightarrow> Connect \<Rightarrow> nat \<Rightarrow> error + Domain list"
  ListDomains :: "trace \<Rightarrow> Connect \<Rightarrow> error + nat list"
  LookupDomainById :: "trace \<Rightarrow> Connect \<Rightarrow> nat \<Rightarrow> error + Domain"
  GetName :: "trace \<Rightarrow> Domain \<Rightarrow> error + string"
  GetXMLDesc :: "trace \<Rightarrow> Domain \<Rightarrow> nat \<Rightarrow> error + string"
  BlockStats :: "trace \<Rightarrow> Domain \<Rightarrow> string \<Rightarrow> error + DomainBlockStats"
  Unmarshal :: "string \<Rightarrow> error + schema_Domain"

section \<open>The program\<close>

subsection \<open>The metric descriptors (lines 29 to 76)\<close>

definition libvirtUpDesc :: Desc where
  "libvirtUpDesc = NewDesc (BuildFQName ''libvirt'' '''' ''up'')
     ''Whether scraping libvirt's metrics was successful.'' []"

definition libvirtBlockRdBytesDesc :: Desc where
  "libvirtBlockRdBytesDesc = NewDesc (BuildFQName ''libvirt'' ''block_stats'' ''read_bytes_total'')
     ''Number of bytes read from a block device, in bytes.''
     [''domain'', ''source_file'', ''target_device'']"

definition libvirtBlockRdReqDesc :: Desc where
  "libvirtBlockRdReqDesc = NewDesc (BuildFQName ''libvirt'' ''block_stats'' ''read_requests_total'')
     ''Number of read requests from a block device.''
     [''domain'', ''source_file'', ''target_device'']"

definition libvirtBlockRdTotalTimesDesc :: Desc where
  "libvirtBlockRdTotalTimesDesc = NewDesc (BuildFQName ''libvirt'' ''block_stats'' ''read_seconds_total'')
     ''Amount of time spent reading from a block device, in seconds.''
     [''domain'', ''source_file'', ''target_device'']"

definition libvirtBlockWrBytesDesc :: Desc where
  "libvirtBlockWrBytesDesc = NewDesc (BuildFQName ''libvirt'' ''block_stats'' ''write_bytes_total'')
     ''Number of bytes written from a block device, in bytes.''
     [''domain'', ''source_file'', ''target_device'']"

definition libvirtBlockWrReqDesc :: Desc where
  "libvirtBlockWrReqDesc = NewDesc (BuildFQName ''libvirt'' ''block_stats'' ''write_requests_total'')
     ''Number of write requests from a block device.''
     [''domain'', ''source_file'', ''target_device'']"

definition libvirtBlockWrTotalTimesDesc :: Desc where
  "libvirtBlockWrTotalTimesDesc = NewDesc (BuildFQName ''libvirt'' ''block_stats'' ''write_seconds_total'')
     ''Amount of time spent writing from a block device, in seconds.''
     [''domain'', ''source_file'', ''target_device'']"

definition libvirtBlockFlushReqDesc :: Desc where
  "libvirtBlockFlushReqDesc = NewDesc (BuildFQName ''libvirt'' ''block_stats'' ''flush_requests_total'')
     ''Number of flush requests from a block device.''
     [''domain'', ''source_file'', ''target_device'']"

definition libvirtBlockFlushTotalTimesDesc :: Desc where
  "libvirtBlockFlushTotalTimesDesc = NewDesc (BuildFQName ''libvirt'' ''block_stats'' ''flush_seconds_total'')
     ''Amount of time spent flushing of a block device, in seconds.''
     [''domain'', ''source_file'', ''target_device'']"

subsection \<open>Statements that send on the channel\<close>

type_synonym stmt = "trace \<Rightarrow> unit exit \<times> trace"

definition chan_send :: "Metric exit \<Rightarrow> stmt" where
  \<comment> \<open>\<^verbatim>\<open>ch <- m\<close>, where evaluating \<^verbatim>\<open>m\<close> may panic\<close>
  "chan_send r t = (case r of Panic p \<Rightarrow> (Panic p, t) | Return m \<Rightarrow> (Return (), t @ [EvSend m]))"

definition stmt_if :: "bool \<Rightarrow> stmt \<Rightarrow> stmt" where
  \<comment> \<open>\<^verbatim>\<open>if b { body }\<close>\<close>
  "stmt_if b body t = (if b then body t else (Return (), t))"

definition stmt_seq :: "stmt \<Rightarrow> stmt \<Rightarrow> stmt" where
  \<comment> \<open>one statement after another: a panic in the first skips the second\<close>
  "stmt_seq f g t = (case f t of (Panic p, t') \<Rightarrow> (Panic p, t') | (Return u, t') \<Rightarrow> g t')"

subsection \<open>\<^verbatim>\<open>CollectDomain\<close> (lines 78 to 179)\<close>

definition report_block_stats :: "string \<Rightarrow> Disk \<Rightarrow> DomainBlockStats \<Rightarrow> stmt" where
  \<comment> \<open>lines 102 to 173: the eight guarded sends of the loop body\<close>
  "report_block_stats domainName disk blockStats =
     stmt_seq (stmt_if (RdBytesSet blockStats)
       (chan_send (MustNewConstMetric libvirtBlockRdBytesDesc CounterValue
          (valof (float64_of_int64 (RdBytes blockStats)))
          [domainName, File (Source disk), Device (Target disk)])))
    (stmt_seq (stmt_if (RdReqSet blockStats)
       (chan_send (MustNewConstMetric libvirtBlockRdReqDesc CounterValue
          (valof (float64_of_int64 (RdReq blockStats)))
          [domainName, File (Source disk), Device (Target disk)])))
    (stmt_seq (stmt_if (RdTotalTimesSet blockStats)
       (chan_send (MustNewConstMetric libvirtBlockRdTotalTimesDesc CounterValue
          (valof (float64_quo (float64_of_int64 (RdTotalTimes blockStats)) float64_1e9))
          [domainName, File (Source disk), Device (Target disk)])))
    (stmt_seq (stmt_if (WrBytesSet blockStats)
       (chan_send (MustNewConstMetric libvirtBlockWrBytesDesc CounterValue
          (valof (float64_of_int64 (WrBytes blockStats)))
          [domainName, File (Source disk), Device (Target disk)])))
    (stmt_seq (stmt_if (WrReqSet blockStats)
       (chan_send (MustNewConstMetric libvirtBlockWrReqDesc CounterValue
          (valof (float64_of_int64 (WrReq blockStats)))
          [domainName, File (Source disk), Device (Target disk)])))
    (stmt_seq (stmt_if (WrTotalTimesSet blockStats)
       (chan_send (MustNewConstMetric libvirtBlockWrTotalTimesDesc CounterValue
          (valof (float64_quo (float64_of_int64 (WrTotalTimes blockStats)) float64_1e9))
          [domainName, File (Source disk), Device (Target disk)])))
    (stmt_seq (stmt_if (FlushReqSet blockStats)
       (chan_send (MustNewConstMetric libvirtBlockFlushReqDesc CounterValue
          (valof (float64_of_int64 (FlushReq blockStats)))
          [domainName, File (Source disk), Device (Target disk)])))
    (stmt_if (FlushTotalTimesSet blockStats)
       (chan_send (MustNewConstMetric libvirtBlockFlushTotalTimesDesc CounterValue
          (valof (float64_quo (float64_of_int64 (FlushTotalTimes blockStats)) float64_1e9))
          [domainName, File (Source disk), Device (Target disk)])))))))))"

fun collect_disks :: "libvirt \<Rightarrow> Domain \<Rightarrow> string \<Rightarrow> Disk list \<Rightarrow> trace \<Rightarrow> error option exit \<times> trace" where
  \<comment> \<open>lines 97 to 178: the loop over \<^verbatim>\<open>desc.Devices.Disks\<close> and the final \<^verbatim>\<open>return nil\<close>\<close>
  "collect_disks lv domain domainName [] t = (Return None, t)"
| "collect_disks lv domain domainName (disk # disks) t =
     (case BlockStats lv t domain (Device (Target disk)) of
        Inl err \<Rightarrow>
          (Return (Some err), t @ [EvBlockStats domain (Device (Target disk)) (Inl err)])
      | Inr blockStats \<Rightarrow>
          (case report_block_stats domainName disk blockStats
                  (t @ [EvBlockStats domain (Device (Target disk)) (Inr blockStats)]) of
             (Panic p, t') \<Rightarrow> (Panic p, t')
           | (Return u, t') \<Rightarrow> collect_disks lv domain domainName disks t'))"

definition CollectDomain :: "libvirt \<Rightarrow> Domain \<Rightarrow> trace \<Rightarrow> error option exit \<times> trace" where
  "CollectDomain lv domain t =
     (case GetName lv t domain of
        Inl err \<Rightarrow> (Return (Some err), t @ [EvGetName domain (Inl err)])
      | Inr domainName \<Rightarrow>
          (case GetXMLDesc lv (t @ [EvGetName domain (Inr domainName)]) domain 0 of
             Inl err \<Rightarrow>
               (Return (Some err),
                t @ [EvGetName domain (Inr domainName), EvGetXMLDesc domain 0 (Inl err)])
           | Inr xmlDesc \<Rightarrow>
               (case Unmarshal lv xmlDesc of
                  Inl err \<Rightarrow>
                    (Return (Some err),
                     t @ [EvGetName domain (Inr domainName), EvGetXMLDesc domain 0 (Inr xmlDesc)])
                | Inr desc \<Rightarrow>
                    collect_disks lv domain domainName (Disks (Devices desc))
                      (t @ [EvGetName domain (Inr domainName),
                            EvGetXMLDesc domain 0 (Inr xmlDesc)]))))"

subsection \<open>\<^verbatim>\<open>CollectFromLibvirt\<close> (lines 181 to 223)\<close>

text \<open>
  The function defers calls: \<^verbatim>\<open>conn.Close()\<close> once the connection is open, and
  \<^verbatim>\<open>domain.Free()\<close> in a loop over the listed domains. Go evaluates the operands of a
  deferred call when the \<^verbatim>\<open>defer\<close> statement runs and makes the call when the
  function exits, last deferred first, also when it exits by a panic.

  The operand of \<^verbatim>\<open>defer domain.Free()\<close> is the receiver. \<^verbatim>\<open>libvirt-go\<close> declares
  \<^verbatim>\<open>func (d *Domain) Free() error\<close>, and \<^verbatim>\<open>domain\<close> is a variable of type
  \<^verbatim>\<open>libvirt.Domain\<close> (both loops range over the same slice, and line 200 takes the
  address of its variable to get the \<^verbatim>\<open>*libvirt.Domain\<close> that \<^verbatim>\<open>CollectDomain\<close>
  wants), so the call is \<^verbatim>\<open>(&domain).Free()\<close> and what is saved is the address of
  the variable, not the struct in it. The program is written for
  Go before 1.22 (it has no \<^verbatim>\<open>go.mod\<close> and imports the relative path
  \<^verbatim>\<open>./libvirt_schema\<close>, which only a build outside modules accepts); there the
  range clause of line 196 declares one variable \<^verbatim>\<open>domain\<close> for the whole loop and
  assigns it each element in turn. So the frame of the function has one cell for
  that variable, and a deferred \<^verbatim>\<open>Free\<close> holds its address and reads it at exit.

  \<^verbatim>\<open>conn\<close> is itself a pointer, so \<^verbatim>\<open>defer conn.Close()\<close> saves the connection. The
  second loop passes \<^verbatim>\<open>&domain\<close> to \<^verbatim>\<open>CollectDomain\<close>, which uses it before the
  variable changes again: the model passes the domain.
\<close>

type_synonym addr = nat

datatype deferred =
    DeferClose Connect
  | DeferFree addr

record frame =
  vars :: "addr \<Rightarrow> Domain"
  defers :: "deferred list"

definition domain_var :: addr where
  \<comment> \<open>the address of the variable \<^verbatim>\<open>domain\<close> of the loop of line 196\<close>
  "domain_var = 0"

fun defer_free_loop :: "Domain list \<Rightarrow> frame \<Rightarrow> frame" where
  \<comment> \<open>lines 196 to 198\<close>
  "defer_free_loop [] fr = fr"
| "defer_free_loop (d # ds) fr =
     defer_free_loop ds
       (fr\<lparr>vars := (vars fr)(domain_var := d), defers := DeferFree domain_var # defers fr\<rparr>)"

fun run_defers :: "(addr \<Rightarrow> Domain) \<Rightarrow> deferred list \<Rightarrow> trace \<Rightarrow> trace" where
  \<comment> \<open>the deferred calls at function exit; the head of the list was deferred last\<close>
  "run_defers vs [] t = t"
| "run_defers vs (DeferClose c # ds) t = run_defers vs ds (t @ [EvClose c])"
| "run_defers vs (DeferFree a # ds) t = run_defers vs ds (t @ [EvFree (vs a)])"

fun collect_all :: "libvirt \<Rightarrow> Domain list \<Rightarrow> trace \<Rightarrow> error option exit \<times> trace" where
  \<comment> \<open>lines 199 to 204, and the \<^verbatim>\<open>return nil\<close> of line 222 when the loop ends\<close>
  "collect_all lv [] t = (Return None, t)"
| "collect_all lv (domain # domains) t =
     (case CollectDomain lv domain t of
        (Panic p, t') \<Rightarrow> (Panic p, t')
      | (Return (Some err), t') \<Rightarrow> (Return (Some err), t')
      | (Return None, t') \<Rightarrow> collect_all lv domains t')"

fun collect_by_id :: "libvirt \<Rightarrow> Connect \<Rightarrow> nat list \<Rightarrow> trace \<Rightarrow> error option exit \<times> trace" where
  \<comment> \<open>lines 210 to 219, and the \<^verbatim>\<open>return nil\<close> of line 222 when the loop ends\<close>
  "collect_by_id lv conn [] t = (Return None, t)"
| "collect_by_id lv conn (domainId # domainIds) t =
     (case LookupDomainById lv t conn domainId of
        Inl err \<Rightarrow>
          collect_by_id lv conn domainIds (t @ [EvLookupDomainById conn domainId (Inl err)])
      | Inr domain \<Rightarrow>
          (case CollectDomain lv domain (t @ [EvLookupDomainById conn domainId (Inr domain)]) of
             (Panic p, t') \<Rightarrow> (Panic p, t')
           | (Return (Some err), t') \<Rightarrow> (Return (Some err), t' @ [EvFree domain])
           | (Return None, t') \<Rightarrow> collect_by_id lv conn domainIds (t' @ [EvFree domain])))"

definition list_and_collect ::
  "libvirt \<Rightarrow> Connect \<Rightarrow> frame \<Rightarrow> trace \<Rightarrow> error option exit \<times> frame \<times> trace" where
  \<comment> \<open>lines 194 to 222: the body of the function once \<^verbatim>\<open>conn.Close()\<close> is deferred\<close>
  "list_and_collect lv conn fr t =
     (case ListAllDomains lv t conn CONNECT_LIST_DOMAINS_ACTIVE of
        Inr domains \<Rightarrow>
          (case collect_all lv domains
                  (t @ [EvListAllDomains conn CONNECT_LIST_DOMAINS_ACTIVE (Inr domains)]) of
             (r, t') \<Rightarrow> (r, defer_free_loop domains fr, t'))
      | Inl err0 \<Rightarrow>
          (case ListDomains lv
                  (t @ [EvListAllDomains conn CONNECT_LIST_DOMAINS_ACTIVE (Inl err0)]) conn of
             Inl err \<Rightarrow>
               (Return (Some err), fr,
                t @ [EvListAllDomains conn CONNECT_LIST_DOMAINS_ACTIVE (Inl err0),
                     EvListDomains conn (Inl err)])
           | Inr domainIds \<Rightarrow>
               (case collect_by_id lv conn domainIds
                       (t @ [EvListAllDomains conn CONNECT_LIST_DOMAINS_ACTIVE (Inl err0),
                             EvListDomains conn (Inr domainIds)]) of
                  (r, t') \<Rightarrow> (r, fr, t'))))"

definition CollectFromLibvirt :: "libvirt \<Rightarrow> string \<Rightarrow> trace \<Rightarrow> error option exit \<times> trace" where
  "CollectFromLibvirt lv uri t =
     (case NewConnect lv t uri of
        Inl err \<Rightarrow> (Return (Some err), t @ [EvNewConnect uri (Inl err)])
      | Inr conn \<Rightarrow>
          (case list_and_collect lv conn
                  \<lparr>vars = (\<lambda>a. Domain 0), defers = [DeferClose conn]\<rparr>
                  (t @ [EvNewConnect uri (Inr conn)]) of
             (r, fr, t') \<Rightarrow> (r, run_defers (vars fr) (defers fr) t')))"

subsection \<open>The exporter (lines 225 to 266)\<close>

record LibvirtExporter =
  uri :: string

definition NewLibvirtExporter :: "string \<Rightarrow> LibvirtExporter \<times> error option" where
  "NewLibvirtExporter u = (\<lparr>uri = u\<rparr>, None)"

definition Describe :: "LibvirtExporter \<Rightarrow> Desc list" where
  \<comment> \<open>the descriptors sent on the channel, in order\<close>
  "Describe e =
     [libvirtUpDesc,
      libvirtBlockRdBytesDesc, libvirtBlockRdReqDesc, libvirtBlockRdTotalTimesDesc,
      libvirtBlockWrBytesDesc, libvirtBlockWrReqDesc, libvirtBlockWrTotalTimesDesc,
      libvirtBlockFlushReqDesc, libvirtBlockFlushTotalTimesDesc]"

definition Collect :: "libvirt \<Rightarrow> LibvirtExporter \<Rightarrow> trace \<Rightarrow> unit exit \<times> trace" where
  "Collect lv e t =
     (case CollectFromLibvirt lv (uri e) t of
        (Panic p, t') \<Rightarrow> (Panic p, t')
      | (Return None, t') \<Rightarrow>
          chan_send (MustNewConstMetric libvirtUpDesc GaugeValue 1 []) t'
      | (Return (Some err), t') \<Rightarrow>
          chan_send (MustNewConstMetric libvirtUpDesc GaugeValue 0 [])
            (t' @ [EvLogPrintf ''Failed to scrape metrics: %s'' err]))"

section \<open>Observations on traces\<close>

fun sent :: "trace \<Rightarrow> Metric list" where
  \<comment> \<open>the metrics the channel received, in order\<close>
  "sent [] = []"
| "sent (EvSend m # t) = m # sent t"
| "sent (ev # t) = sent t"

fun is_send :: "event \<Rightarrow> bool" where
  "is_send (EvSend m) = True"
| "is_send ev = False"

fun is_release :: "event \<Rightarrow> bool" where
  \<comment> \<open>a domain handle or the connection is given back\<close>
  "is_release (EvFree d) = True"
| "is_release (EvClose c) = True"
| "is_release ev = False"

fun is_fallback_call :: "event \<Rightarrow> bool" where
  \<comment> \<open>a call of the enumeration by identifier\<close>
  "is_fallback_call (EvListDomains c r) = True"
| "is_fallback_call (EvLookupDomainById c i r) = True"
| "is_fallback_call ev = False"

fun collected :: "trace \<Rightarrow> Domain list" where
  \<comment> \<open>the domains \<open>CollectDomain\<close> was started on: each start is one \<^verbatim>\<open>GetName\<close> call\<close>
  "collected [] = []"
| "collected (EvGetName d r # t) = d # collected t"
| "collected (ev # t) = collected t"

fun looked_up :: "trace \<Rightarrow> Domain list" where
  \<comment> \<open>the handles that \<^verbatim>\<open>LookupDomainById\<close> returned\<close>
  "looked_up [] = []"
| "looked_up (EvLookupDomainById c i (Inr d) # t) = d # looked_up t"
| "looked_up (ev # t) = looked_up t"

fun freed :: "trace \<Rightarrow> Domain list" where
  \<comment> \<open>the handles \<^verbatim>\<open>Free\<close> was called on\<close>
  "freed [] = []"
| "freed (EvFree d # t) = d # freed t"
| "freed (ev # t) = freed t"

text \<open>
  What the loop body sends for one answer of \<^verbatim>\<open>BlockStats\<close>, written as a list: the
  lemmas below show that \<open>report_block_stats\<close> sends exactly this.
\<close>

definition sample :: "bool \<Rightarrow> Desc \<Rightarrow> real \<Rightarrow> string list \<Rightarrow> Metric list" where
  "sample b d v ls =
     (if b then [\<lparr>metricDesc = d, valType = CounterValue, val = v, labelValues = ls\<rparr>] else [])"

definition block_samples :: "string \<Rightarrow> Disk \<Rightarrow> DomainBlockStats \<Rightarrow> Metric list" where
  "block_samples domainName disk blockStats =
     sample (RdBytesSet blockStats) libvirtBlockRdBytesDesc
       (valof (float64_of_int64 (RdBytes blockStats)))
       [domainName, File (Source disk), Device (Target disk)] @
     sample (RdReqSet blockStats) libvirtBlockRdReqDesc
       (valof (float64_of_int64 (RdReq blockStats)))
       [domainName, File (Source disk), Device (Target disk)] @
     sample (RdTotalTimesSet blockStats) libvirtBlockRdTotalTimesDesc
       (valof (float64_quo (float64_of_int64 (RdTotalTimes blockStats)) float64_1e9))
       [domainName, File (Source disk), Device (Target disk)] @
     sample (WrBytesSet blockStats) libvirtBlockWrBytesDesc
       (valof (float64_of_int64 (WrBytes blockStats)))
       [domainName, File (Source disk), Device (Target disk)] @
     sample (WrReqSet blockStats) libvirtBlockWrReqDesc
       (valof (float64_of_int64 (WrReq blockStats)))
       [domainName, File (Source disk), Device (Target disk)] @
     sample (WrTotalTimesSet blockStats) libvirtBlockWrTotalTimesDesc
       (valof (float64_quo (float64_of_int64 (WrTotalTimes blockStats)) float64_1e9))
       [domainName, File (Source disk), Device (Target disk)] @
     sample (FlushReqSet blockStats) libvirtBlockFlushReqDesc
       (valof (float64_of_int64 (FlushReq blockStats)))
       [domainName, File (Source disk), Device (Target disk)] @
     sample (FlushTotalTimesSet blockStats) libvirtBlockFlushTotalTimesDesc
       (valof (float64_quo (float64_of_int64 (FlushTotalTimes blockStats)) float64_1e9))
       [domainName, File (Source disk), Device (Target disk)]"

definition up_metric :: "real \<Rightarrow> Metric" where
  \<comment> \<open>the health gauge \<^verbatim>\<open>libvirt_up\<close> with the given value\<close>
  "up_metric v = \<lparr>metricDesc = libvirtUpDesc, valType = GaugeValue, val = v, labelValues = []\<rparr>"

fun domain_event :: "event \<Rightarrow> bool" where
  \<comment> \<open>the events of a run of \<open>CollectDomain\<close>\<close>
  "domain_event (EvGetName d r) = True"
| "domain_event (EvGetXMLDesc d f r) = True"
| "domain_event (EvBlockStats d dev r) = True"
| "domain_event (EvSend m) = (metricDesc m \<noteq> libvirtUpDesc)"
| "domain_event ev = False"

definition fail_fast :: "error option exit \<Rightarrow> trace \<Rightarrow> bool" where
  \<comment> \<open>a failed \<^verbatim>\<open>BlockStats\<close> call is the first one, decides the result and is followed by
      releases only\<close>
  "fail_fast r u \<longleftrightarrow>
     (\<forall>d dev e. EvBlockStats d dev (Inl e) \<in> set u \<longrightarrow>
        r = Return (Some e) \<and>
        (\<exists>u0 rel. u = u0 @ EvBlockStats d dev (Inl e) # rel \<and> list_all is_release rel \<and>
           (\<forall>d' dev' e'. EvBlockStats d' dev' (Inl e') \<notin> set u0)))"

fun release_of :: "(addr \<Rightarrow> Domain) \<Rightarrow> deferred \<Rightarrow> event" where
  \<comment> \<open>the event of one deferred call\<close>
  "release_of vs (DeferClose c) = EvClose c"
| "release_of vs (DeferFree a) = EvFree (vs a)"

fun is_free :: "event \<Rightarrow> bool" where
  "is_free (EvFree d) = True"
| "is_free ev = False"

fun stats_queries :: "trace \<Rightarrow> nat" where
  \<comment> \<open>the number of \<^verbatim>\<open>BlockStats\<close> calls\<close>
  "stats_queries [] = 0"
| "stats_queries (EvBlockStats d dev r # t) = Suc (stats_queries t)"
| "stats_queries (ev # t) = stats_queries t"


section \<open>Concrete daemons\<close>

text \<open>
  The scenarios the properties are tried on. None of these daemons looks at the
  trace. The first is the end-to-end example: one active domain \<^verbatim>\<open>vm1\<close> with the disk
  \<^verbatim>\<open>/a.img\<close> on \<^verbatim>\<open>vda\<close>, for which only the bytes read are reported.
\<close>

definition no_stats :: DomainBlockStats where
  "no_stats = \<lparr>RdBytesSet = False, RdBytes = 0, RdReqSet = False, RdReq = 0,
     RdTotalTimesSet = False, RdTotalTimes = 0, WrBytesSet = False, WrBytes = 0,
     WrReqSet = False, WrReq = 0, WrTotalTimesSet = False, WrTotalTimes = 0,
     FlushReqSet = False, FlushReq = 0, FlushTotalTimesSet = False, FlushTotalTimes = 0,
     ErrsSet = False, Errs = 0\<rparr>"

definition disk_of :: "string \<Rightarrow> string \<Rightarrow> Disk" where
  "disk_of file dev = \<lparr>Source = \<lparr>File = file\<rparr>, Target = \<lparr>Device = dev\<rparr>\<rparr>"

definition lv_vm1 :: libvirt where
  "lv_vm1 =
     \<lparr>NewConnect = (\<lambda>t u. Inr (Connect 1)),
      ListAllDomains = (\<lambda>t c f. Inr [Domain 1]),
      ListDomains = (\<lambda>t c. Inr [1]),
      LookupDomainById = (\<lambda>t c i. Inr (Domain i)),
      GetName = (\<lambda>t d. Inr ''vm1''),
      GetXMLDesc = (\<lambda>t d f. Inr ''<domain/>''),
      BlockStats = (\<lambda>t d dev. Inr (no_stats\<lparr>RdBytesSet := True, RdBytes := 1024\<rparr>)),
      Unmarshal = (\<lambda>x. Inr \<lparr>Devices = \<lparr>Disks = [disk_of ''/a.img'' ''vda'']\<rparr>\<rparr>)\<rparr>"

definition lv_times :: libvirt where
  \<comment> \<open>as \<open>lv_vm1\<close>, with 2.5 seconds of reading and 7 write requests reported\<close>
  "lv_times = lv_vm1
     \<lparr>BlockStats := (\<lambda>t d dev. Inr (no_stats
        \<lparr>RdTotalTimesSet := True, RdTotalTimes := 2500000000, WrReqSet := True, WrReq := 7\<rparr>))\<rparr>"

definition big_stats :: DomainBlockStats where
  \<comment> \<open>\<open>2 ^ 53 + 1\<close> bytes read, in one nanosecond\<close>
  "big_stats = no_stats
     \<lparr>RdBytesSet := True, RdBytes := 9007199254740993, RdTotalTimesSet := True, RdTotalTimes := 1\<rparr>"

definition lv_big :: libvirt where
  \<comment> \<open>as \<open>lv_vm1\<close>, with the statistics \<open>big_stats\<close>\<close>
  "lv_big = lv_vm1\<lparr>BlockStats := (\<lambda>t d dev. Inr big_stats)\<rparr>"

definition lv_two_disks :: libvirt where
  \<comment> \<open>as \<open>lv_vm1\<close>, with a second disk \<^verbatim>\<open>/b.img\<close> on \<^verbatim>\<open>vdb\<close>\<close>
  "lv_two_disks = lv_vm1
     \<lparr>Unmarshal := (\<lambda>x. Inr \<lparr>Devices = \<lparr>Disks =
        [disk_of ''/a.img'' ''vda'', disk_of ''/b.img'' ''vdb'']\<rparr>\<rparr>)\<rparr>"

definition lv_three_disks :: libvirt where
  \<comment> \<open>three disks; the statistics of the second cannot be read\<close>
  "lv_three_disks = lv_vm1
     \<lparr>Unmarshal := (\<lambda>x. Inr \<lparr>Devices = \<lparr>Disks =
        [disk_of ''/a.img'' ''vda'', disk_of ''/b.img'' ''vdb'', disk_of ''/c.img'' ''vdc'']\<rparr>\<rparr>),
      BlockStats := (\<lambda>t d dev. if dev = ''vdb'' then Inl (VirError 1 ''no such device'')
        else Inr (no_stats\<lparr>RdBytesSet := True, RdBytes := 1024\<rparr>))\<rparr>"

definition lv_no_disks :: libvirt where
  \<comment> \<open>two active domains without disks\<close>
  "lv_no_disks = lv_vm1
     \<lparr>ListAllDomains := (\<lambda>t c f. Inr [Domain 1, Domain 2]),
      Unmarshal := (\<lambda>x. Inr \<lparr>Devices = \<lparr>Disks = []\<rparr>\<rparr>)\<rparr>"

definition lv_old :: libvirt where
  \<comment> \<open>a daemon without the bulk listing; domain 7 is gone when it is looked up\<close>
  "lv_old = lv_vm1
     \<lparr>ListAllDomains := (\<lambda>t c f. Inl (VirError ERR_NO_SUPPORT ''not supported'')),
      ListDomains := (\<lambda>t c. Inr [3, 7, 9]),
      LookupDomainById := (\<lambda>t c i. if i = 7 then Inl (VirError 42 ''no domain'') else Inr (Domain i)),
      Unmarshal := (\<lambda>x. Inr \<lparr>Devices = \<lparr>Disks = []\<rparr>\<rparr>)\<rparr>"


definition lv_rpc :: libvirt where
  \<comment> \<open>the bulk listing fails on the transport; the listing of identifiers answers\<close>
  "lv_rpc = lv_vm1
     \<lparr>ListAllDomains := (\<lambda>t c f. Inl (VirError ERR_RPC ''broken pipe'')),
      ListDomains := (\<lambda>t c. Inr [])\<rparr>"

definition lv_down :: libvirt where
  \<comment> \<open>no connection can be opened\<close>
  "lv_down = lv_vm1\<lparr>NewConnect := (\<lambda>t u. Inl (VirError 38 ''connection refused''))\<rparr>"

definition exporter :: LibvirtExporter where
  "exporter = fst (NewLibvirtExporter ''qemu:///system'')"

section \<open>Rounding to \<^verbatim>\<open>float64\<close>\<close>

text \<open>
  The rounding of a fraction is off by at most half a unit of the result. For a
  fraction that is not below the smallest normal number that is a relative error of
  at most \<open>2 powi - 53\<close>; an integer of at most 53 bits is not changed at all. The
  division rounds the exact quotient of its arguments. Together: the seconds computed
  from a counter of nanoseconds are within a relative error of \<open>2 powi - 51\<close> of the
  exact quotient.
\<close>

lemma valof_powi: "valof f = of_int (mantissa f) * 2 powi exponent f"
proof (cases "0 \<le> exponent f")
  case True
  then show ?thesis by (simp add: valof_def power_int_def)
next
  case False
  then show ?thesis by (simp add: valof_def power_int_def power_inverse field_simps)
qed

lemma bitlen_upper: "n < 2 ^ bitlen n"
proof (induction n rule: bitlen.induct)
  case (1 n)
  show ?case
  proof (cases "n = 0")
    case True
    then show ?thesis by (subst bitlen.simps) simp
  next
    case False
    with 1 have "n div 2 < 2 ^ bitlen (n div 2)" by simp
    then have "n < 2 * 2 ^ bitlen (n div 2)" by linarith
    with False show ?thesis by (subst bitlen.simps) simp
  qed
qed

lemma bitlen_lower: "0 < n \<Longrightarrow> 2 ^ (bitlen n - 1) \<le> n"
proof (induction n rule: bitlen.induct)
  case (1 n)
  then have n: "n \<noteq> 0" by simp
  show ?case
  proof (cases "n div 2 = 0")
    case True
    with n have "bitlen n = 1" 
      by (subst bitlen.simps, subst bitlen.simps) simp
    with 1(2) show ?thesis by simp
  next
    case False
    with 1 n have ih: "2 ^ (bitlen (n div 2) - 1) \<le> n div 2" by simp
    from False have "bitlen (n div 2) \<noteq> 0" by (subst bitlen.simps) simp
    then have "(2::nat) ^ bitlen (n div 2) = 2 * 2 ^ (bitlen (n div 2) - 1)"
      by (cases "bitlen (n div 2)") simp_all
    with ih have "2 ^ bitlen (n div 2) \<le> n" by linarith
    with n show ?thesis by (subst bitlen.simps) simp
  qed
qed

lemma round_even_error:
  assumes "0 < d"
  shows "\<bar>real_of_int (round_even n d) - real_of_int n / real_of_int d\<bar> \<le> 1 / 2"
proof -
  define q where "q = n div d"
  define r where "r = n mod d"
  have n: "n = q * d + r" by (simp add: q_def r_def)
  from assms have r: "0 \<le> r" "r < d" by (simp_all add: r_def)
  from assms have x: "real_of_int n / real_of_int d = real_of_int q + real_of_int r / real_of_int d"
    by (simp add: n field_simps)
  have frac: "0 \<le> real_of_int r / real_of_int d" "real_of_int r / real_of_int d < 1"
    using r assms by simp_all
  consider "2 * r < d" | "d < 2 * r" | "2 * r = d" by linarith
  then show ?thesis
  proof cases
    case 1
    then have "round_even n d = q" by (simp add: round_even_def q_def r_def Let_def)
    moreover from 1 assms have "real_of_int r / real_of_int d \<le> 1 / 2"
      by (simp add: field_simps)
    ultimately show ?thesis using frac x by simp
  next
    case 2
    then have "round_even n d = q + 1" by (simp add: round_even_def q_def r_def Let_def)
    moreover from 2 assms have "1 / 2 \<le> real_of_int r / real_of_int d"
      by (simp add: field_simps)
    ultimately show ?thesis using frac x by simp
  next
    case 3
    then have "round_even n d = q \<or> round_even n d = q + 1"
      by (simp add: round_even_def q_def r_def Let_def)
    moreover from 3 assms have "real_of_int r / real_of_int d = 1 / 2"
      by (simp add: field_simps)
    ultimately show ?thesis using x by auto
  qed
qed

lemma round_even_exact: "round_even n 1 = n"
  by (simp add: round_even_def)

lemma binade_bounds:
  assumes "n \<noteq> 0" and "0 < d"
  shows "2 powi binade n d \<le> \<bar>real_of_int n / real_of_int d\<bar>"
    and "\<bar>real_of_int n / real_of_int d\<bar> < 2 powi (binade n d + 1)"
proof -
  define a where "a = bitlen (nat \<bar>n\<bar>)"
  define b where "b = bitlen (nat d)"
  define k where "k = int a - int b"
  define x where "x = \<bar>real_of_int n / real_of_int d\<bar>"
  from assms have xd: "x = real_of_int \<bar>n\<bar> / real_of_int d" by (simp add: x_def abs_divide)
  from assms have npos: "0 < nat \<bar>n\<bar>" and dpos: "0 < nat d" by simp_all
  from bitlen_lower [OF npos] have "int (2 ^ (a - 1)) \<le> int (nat \<bar>n\<bar>)"
    unfolding a_def by (rule iffD2 [OF of_nat_le_iff])
  then have "(2::int) ^ (a - 1) \<le> \<bar>n\<bar>" by simp
  then have "real_of_int (2 ^ (a - 1)) \<le> real_of_int \<bar>n\<bar>" by (rule iffD2 [OF of_int_le_iff])
  then have nl: "2 ^ (a - 1) \<le> real_of_int \<bar>n\<bar>" by simp
  from bitlen_upper [of "nat \<bar>n\<bar>"] have "int (nat \<bar>n\<bar>) < int (2 ^ a)"
    unfolding a_def by (rule iffD2 [OF of_nat_less_iff])
  then have "\<bar>n\<bar> < (2::int) ^ a" by simp
  then have "real_of_int \<bar>n\<bar> < real_of_int (2 ^ a)" by (rule iffD2 [OF of_int_less_iff])
  then have nu: "real_of_int \<bar>n\<bar> < 2 ^ a" by simp
  from bitlen_lower [OF dpos] have "int (2 ^ (b - 1)) \<le> int (nat d)"
    unfolding b_def by (rule iffD2 [OF of_nat_le_iff])
  with assms have "(2::int) ^ (b - 1) \<le> d" by simp
  then have "real_of_int (2 ^ (b - 1)) \<le> real_of_int d" by (rule iffD2 [OF of_int_le_iff])
  then have dl: "2 ^ (b - 1) \<le> real_of_int d" by simp
  from bitlen_upper [of "nat d"] have "int (nat d) < int (2 ^ b)"
    unfolding b_def by (rule iffD2 [OF of_nat_less_iff])
  with assms have "d < (2::int) ^ b" by simp
  then have "real_of_int d < real_of_int (2 ^ b)" by (rule iffD2 [OF of_int_less_iff])
  then have du: "real_of_int d < 2 ^ b" by simp
  from npos have apos: "0 < a" unfolding a_def by (subst bitlen.simps) simp
  from dpos have bpos: "0 < b" unfolding b_def by (subst bitlen.simps) simp
  have rd: "0 < real_of_int d" using assms by simp
  have pk: "(2::real) powi k = 2 ^ a / 2 ^ b"
    unfolding k_def by (simp add: power_int_diff)
  have pk1: "(2::real) powi (k + 1) = 2 ^ a / 2 ^ (b - 1)"
  proof -
    have "k + 1 = int a - int (b - 1)" using bpos by (simp add: k_def)
    then show ?thesis by (simp add: power_int_diff)
  qed
  have pkm: "(2::real) powi (k - 1) = 2 ^ (a - 1) / 2 ^ b"
  proof -
    have "k - 1 = int (a - 1) - int b" using apos by (simp add: k_def)
    then show ?thesis by (simp add: power_int_diff)
  qed
  have up: "x < 2 powi (k + 1)"
  proof -
    have "x < 2 ^ a / real_of_int d" unfolding xd using nu rd by (simp add: divide_strict_right_mono)
    also have "\<dots> \<le> 2 ^ a / 2 ^ (b - 1)" using dl by (simp add: frac_le)
    finally show ?thesis by (simp add: pk1)
  qed
  have low: "2 powi (k - 1) \<le> x"
  proof -
    have "2 ^ (a - 1) / 2 ^ b \<le> real_of_int \<bar>n\<bar> / 2 ^ b" using nl by (simp add: divide_right_mono)
    also have "\<dots> \<le> real_of_int \<bar>n\<bar> / real_of_int d" using du rd by (simp add: frac_le)
    finally show ?thesis by (simp add: pkm xd)
  qed
  define above where "above \<longleftrightarrow> (if 0 \<le> k then d * 2 ^ nat k \<le> \<bar>n\<bar> else d \<le> \<bar>n\<bar> * 2 ^ nat (- k))"
  have ab: "above \<longleftrightarrow> 2 powi k \<le> x"
  proof (cases "0 \<le> k")
    case True
    then have "above \<longleftrightarrow> real_of_int (d * 2 ^ nat k) \<le> real_of_int \<bar>n\<bar>"
      unfolding above_def by (simp only: of_int_le_iff if_True)
    also have "\<dots> \<longleftrightarrow> 2 ^ nat k \<le> real_of_int \<bar>n\<bar> / real_of_int d"
      using rd by (simp add: field_simps)
    also from True have "(2::real) ^ nat k = 2 powi k" by (simp add: power_int_def)
    finally show ?thesis by (simp add: xd)
  next
    case False
    then have "above \<longleftrightarrow> real_of_int d \<le> real_of_int (\<bar>n\<bar> * 2 ^ nat (- k))"
      unfolding above_def by (simp only: of_int_le_iff if_False)
    also have "\<dots> \<longleftrightarrow> 1 / 2 ^ nat (- k) \<le> real_of_int \<bar>n\<bar> / real_of_int d"
      using rd by (simp add: field_simps)
    also from False have "1 / (2::real) ^ nat (- k) = 2 powi k"
      by (simp add: power_int_def power_inverse field_simps)
    finally show ?thesis by (simp add: xd)
  qed
  have bin: "binade n d = (if above then k else k - 1)"
    by (simp add: binade_def above_def k_def a_def b_def Let_def)
  show "2 powi binade n d \<le> \<bar>real_of_int n / real_of_int d\<bar>"
    using ab low by (simp add: bin x_def)
  show "\<bar>real_of_int n / real_of_int d\<bar> < 2 powi (binade n d + 1)"
    using ab up by (simp add: bin x_def)
qed

lemma round_float64_abs_error:
  assumes "n \<noteq> 0" and "0 < d"
  shows "\<bar>valof (round_float64 n d) - real_of_int n / real_of_int d\<bar>
      \<le> 2 powi (max (binade n d - 52) (- 1074)) / 2"
proof -
  define e where "e = max (binade n d - 52) (- 1074)"
  have rd: "0 < real_of_int d" using assms by simp
  show ?thesis
  proof (cases "0 \<le> e")
    case True
    define s where "s = nat e"
    define m where "m = round_even n (d * 2 ^ s)"
    from True assms have f: "round_float64 n d = Float64 m e"
      by (simp add: round_float64_def e_def m_def s_def Let_def)
    from True have v: "valof (Float64 m e) = real_of_int m * 2 ^ s"
      by (simp add: valof_def s_def)
    from True have p: "(2::real) powi e = 2 ^ s" by (simp add: power_int_def s_def)
    from assms have "0 < d * 2 ^ s" by simp
    from round_even_error [OF this, of n]
    have "\<bar>real_of_int m - real_of_int n / (real_of_int d * 2 ^ s)\<bar> \<le> 1 / 2"
      by (simp add: m_def)
    then have "\<bar>real_of_int m - real_of_int n / (real_of_int d * 2 ^ s)\<bar> * 2 ^ s \<le> 1 / 2 * 2 ^ s"
      by (rule mult_right_mono) simp
    moreover have "\<bar>real_of_int m - real_of_int n / (real_of_int d * 2 ^ s)\<bar> * 2 ^ s =
        \<bar>real_of_int m * 2 ^ s - real_of_int n / real_of_int d\<bar>"
    proof -
      have "\<bar>real_of_int m - real_of_int n / (real_of_int d * 2 ^ s)\<bar> * 2 ^ s =
          \<bar>(real_of_int m - real_of_int n / (real_of_int d * 2 ^ s)) * 2 ^ s\<bar>"
        by (simp add: abs_mult)
      also have "(real_of_int m - real_of_int n / (real_of_int d * 2 ^ s)) * 2 ^ s =
          real_of_int m * 2 ^ s - real_of_int n / real_of_int d"
        using rd by (simp add: field_simps)
      finally show ?thesis .
    qed
    ultimately show ?thesis by (simp add: f v p flip: e_def)
  next
    case False
    define s where "s = nat (- e)"
    define m where "m = round_even (n * 2 ^ s) d"
    from False assms have f: "round_float64 n d = Float64 m e"
      by (simp add: round_float64_def e_def m_def s_def Let_def)
    from False have v: "valof (Float64 m e) = real_of_int m / 2 ^ s"
      by (simp add: valof_def s_def)
    from False have p: "(2::real) powi e = 1 / 2 ^ s"
      by (simp add: power_int_def s_def power_inverse field_simps)
    from round_even_error [OF assms(2), of "n * 2 ^ s"]
    have "\<bar>real_of_int m - real_of_int n * 2 ^ s / real_of_int d\<bar> \<le> 1 / 2"
      by (simp add: m_def)
    then have "\<bar>real_of_int m - real_of_int n * 2 ^ s / real_of_int d\<bar> / 2 ^ s \<le> 1 / 2 / 2 ^ s"
      by (rule divide_right_mono) simp
    moreover have "\<bar>real_of_int m - real_of_int n * 2 ^ s / real_of_int d\<bar> / 2 ^ s =
        \<bar>real_of_int m / 2 ^ s - real_of_int n / real_of_int d\<bar>"
    proof -
      have "\<bar>real_of_int m - real_of_int n * 2 ^ s / real_of_int d\<bar> / 2 ^ s =
          \<bar>(real_of_int m - real_of_int n * 2 ^ s / real_of_int d) / 2 ^ s\<bar>"
        by (simp add: abs_divide)
      also have "(real_of_int m - real_of_int n * 2 ^ s / real_of_int d) / 2 ^ s =
          real_of_int m / 2 ^ s - real_of_int n / real_of_int d"
        using rd by (simp add: field_simps)
      finally show ?thesis .
    qed
    ultimately show ?thesis by (simp add: f v p flip: e_def)
  qed
qed

lemma round_float64_zero: "valof (round_float64 0 d) = 0"
  by (simp add: round_float64_def valof_def)

lemma round_float64_rel_error:
  assumes "0 < d" and "2 powi (- 1022) \<le> \<bar>real_of_int n / real_of_int d\<bar>"
  shows "\<bar>valof (round_float64 n d) - real_of_int n / real_of_int d\<bar>
      \<le> \<bar>real_of_int n / real_of_int d\<bar> / 2 ^ 53"
proof -
  define x where "x = \<bar>real_of_int n / real_of_int d\<bar>"
  define p where "p = binade n d"
  have "(0::real) < 2 powi (- 1022)" by simp
  with assms(2) have "real_of_int n / real_of_int d \<noteq> 0" by auto
  then have n: "n \<noteq> 0" by auto
  note b = binade_bounds [OF n assms(1), folded x_def p_def]
  have "- 1022 < p + 1"
  proof (rule ccontr)
    assume "\<not> - 1022 < p + 1"
    then have "p + 1 \<le> - 1022" by simp
    then have "(2::real) powi (p + 1) \<le> 2 powi (- 1022)"
      by (intro power_int_increasing) simp_all
    moreover from assms(2) have "2 powi (- 1022) \<le> x" unfolding x_def .
    ultimately have "2 powi (p + 1) \<le> x" by (rule order_trans)
    with b(2) show False by linarith
  qed
  then have e: "max (p - 52) (- 1074) = p - 52" by simp
  have "(2::real) powi (p - 52) / 2 = 2 powi p / 2 ^ 53"
  proof -
    have "(2::real) powi (p - 52) = 2 powi p / 2 powi 52"
      by (simp add: power_int_diff)
    then show ?thesis by simp
  qed
  with round_float64_abs_error [OF n assms(1)] e
  have "\<bar>valof (round_float64 n d) - real_of_int n / real_of_int d\<bar> \<le> 2 powi p / 2 ^ 53"
    by (simp add: p_def)
  also from b(1) have "\<dots> \<le> x / 2 ^ 53" by (simp add: divide_right_mono)
  finally show ?thesis by (simp add: x_def)
qed

lemma round_float64_exact_small:
  assumes "\<bar>n\<bar> < 2 ^ 53"
  shows "valof (round_float64 n 1) = real_of_int n"
proof (cases "n = 0")
  case True
  then show ?thesis by (simp add: round_float64_zero)
next
  case False
  define p where "p = binade n 1"
  from binade_bounds(1) [OF False, of 1] have "2 powi p \<le> \<bar>real_of_int n\<bar>"
    by (simp add: p_def)
  also from assms have "\<bar>real_of_int n\<bar> < 2 ^ 53"
    by (metis of_int_abs of_int_less_iff of_int_numeral of_int_power)
  finally have lt: "(2::real) powi p < 2 powi 53" by simp
  have "p < 53"
  proof (rule ccontr)
    assume "\<not> p < 53"
    then have "53 \<le> p" by simp
    then have "(2::real) powi 53 \<le> 2 powi p" by (intro power_int_increasing) simp_all
    with lt show False by linarith
  qed
  define e where "e = max (p - 52) (- 1074)"
  from \<open>p < 53\<close> have e: "e \<le> 0" by (simp add: e_def)
  show ?thesis
  proof (cases "e = 0")
    case True
    with False show ?thesis
      by (simp add: round_float64_def Let_def round_even_exact valof_def flip: e_def p_def)
  next
    case F: False
    with e have "e < 0" by simp
    with False show ?thesis
      by (simp add: round_float64_def Let_def round_even_exact valof_def flip: e_def p_def)
  qed
qed

lemma bitlen_numeral [simp]:
  "bitlen 0 = 0"
  "bitlen (numeral k) = Suc (bitlen (numeral k div 2))"
  by (subst bitlen.simps, simp)+

lemma round_float64_exact_2_53:
  "valof (round_float64 9007199254740992 1) = 9007199254740992"
  "valof (round_float64 (- 9007199254740992) 1) = - 9007199254740992"
  by (simp_all add: round_float64_def binade_def round_even_def valof_def Let_def)

lemma round_float64_exact:
  assumes "\<bar>n\<bar> \<le> 2 ^ 53"
  shows "valof (round_float64 n 1) = real_of_int n"
proof (cases "\<bar>n\<bar> < 2 ^ 53")
  case True
  then show ?thesis by (rule round_float64_exact_small)
next
  case False
  with assms have "\<bar>n\<bar> = 9007199254740992" by simp
  then have "n = 9007199254740992 \<or> n = - 9007199254740992" by linarith
  then show ?thesis using round_float64_exact_2_53 by auto
qed

lemma float64_quo_round:
  assumes "mantissa b \<noteq> 0"
  obtains n d where "0 < d" and "float64_quo a b = round_float64 n d"
    and "real_of_int n / real_of_int d = valof a / valof b"
proof -
  define n0 where "n0 = (if mantissa b < 0 then - mantissa a else mantissa a)"
  define d0 where "d0 = \<bar>mantissa b\<bar>"
  define k where "k = exponent a - exponent b"
  from assms have d0: "0 < d0" by (simp add: d0_def)
  from assms have r0: "real_of_int n0 / real_of_int d0 = real_of_int (mantissa a) / real_of_int (mantissa b)"
    by (simp add: n0_def d0_def)
  have v: "valof a / valof b =
      real_of_int (mantissa a) / real_of_int (mantissa b) * 2 powi k"
    by (simp add: valof_powi k_def power_int_diff)
  show ?thesis
  proof (cases "0 \<le> k")
    case True
    then have p: "(2::real) powi k = 2 ^ nat k" by (simp add: power_int_def)
    from True have "float64_quo a b = round_float64 (n0 * 2 ^ nat k) d0"
      by (simp add: float64_quo_def Let_def flip: n0_def d0_def k_def)
    moreover have "real_of_int (n0 * 2 ^ nat k) / real_of_int d0 = valof a / valof b"
      unfolding v p r0 [symmetric] by simp
    ultimately show ?thesis using d0 that by blast
  next
    case False
    then have p: "(2::real) powi k = 1 / 2 ^ nat (- k)"
      by (simp add: power_int_def power_inverse field_simps)
    from False have "float64_quo a b = round_float64 n0 (d0 * 2 ^ nat (- k))"
      by (simp add: float64_quo_def Let_def flip: n0_def d0_def k_def)
    moreover have "real_of_int n0 / real_of_int (d0 * 2 ^ nat (- k)) = valof a / valof b"
      unfolding v p r0 [symmetric] by simp
    moreover from d0 have "0 < d0 * 2 ^ nat (- k)" by simp
    ultimately show ?thesis using that by blast
  qed
qed

lemma bitlen_one [simp]: "bitlen 1 = 1" "bitlen (Suc 0) = 1"
  by (subst bitlen.simps, simp)+

lemma float64_1e9_eq: "float64_1e9 = Float64 8388608000000000 (- 23)"
  by (simp add: float64_1e9_def round_float64_def binade_def round_even_def Let_def)

lemma valof_float64_1e9: "valof float64_1e9 = 1000000000"
  by (simp add: float64_1e9_eq valof_def)

lemma float64_of_int64_error:
  "\<bar>valof (float64_of_int64 x) - real_of_int (sint x)\<bar> \<le> \<bar>real_of_int (sint x)\<bar> / 2 ^ 53"
proof (cases "sint x = 0")
  case True
  then show ?thesis by (simp add: float64_of_int64_def round_float64_zero)
next
  case False
  then have "1 \<le> \<bar>sint x\<bar>" by simp
  then have "1 \<le> \<bar>real_of_int (sint x)\<bar>"
    by (metis of_int_1 of_int_abs of_int_le_iff)
  moreover have "(2::real) powi (- 1022) \<le> 2 powi 0"
    by (rule power_int_increasing) simp_all
  ultimately have "2 powi (- 1022) \<le> \<bar>real_of_int (sint x) / real_of_int 1\<bar>"
    by (simp del: power_int_minus power_int_numeral)
  from round_float64_rel_error [OF _ this] show ?thesis
    by (simp add: float64_of_int64_def)
qed

lemma float64_of_int64_exact [simp]:
  "\<bar>sint x\<bar> \<le> 2 ^ 53 \<Longrightarrow> valof (float64_of_int64 x) = real_of_int (sint x)"
  by (simp add: float64_of_int64_def round_float64_exact)

lemma valof_mantissa_zero: "mantissa f = 0 \<Longrightarrow> valof f = 0"
  by (simp add: valof_def)

lemma seconds_error:
  "\<bar>valof (float64_quo (float64_of_int64 x) float64_1e9) - real_of_int (sint x) / 1000000000\<bar>
     \<le> \<bar>real_of_int (sint x) / 1000000000\<bar> / 2 ^ 51"
proof (cases "sint x = 0")
  case True
  then have "float64_of_int64 x = Float64 0 0"
    by (simp add: float64_of_int64_def round_float64_def)
  then have "float64_quo (float64_of_int64 x) float64_1e9 = Float64 0 0"
    by (simp add: float64_quo_def float64_1e9_eq round_float64_def)
  with True show ?thesis by (simp add: valof_def)
next
  case False
  define r where "r = real_of_int (sint x)"
  define a where "a = valof (float64_of_int64 x)"
  define q where "q = valof (float64_quo (float64_of_int64 x) float64_1e9)"
  from False have "1 \<le> \<bar>sint x\<bar>" by simp
  then have r1: "1 \<le> \<bar>r\<bar>"
    unfolding r_def by (metis of_int_1 of_int_abs of_int_le_iff)
  have ar: "\<bar>a - r\<bar> \<le> \<bar>r\<bar> / 2 ^ 53"
    unfolding a_def r_def by (rule float64_of_int64_error)
  have "\<bar>r\<bar> / 2 ^ 53 \<le> \<bar>r\<bar> / 2" by (rule divide_left_mono) simp_all
  with ar have "\<bar>a - r\<bar> \<le> \<bar>r\<bar> / 2" by linarith
  with r1 have a_lo: "1 / 2 \<le> \<bar>a\<bar>" by linarith
  from ar have a_hi: "\<bar>a\<bar> \<le> \<bar>r\<bar> + \<bar>r\<bar> / 2 ^ 53" by linarith
  have m9: "mantissa float64_1e9 \<noteq> 0" by (simp add: float64_1e9_eq)
  obtain n d where d: "0 < d"
    and f: "float64_quo (float64_of_int64 x) float64_1e9 = round_float64 n d"
    and nd0: "real_of_int n / real_of_int d = valof (float64_of_int64 x) / valof float64_1e9"
    by (rule float64_quo_round [OF m9])
  from nd0 have nd: "real_of_int n / real_of_int d = a / 1000000000"
    by (simp only: a_def valof_float64_1e9)
  have "(2::real) powi (- 1022) \<le> 2 powi (- 31)"
    by (rule power_int_increasing) simp_all
  also have "(2::real) powi (- 31) \<le> 1 / 2 / 1000000000"
    by (simp add: power_int_def power_divide)
  also from a_lo have "\<dots> \<le> \<bar>a\<bar> / 1000000000" by (simp add: divide_right_mono)
  finally have "2 powi (- 1022) \<le> \<bar>real_of_int n / real_of_int d\<bar>"
    by (simp add: nd del: power_int_minus power_int_numeral)
  from round_float64_rel_error [OF d this]
  have qa: "\<bar>q - a / 1000000000\<bar> \<le> \<bar>a\<bar> / 1000000000 / 2 ^ 53"
    by (simp add: q_def f nd)
  have "\<bar>q - r / 1000000000\<bar> \<le> \<bar>q - a / 1000000000\<bar> + \<bar>a - r\<bar> / 1000000000"
  proof -
    have "q - r / 1000000000 = (q - a / 1000000000) + (a - r) / 1000000000"
      by (simp add: field_simps)
    then have "\<bar>q - r / 1000000000\<bar> \<le> \<bar>q - a / 1000000000\<bar> + \<bar>(a - r) / 1000000000\<bar>"
      by (simp only: abs_triangle_ineq)
    then show ?thesis by simp
  qed
  also have "\<dots> \<le> \<bar>a\<bar> / 1000000000 / 2 ^ 53 + \<bar>r\<bar> / 2 ^ 53 / 1000000000"
    using qa ar by (intro add_mono divide_right_mono) simp_all
  also have "\<dots> \<le> (\<bar>r\<bar> + \<bar>r\<bar> / 2 ^ 53) / 1000000000 / 2 ^ 53 + \<bar>r\<bar> / 2 ^ 53 / 1000000000"
    using a_hi by (intro add_mono divide_right_mono) simp_all
  also have "\<dots> \<le> \<bar>r\<bar> / 1000000000 / 2 ^ 51"
    using r1 by (simp add: field_simps)
  finally show ?thesis by (simp add: q_def r_def)
qed

section \<open>Descriptors and sends\<close>

text \<open>
  The nine descriptors are pairwise different, so a sample is identified by its
  descriptor. The body of the loop over the disks cannot panic, since every send gives
  three label values to a descriptor with three labels; what it sends is
  \<open>block_samples\<close>.
\<close>

lemma distinct_Describe: "distinct (Describe e)"
  by (simp add: Describe_def libvirtUpDesc_def libvirtBlockRdBytesDesc_def libvirtBlockRdReqDesc_def
      libvirtBlockRdTotalTimesDesc_def libvirtBlockWrBytesDesc_def libvirtBlockWrReqDesc_def
      libvirtBlockWrTotalTimesDesc_def libvirtBlockFlushReqDesc_def libvirtBlockFlushTotalTimesDesc_def
      NewDesc_def BuildFQName_def)

lemma desc_distinct_fwd:
  "libvirtUpDesc \<noteq> libvirtBlockRdBytesDesc"
  "libvirtUpDesc \<noteq> libvirtBlockRdReqDesc"
  "libvirtUpDesc \<noteq> libvirtBlockRdTotalTimesDesc"
  "libvirtUpDesc \<noteq> libvirtBlockWrBytesDesc"
  "libvirtUpDesc \<noteq> libvirtBlockWrReqDesc"
  "libvirtUpDesc \<noteq> libvirtBlockWrTotalTimesDesc"
  "libvirtUpDesc \<noteq> libvirtBlockFlushReqDesc"
  "libvirtUpDesc \<noteq> libvirtBlockFlushTotalTimesDesc"
  "libvirtBlockRdBytesDesc \<noteq> libvirtBlockRdReqDesc"
  "libvirtBlockRdBytesDesc \<noteq> libvirtBlockRdTotalTimesDesc"
  "libvirtBlockRdBytesDesc \<noteq> libvirtBlockWrBytesDesc"
  "libvirtBlockRdBytesDesc \<noteq> libvirtBlockWrReqDesc"
  "libvirtBlockRdBytesDesc \<noteq> libvirtBlockWrTotalTimesDesc"
  "libvirtBlockRdBytesDesc \<noteq> libvirtBlockFlushReqDesc"
  "libvirtBlockRdBytesDesc \<noteq> libvirtBlockFlushTotalTimesDesc"
  "libvirtBlockRdReqDesc \<noteq> libvirtBlockRdTotalTimesDesc"
  "libvirtBlockRdReqDesc \<noteq> libvirtBlockWrBytesDesc"
  "libvirtBlockRdReqDesc \<noteq> libvirtBlockWrReqDesc"
  "libvirtBlockRdReqDesc \<noteq> libvirtBlockWrTotalTimesDesc"
  "libvirtBlockRdReqDesc \<noteq> libvirtBlockFlushReqDesc"
  "libvirtBlockRdReqDesc \<noteq> libvirtBlockFlushTotalTimesDesc"
  "libvirtBlockRdTotalTimesDesc \<noteq> libvirtBlockWrBytesDesc"
  "libvirtBlockRdTotalTimesDesc \<noteq> libvirtBlockWrReqDesc"
  "libvirtBlockRdTotalTimesDesc \<noteq> libvirtBlockWrTotalTimesDesc"
  "libvirtBlockRdTotalTimesDesc \<noteq> libvirtBlockFlushReqDesc"
  "libvirtBlockRdTotalTimesDesc \<noteq> libvirtBlockFlushTotalTimesDesc"
  "libvirtBlockWrBytesDesc \<noteq> libvirtBlockWrReqDesc"
  "libvirtBlockWrBytesDesc \<noteq> libvirtBlockWrTotalTimesDesc"
  "libvirtBlockWrBytesDesc \<noteq> libvirtBlockFlushReqDesc"
  "libvirtBlockWrBytesDesc \<noteq> libvirtBlockFlushTotalTimesDesc"
  "libvirtBlockWrReqDesc \<noteq> libvirtBlockWrTotalTimesDesc"
  "libvirtBlockWrReqDesc \<noteq> libvirtBlockFlushReqDesc"
  "libvirtBlockWrReqDesc \<noteq> libvirtBlockFlushTotalTimesDesc"
  "libvirtBlockWrTotalTimesDesc \<noteq> libvirtBlockFlushReqDesc"
  "libvirtBlockWrTotalTimesDesc \<noteq> libvirtBlockFlushTotalTimesDesc"
  "libvirtBlockFlushReqDesc \<noteq> libvirtBlockFlushTotalTimesDesc"
  using distinct_Describe [of undefined] by (simp_all add: Describe_def)

lemmas desc_distinct = desc_distinct_fwd desc_distinct_fwd [symmetric]

lemma block_desc_labels:
  "variableLabels libvirtBlockRdBytesDesc = [''domain'', ''source_file'', ''target_device'']"
  "variableLabels libvirtBlockRdReqDesc = [''domain'', ''source_file'', ''target_device'']"
  "variableLabels libvirtBlockRdTotalTimesDesc = [''domain'', ''source_file'', ''target_device'']"
  "variableLabels libvirtBlockWrBytesDesc = [''domain'', ''source_file'', ''target_device'']"
  "variableLabels libvirtBlockWrReqDesc = [''domain'', ''source_file'', ''target_device'']"
  "variableLabels libvirtBlockWrTotalTimesDesc = [''domain'', ''source_file'', ''target_device'']"
  "variableLabels libvirtBlockFlushReqDesc = [''domain'', ''source_file'', ''target_device'']"
  "variableLabels libvirtBlockFlushTotalTimesDesc = [''domain'', ''source_file'', ''target_device'']"
  by (simp_all add: libvirtBlockRdBytesDesc_def libvirtBlockRdReqDesc_def
      libvirtBlockRdTotalTimesDesc_def libvirtBlockWrBytesDesc_def libvirtBlockWrReqDesc_def
      libvirtBlockWrTotalTimesDesc_def libvirtBlockFlushReqDesc_def libvirtBlockFlushTotalTimesDesc_def
      NewDesc_def)

lemma up_desc_labels: "variableLabels libvirtUpDesc = []"
  by (simp add: libvirtUpDesc_def NewDesc_def)

lemma guarded_send:
  "length ls = length (variableLabels d) \<Longrightarrow>
   stmt_if b (chan_send (MustNewConstMetric d CounterValue v ls)) t =
     (Return (), t @ map EvSend (sample b d v ls))"
  by (simp add: stmt_if_def chan_send_def MustNewConstMetric_def NewConstMetric_def sample_def)

lemma report_block_stats_eq:
  "report_block_stats n disk st t = (Return (), t @ map EvSend (block_samples n disk st))"
  unfolding report_block_stats_def block_samples_def
  by (simp add: guarded_send block_desc_labels stmt_seq_def)

lemma send_up:
  "chan_send (MustNewConstMetric libvirtUpDesc GaugeValue v []) t = (Return (), t @ [EvSend (up_metric v)])"
  by (simp add: chan_send_def MustNewConstMetric_def NewConstMetric_def up_desc_labels up_metric_def)

lemma sent_append: "sent (xs @ ys) = sent xs @ sent ys"
  by (induction xs rule: sent.induct) simp_all

section \<open>The loop over the disks\<close>

text \<open>
  A run of the loop only extends the trace and never panics. The events it adds are,
  for each disk in turn, the query of the block statistics followed by the samples
  of its answer, so the sends that follow an answered query, up to the next query,
  are the samples of that answer.
\<close>

lemma filter_sample:
  "filter (\<lambda>m. metricDesc m = D) (sample b D' v ls) = (if D' = D then sample b D' v ls else [])"
  by (simp add: sample_def)

lemma block_samples_filter:
  "filter (\<lambda>m. metricDesc m = libvirtBlockRdBytesDesc) (block_samples n disk st) =
     sample (RdBytesSet st) libvirtBlockRdBytesDesc (valof (float64_of_int64 (RdBytes st)))
       [n, File (Source disk), Device (Target disk)]"
  "filter (\<lambda>m. metricDesc m = libvirtBlockRdReqDesc) (block_samples n disk st) =
     sample (RdReqSet st) libvirtBlockRdReqDesc (valof (float64_of_int64 (RdReq st)))
       [n, File (Source disk), Device (Target disk)]"
  "filter (\<lambda>m. metricDesc m = libvirtBlockRdTotalTimesDesc) (block_samples n disk st) =
     sample (RdTotalTimesSet st) libvirtBlockRdTotalTimesDesc
       (valof (float64_quo (float64_of_int64 (RdTotalTimes st)) float64_1e9))
       [n, File (Source disk), Device (Target disk)]"
  "filter (\<lambda>m. metricDesc m = libvirtBlockWrBytesDesc) (block_samples n disk st) =
     sample (WrBytesSet st) libvirtBlockWrBytesDesc (valof (float64_of_int64 (WrBytes st)))
       [n, File (Source disk), Device (Target disk)]"
  "filter (\<lambda>m. metricDesc m = libvirtBlockWrReqDesc) (block_samples n disk st) =
     sample (WrReqSet st) libvirtBlockWrReqDesc (valof (float64_of_int64 (WrReq st)))
       [n, File (Source disk), Device (Target disk)]"
  "filter (\<lambda>m. metricDesc m = libvirtBlockWrTotalTimesDesc) (block_samples n disk st) =
     sample (WrTotalTimesSet st) libvirtBlockWrTotalTimesDesc
       (valof (float64_quo (float64_of_int64 (WrTotalTimes st)) float64_1e9))
       [n, File (Source disk), Device (Target disk)]"
  "filter (\<lambda>m. metricDesc m = libvirtBlockFlushReqDesc) (block_samples n disk st) =
     sample (FlushReqSet st) libvirtBlockFlushReqDesc (valof (float64_of_int64 (FlushReq st)))
       [n, File (Source disk), Device (Target disk)]"
  "filter (\<lambda>m. metricDesc m = libvirtBlockFlushTotalTimesDesc) (block_samples n disk st) =
     sample (FlushTotalTimesSet st) libvirtBlockFlushTotalTimesDesc
       (valof (float64_quo (float64_of_int64 (FlushTotalTimes st)) float64_1e9))
       [n, File (Source disk), Device (Target disk)]"
  by (simp_all add: block_samples_def filter_sample desc_distinct)

lemma collect_disks_append:
  "collect_disks lv d n ds t = (r, t') \<Longrightarrow> \<exists>u. t' = t @ u"
proof (induction ds arbitrary: t)
  case Nil
  then show ?case by simp
next
  case (Cons disk ds)
  show ?case
  proof (cases "BlockStats lv t d (Device (Target disk))")
    case (Inl err)
    with Cons.prems show ?thesis by auto
  next
    case (Inr st)
    with Cons.prems have "collect_disks lv d n ds
        (t @ [EvBlockStats d (Device (Target disk)) (Inr st)] @ map EvSend (block_samples n disk st)) = (r, t')"
      by (simp add: report_block_stats_eq)
    from Cons.IH [OF this] show ?thesis by auto
  qed
qed

lemma collect_disks_Return:
  "collect_disks lv d n ds t = (r, t') \<Longrightarrow> \<exists>e. r = Return e"
proof (induction ds arbitrary: t)
  case Nil
  then show ?case by auto
next
  case (Cons disk ds)
  then show ?case
    by (cases "BlockStats lv t d (Device (Target disk))") (auto simp: report_block_stats_eq)
qed

lemma collect_disks_head:
  "collect_disks lv d n ds t = (r, t @ u) \<Longrightarrow> takeWhile is_send u = []"
proof (cases ds)
  case Nil
  assume "collect_disks lv d n ds t = (r, t @ u)"
  with Nil show ?thesis by simp
next
  case (Cons disk ds')
  assume run: "collect_disks lv d n ds t = (r, t @ u)"
  show ?thesis
  proof (cases "BlockStats lv t d (Device (Target disk))")
    case (Inl err)
    with run Cons show ?thesis by auto
  next
    case (Inr st)
    with run Cons have "collect_disks lv d n ds'
        (t @ EvBlockStats d (Device (Target disk)) (Inr st) # map EvSend (block_samples n disk st)) = (r, t @ u)"
      by (simp add: report_block_stats_eq)
    from collect_disks_append [OF this] show ?thesis by auto
  qed
qed

lemma append_eq_sends:
  "xs @ x # ys = map EvSend ms @ zs \<Longrightarrow> \<not> is_send x \<Longrightarrow>
   \<exists>a. xs = map EvSend ms @ a \<and> zs = a @ x # ys"
proof (induction ms arbitrary: xs)
  case Nil
  then show ?case by simp
next
  case (Cons m ms)
  then show ?case by (cases xs) auto
qed

lemma takeWhile_sends: "takeWhile is_send (map EvSend ms @ u) = map EvSend ms @ takeWhile is_send u"
  by (induction ms) simp_all

lemma collect_disks_stats_sends:
  "collect_disks lv d n ds t = (r, t') \<Longrightarrow> t' = t @ a @ EvBlockStats d' dev (Inr st) # v \<Longrightarrow>
   \<exists>disk\<in>set ds. d' = d \<and> dev = Device (Target disk) \<and>
     takeWhile is_send v = map EvSend (block_samples n disk st)"
proof (induction ds arbitrary: t a)
  case Nil
  then show ?case by simp
next
  case (Cons disk ds)
  show ?case
  proof (cases "BlockStats lv t d (Device (Target disk))")
    case (Inl err)
    with Cons.prems(1) have "t' = t @ [EvBlockStats d (Device (Target disk)) (Inl err)]"
      by simp
    with Cons.prems(2) have "a @ EvBlockStats d' dev (Inr st) # v = [EvBlockStats d (Device (Target disk)) (Inl err)]"
      by simp
    then have False by (cases a) simp_all
    then show ?thesis ..
  next
    case (Inr st0)
    let ?t1 = "t @ EvBlockStats d (Device (Target disk)) (Inr st0) # map EvSend (block_samples n disk st0)"
    from Inr Cons.prems(1) have run: "collect_disks lv d n ds ?t1 = (r, t')"
      by (simp add: report_block_stats_eq)
    then obtain u where u: "t' = ?t1 @ u"
      using collect_disks_append by blast
    with Cons.prems(2) have eq: "a @ EvBlockStats d' dev (Inr st) # v =
        EvBlockStats d (Device (Target disk)) (Inr st0) # map EvSend (block_samples n disk st0) @ u"
      by simp
    show ?thesis
    proof (cases a)
      case Nil
      with eq have same: "d' = d" "dev = Device (Target disk)" "st = st0"
        and v: "v = map EvSend (block_samples n disk st0) @ u"
        by simp_all
      from run u have "takeWhile is_send u = []"
        using collect_disks_head by blast
      with v same have "d' = d \<and> dev = Device (Target disk) \<and>
          takeWhile is_send v = map EvSend (block_samples n disk st)"
        by (simp add: takeWhile_sends)
      then show ?thesis by simp
    next
      case (Cons y a')
      with eq have "a' @ EvBlockStats d' dev (Inr st) # v = map EvSend (block_samples n disk st0) @ u"
        by simp
      from append_eq_sends [OF this] obtain a'' where "u = a'' @ EvBlockStats d' dev (Inr st) # v"
        by auto
      with u have "t' = ?t1 @ a'' @ EvBlockStats d' dev (Inr st) # v" by simp
      from Cons.IH [OF run this] show ?thesis by auto
    qed
  qed
qed

section \<open>The structure of a run of CollectDomain\<close>

text \<open>
  The four ways a run of \<open>CollectDomain\<close> can go, as a case rule, and the lemma on
  queries and sends lifted from the loop to the function.
\<close>

lemma CollectDomain_cases:
  obtains (name_err) err where "GetName lv t d = Inl err"
      "CollectDomain lv d t = (Return (Some err), t @ [EvGetName d (Inl err)])"
  | (xml_err) n err where "GetName lv t d = Inr n"
      "GetXMLDesc lv (t @ [EvGetName d (Inr n)]) d 0 = Inl err"
      "CollectDomain lv d t =
         (Return (Some err), t @ [EvGetName d (Inr n), EvGetXMLDesc d 0 (Inl err)])"
  | (parse_err) n xml err where "GetName lv t d = Inr n"
      "GetXMLDesc lv (t @ [EvGetName d (Inr n)]) d 0 = Inr xml" "Unmarshal lv xml = Inl err"
      "CollectDomain lv d t =
         (Return (Some err), t @ [EvGetName d (Inr n), EvGetXMLDesc d 0 (Inr xml)])"
  | (disks) n xml desc where "GetName lv t d = Inr n"
      "GetXMLDesc lv (t @ [EvGetName d (Inr n)]) d 0 = Inr xml" "Unmarshal lv xml = Inr desc"
      "CollectDomain lv d t =
         collect_disks lv d n (Disks (Devices desc))
           (t @ [EvGetName d (Inr n), EvGetXMLDesc d 0 (Inr xml)])"
proof (cases "GetName lv t d")
  case (Inl err)
  then show ?thesis using name_err by (simp add: CollectDomain_def)
next
  case n: (Inr n)
  show ?thesis
  proof (cases "GetXMLDesc lv (t @ [EvGetName d (Inr n)]) d 0")
    case (Inl err)
    with n show ?thesis using xml_err by (simp add: CollectDomain_def)
  next
    case xml: (Inr xml)
    show ?thesis
    proof (cases "Unmarshal lv xml")
      case (Inl err)
      with n xml show ?thesis using parse_err by (simp add: CollectDomain_def)
    next
      case (Inr desc)
      with n xml show ?thesis using disks by (simp add: CollectDomain_def)
    qed
  qed
qed

lemma CollectDomain_stats_sends:
  assumes "CollectDomain lv d t = (r, t')" and "t' = t @ a @ EvBlockStats d' dev (Inr st) # v"
  shows "\<exists>n xml desc disk. GetName lv t d = Inr n \<and>
     GetXMLDesc lv (t @ [EvGetName d (Inr n)]) d 0 = Inr xml \<and> Unmarshal lv xml = Inr desc \<and>
     disk \<in> set (Disks (Devices desc)) \<and> d' = d \<and> dev = Device (Target disk) \<and>
     takeWhile is_send v = map EvSend (block_samples n disk st)"
proof (cases rule: CollectDomain_cases [of lv t d])
  case (name_err err)
  with assms have "a @ EvBlockStats d' dev (Inr st) # v = [EvGetName d (Inl err)]" by simp
  then have False by (cases a) simp_all
  then show ?thesis ..
next
  case (xml_err n err)
  with assms have "a @ EvBlockStats d' dev (Inr st) # v = [EvGetName d (Inr n), EvGetXMLDesc d 0 (Inl err)]"
    by simp
  then have False by (cases a; cases "tl a") auto
  then show ?thesis ..
next
  case (parse_err n xml err)
  with assms have "a @ EvBlockStats d' dev (Inr st) # v = [EvGetName d (Inr n), EvGetXMLDesc d 0 (Inr xml)]"
    by simp
  then have False by (cases a; cases "tl a") auto
  then show ?thesis ..
next
  case (disks n xml desc)
  let ?t2 = "t @ [EvGetName d (Inr n), EvGetXMLDesc d 0 (Inr xml)]"
  from disks assms(1) have run: "collect_disks lv d n (Disks (Devices desc)) ?t2 = (r, t')"
    by simp
  then obtain u where u: "t' = ?t2 @ u"
    using collect_disks_append by blast
  with assms(2) have "a @ EvBlockStats d' dev (Inr st) # v =
      EvGetName d (Inr n) # EvGetXMLDesc d 0 (Inr xml) # u"
    by simp
  then obtain a'' where "u = a'' @ EvBlockStats d' dev (Inr st) # v"
    by (cases a; cases "tl a") auto
  with u have "t' = ?t2 @ a'' @ EvBlockStats d' dev (Inr st) # v" by simp
  from collect_disks_stats_sends [OF run this] disks show ?thesis by auto
qed

section \<open>Samples and flags\<close>

lemma length_sample: "length (sample b d x ls) = (if b then 1 else 0)"
  by (simp add: sample_def)

lemma map_val_sample: "map val (sample b d x ls) = (if b then [x] else [])"
  by (simp add: sample_def)

text \<open>
  C2. Take any answer \<open>blockStats\<close> that \<^verbatim>\<open>BlockStats\<close> gave during a run of
  \<open>CollectDomain\<close>. The metrics sent right after it, up to the next event that is not
  a send, contain for each of the eight counters exactly one sample of the counter's
  descriptor when the counter's flag is set, and none when it is not: a counter that
  is not reported is never sent, with value zero or any other.
\<close>

theorem CollectDomain_sample_iff_flag:
  assumes "CollectDomain lv domain t = (r, t @ u @ EvBlockStats domain dev (Inr blockStats) # v)"
  shows "\<exists>ms. takeWhile is_send v = map EvSend ms \<and>
    length (filter (\<lambda>m. metricDesc m = libvirtBlockRdBytesDesc) ms) =
      (if RdBytesSet blockStats then 1 else 0) \<and>
    length (filter (\<lambda>m. metricDesc m = libvirtBlockRdReqDesc) ms) =
      (if RdReqSet blockStats then 1 else 0) \<and>
    length (filter (\<lambda>m. metricDesc m = libvirtBlockRdTotalTimesDesc) ms) =
      (if RdTotalTimesSet blockStats then 1 else 0) \<and>
    length (filter (\<lambda>m. metricDesc m = libvirtBlockWrBytesDesc) ms) =
      (if WrBytesSet blockStats then 1 else 0) \<and>
    length (filter (\<lambda>m. metricDesc m = libvirtBlockWrReqDesc) ms) =
      (if WrReqSet blockStats then 1 else 0) \<and>
    length (filter (\<lambda>m. metricDesc m = libvirtBlockWrTotalTimesDesc) ms) =
      (if WrTotalTimesSet blockStats then 1 else 0) \<and>
    length (filter (\<lambda>m. metricDesc m = libvirtBlockFlushReqDesc) ms) =
      (if FlushReqSet blockStats then 1 else 0) \<and>
    length (filter (\<lambda>m. metricDesc m = libvirtBlockFlushTotalTimesDesc) ms) =
      (if FlushTotalTimesSet blockStats then 1 else 0)"
proof -
  from CollectDomain_stats_sends [OF assms refl] obtain n disk
    where "takeWhile is_send v = map EvSend (block_samples n disk blockStats)"
    by blast
  then show ?thesis
    by (intro exI [of _ "block_samples n disk blockStats"])
      (simp only: block_samples_filter length_sample simp_thms)
qed

lemma CollectDomain_lv_vm1:
  "CollectDomain lv_vm1 (Domain 1) [] =
     (Return None,
      [] @ [EvGetName (Domain 1) (Inr ''vm1''), EvGetXMLDesc (Domain 1) 0 (Inr ''<domain/>'')] @
      EvBlockStats (Domain 1) ''vda'' (Inr (no_stats\<lparr>RdBytesSet := True, RdBytes := 1024\<rparr>)) #
      [EvSend \<lparr>metricDesc = libvirtBlockRdBytesDesc, valType = CounterValue, val = 1024,
               labelValues = [''vm1'', ''/a.img'', ''vda'']\<rparr>])"
  by (simp add: CollectDomain_def lv_vm1_def disk_of_def report_block_stats_eq block_samples_def
      sample_def no_stats_def)

theorem CollectDomain_sample_iff_flag_witness:
  "CollectDomain lv_vm1 (Domain 1) [] =
     (Return None,
      [] @ [EvGetName (Domain 1) (Inr ''vm1''), EvGetXMLDesc (Domain 1) 0 (Inr ''<domain/>'')] @
      EvBlockStats (Domain 1) ''vda'' (Inr (no_stats\<lparr>RdBytesSet := True, RdBytes := 1024\<rparr>)) #
      [EvSend \<lparr>metricDesc = libvirtBlockRdBytesDesc, valType = CounterValue, val = 1024,
               labelValues = [''vm1'', ''/a.img'', ''vda'']\<rparr>]) \<and>
   (\<exists>ms. [EvSend \<lparr>metricDesc = libvirtBlockRdBytesDesc, valType = CounterValue, val = 1024,
               labelValues = [''vm1'', ''/a.img'', ''vda'']\<rparr>] = map EvSend ms \<and>
      length (filter (\<lambda>m. metricDesc m = libvirtBlockRdBytesDesc) ms) = 1 \<and>
      length (filter (\<lambda>m. metricDesc m = libvirtBlockRdReqDesc) ms) = 0 \<and>
      length (filter (\<lambda>m. metricDesc m = libvirtBlockRdTotalTimesDesc) ms) = 0 \<and>
      length (filter (\<lambda>m. metricDesc m = libvirtBlockWrBytesDesc) ms) = 0 \<and>
      length (filter (\<lambda>m. metricDesc m = libvirtBlockWrReqDesc) ms) = 0 \<and>
      length (filter (\<lambda>m. metricDesc m = libvirtBlockWrTotalTimesDesc) ms) = 0 \<and>
      length (filter (\<lambda>m. metricDesc m = libvirtBlockFlushReqDesc) ms) = 0 \<and>
      length (filter (\<lambda>m. metricDesc m = libvirtBlockFlushTotalTimesDesc) ms) = 0)"
  using CollectDomain_sample_iff_flag [OF CollectDomain_lv_vm1] CollectDomain_lv_vm1
  by (simp add: no_stats_def)

text \<open>
  C3. The claim is that a time counter is sent as its nanoseconds divided by \<open>10 ^ 9\<close>
  and a byte or request counter as the raw number, unmodified. The program converts
  the counter to \<^verbatim>\<open>float64\<close> first and divides in \<^verbatim>\<open>float64\<close>. With \<open>2 ^ 53 + 1\<close> bytes
  read in one nanosecond, the byte counter is sent as \<open>2 ^ 53\<close>, not as the raw number,
  and the time as a \<^verbatim>\<open>float64\<close> that is not \<open>1 / 10 ^ 9\<close>.
\<close>

theorem CollectDomain_rounds_sample_values:
  "CollectDomain lv_big (Domain 1) [] =
     (Return None,
      [] @ [EvGetName (Domain 1) (Inr ''vm1''), EvGetXMLDesc (Domain 1) 0 (Inr ''<domain/>'')] @
      EvBlockStats (Domain 1) ''vda'' (Inr big_stats) #
      [EvSend \<lparr>metricDesc = libvirtBlockRdBytesDesc, valType = CounterValue,
               val = 9007199254740992, labelValues = [''vm1'', ''/a.img'', ''vda'']\<rparr>,
       EvSend \<lparr>metricDesc = libvirtBlockRdTotalTimesDesc, valType = CounterValue,
               val = 4835703278458517 / 2 ^ 82, labelValues = [''vm1'', ''/a.img'', ''vda'']\<rparr>]) \<and>
   RdBytesSet big_stats \<and> sint (RdBytes big_stats) = 9007199254740993 \<and>
   RdTotalTimesSet big_stats \<and> sint (RdTotalTimes big_stats) = 1 \<and>
   (9007199254740992 :: real) \<noteq> real_of_int (sint (RdBytes big_stats)) \<and>
   (4835703278458517 / 2 ^ 82 :: real) \<noteq> real_of_int (sint (RdTotalTimes big_stats)) / 1000000000"
  by (simp add: CollectDomain_def lv_big_def lv_vm1_def disk_of_def report_block_stats_eq
      block_samples_def sample_def big_stats_def no_stats_def
      float64_of_int64_def float64_1e9_eq float64_quo_def round_float64_def binade_def
      round_even_def Let_def valof_def)

text \<open>
  C3, as the program has it. For the same sends, the values: a time counter whose flag
  is set is sent as the \<^verbatim>\<open>float64\<close> quotient of the counter, converted to \<^verbatim>\<open>float64\<close>, by
  \<open>10 ^ 9\<close>; a byte or request counter whose flag is set is sent as the counter converted
  to \<^verbatim>\<open>float64\<close>. The seconds sent are within a relative error of \<open>2 powi - 51\<close> of the
  nanoseconds divided by \<open>10 ^ 9\<close>. A byte or request counter of at most \<open>2 ^ 53\<close> in
  absolute value is sent unmodified, and any other within a relative error of
  \<open>2 powi - 53\<close>.
\<close>

theorem CollectDomain_sample_float64:
  assumes "CollectDomain lv domain t = (r, t @ u @ EvBlockStats domain dev (Inr blockStats) # v)"
  shows "(\<exists>ms. takeWhile is_send v = map EvSend ms \<and>
    map val (filter (\<lambda>m. metricDesc m = libvirtBlockRdTotalTimesDesc) ms) =
      (if RdTotalTimesSet blockStats
       then [valof (float64_quo (float64_of_int64 (RdTotalTimes blockStats)) float64_1e9)] else []) \<and>
    map val (filter (\<lambda>m. metricDesc m = libvirtBlockWrTotalTimesDesc) ms) =
      (if WrTotalTimesSet blockStats
       then [valof (float64_quo (float64_of_int64 (WrTotalTimes blockStats)) float64_1e9)] else []) \<and>
    map val (filter (\<lambda>m. metricDesc m = libvirtBlockFlushTotalTimesDesc) ms) =
      (if FlushTotalTimesSet blockStats
       then [valof (float64_quo (float64_of_int64 (FlushTotalTimes blockStats)) float64_1e9)] else []) \<and>
    map val (filter (\<lambda>m. metricDesc m = libvirtBlockRdBytesDesc) ms) =
      (if RdBytesSet blockStats then [valof (float64_of_int64 (RdBytes blockStats))] else []) \<and>
    map val (filter (\<lambda>m. metricDesc m = libvirtBlockRdReqDesc) ms) =
      (if RdReqSet blockStats then [valof (float64_of_int64 (RdReq blockStats))] else []) \<and>
    map val (filter (\<lambda>m. metricDesc m = libvirtBlockWrBytesDesc) ms) =
      (if WrBytesSet blockStats then [valof (float64_of_int64 (WrBytes blockStats))] else []) \<and>
    map val (filter (\<lambda>m. metricDesc m = libvirtBlockWrReqDesc) ms) =
      (if WrReqSet blockStats then [valof (float64_of_int64 (WrReq blockStats))] else []) \<and>
    map val (filter (\<lambda>m. metricDesc m = libvirtBlockFlushReqDesc) ms) =
      (if FlushReqSet blockStats then [valof (float64_of_int64 (FlushReq blockStats))] else [])) \<and>
   (\<forall>x. \<bar>valof (float64_quo (float64_of_int64 x) float64_1e9) - real_of_int (sint x) / 1000000000\<bar>
          \<le> \<bar>real_of_int (sint x) / 1000000000\<bar> / 2 ^ 51) \<and>
   (\<forall>x. \<bar>sint x\<bar> \<le> 2 ^ 53 \<longrightarrow> valof (float64_of_int64 x) = real_of_int (sint x)) \<and>
   (\<forall>x. \<bar>valof (float64_of_int64 x) - real_of_int (sint x)\<bar> \<le> \<bar>real_of_int (sint x)\<bar> / 2 ^ 53)"
proof -
  from CollectDomain_stats_sends [OF assms refl] obtain n disk
    where "takeWhile is_send v = map EvSend (block_samples n disk blockStats)"
    by blast
  then have "\<exists>ms. takeWhile is_send v = map EvSend ms \<and>
    map val (filter (\<lambda>m. metricDesc m = libvirtBlockRdTotalTimesDesc) ms) =
      (if RdTotalTimesSet blockStats
       then [valof (float64_quo (float64_of_int64 (RdTotalTimes blockStats)) float64_1e9)] else []) \<and>
    map val (filter (\<lambda>m. metricDesc m = libvirtBlockWrTotalTimesDesc) ms) =
      (if WrTotalTimesSet blockStats
       then [valof (float64_quo (float64_of_int64 (WrTotalTimes blockStats)) float64_1e9)] else []) \<and>
    map val (filter (\<lambda>m. metricDesc m = libvirtBlockFlushTotalTimesDesc) ms) =
      (if FlushTotalTimesSet blockStats
       then [valof (float64_quo (float64_of_int64 (FlushTotalTimes blockStats)) float64_1e9)] else []) \<and>
    map val (filter (\<lambda>m. metricDesc m = libvirtBlockRdBytesDesc) ms) =
      (if RdBytesSet blockStats then [valof (float64_of_int64 (RdBytes blockStats))] else []) \<and>
    map val (filter (\<lambda>m. metricDesc m = libvirtBlockRdReqDesc) ms) =
      (if RdReqSet blockStats then [valof (float64_of_int64 (RdReq blockStats))] else []) \<and>
    map val (filter (\<lambda>m. metricDesc m = libvirtBlockWrBytesDesc) ms) =
      (if WrBytesSet blockStats then [valof (float64_of_int64 (WrBytes blockStats))] else []) \<and>
    map val (filter (\<lambda>m. metricDesc m = libvirtBlockWrReqDesc) ms) =
      (if WrReqSet blockStats then [valof (float64_of_int64 (WrReq blockStats))] else []) \<and>
    map val (filter (\<lambda>m. metricDesc m = libvirtBlockFlushReqDesc) ms) =
      (if FlushReqSet blockStats then [valof (float64_of_int64 (FlushReq blockStats))] else [])"
    by (intro exI [of _ "block_samples n disk blockStats"])
      (simp only: block_samples_filter map_val_sample simp_thms)
  moreover have "\<forall>x. \<bar>valof (float64_quo (float64_of_int64 x) float64_1e9) - real_of_int (sint x) / 1000000000\<bar>
          \<le> \<bar>real_of_int (sint x) / 1000000000\<bar> / 2 ^ 51"
    by (intro allI seconds_error)
  moreover have "\<forall>x :: 64 word. \<bar>sint x\<bar> \<le> 2 ^ 53 \<longrightarrow> valof (float64_of_int64 x) = real_of_int (sint x)"
    by (intro allI impI float64_of_int64_exact)
  moreover have "\<forall>x. \<bar>valof (float64_of_int64 x) - real_of_int (sint x)\<bar> \<le> \<bar>real_of_int (sint x)\<bar> / 2 ^ 53"
    by (intro allI float64_of_int64_error)
  ultimately show ?thesis by (intro conjI)
qed

lemma CollectDomain_lv_times:
  "CollectDomain lv_times (Domain 1) [] =
     (Return None,
      [] @ [EvGetName (Domain 1) (Inr ''vm1''), EvGetXMLDesc (Domain 1) 0 (Inr ''<domain/>'')] @
      EvBlockStats (Domain 1) ''vda'' (Inr (no_stats
        \<lparr>RdTotalTimesSet := True, RdTotalTimes := 2500000000, WrReqSet := True, WrReq := 7\<rparr>)) #
      [EvSend \<lparr>metricDesc = libvirtBlockRdTotalTimesDesc, valType = CounterValue, val = 2.5,
               labelValues = [''vm1'', ''/a.img'', ''vda'']\<rparr>,
       EvSend \<lparr>metricDesc = libvirtBlockWrReqDesc, valType = CounterValue, val = 7,
               labelValues = [''vm1'', ''/a.img'', ''vda'']\<rparr>])"
  by (simp add: CollectDomain_def lv_times_def lv_vm1_def disk_of_def report_block_stats_eq
      block_samples_def sample_def no_stats_def
      float64_of_int64_def float64_1e9_eq float64_quo_def round_float64_def binade_def
      round_even_def Let_def valof_def)

theorem CollectDomain_sample_float64_witness:
  "CollectDomain lv_times (Domain 1) [] =
     (Return None,
      [] @ [EvGetName (Domain 1) (Inr ''vm1''), EvGetXMLDesc (Domain 1) 0 (Inr ''<domain/>'')] @
      EvBlockStats (Domain 1) ''vda'' (Inr (no_stats
        \<lparr>RdTotalTimesSet := True, RdTotalTimes := 2500000000, WrReqSet := True, WrReq := 7\<rparr>)) #
      [EvSend \<lparr>metricDesc = libvirtBlockRdTotalTimesDesc, valType = CounterValue, val = 2.5,
               labelValues = [''vm1'', ''/a.img'', ''vda'']\<rparr>,
       EvSend \<lparr>metricDesc = libvirtBlockWrReqDesc, valType = CounterValue, val = 7,
               labelValues = [''vm1'', ''/a.img'', ''vda'']\<rparr>]) \<and>
   (\<exists>ms. [EvSend \<lparr>metricDesc = libvirtBlockRdTotalTimesDesc, valType = CounterValue, val = 2.5,
               labelValues = [''vm1'', ''/a.img'', ''vda'']\<rparr>,
          EvSend \<lparr>metricDesc = libvirtBlockWrReqDesc, valType = CounterValue, val = 7,
               labelValues = [''vm1'', ''/a.img'', ''vda'']\<rparr>] = map EvSend ms \<and>
      map val (filter (\<lambda>m. metricDesc m = libvirtBlockRdTotalTimesDesc) ms) = [2.5] \<and>
      map val (filter (\<lambda>m. metricDesc m = libvirtBlockWrTotalTimesDesc) ms) = [] \<and>
      map val (filter (\<lambda>m. metricDesc m = libvirtBlockFlushTotalTimesDesc) ms) = [] \<and>
      map val (filter (\<lambda>m. metricDesc m = libvirtBlockRdBytesDesc) ms) = [] \<and>
      map val (filter (\<lambda>m. metricDesc m = libvirtBlockRdReqDesc) ms) = [] \<and>
      map val (filter (\<lambda>m. metricDesc m = libvirtBlockWrBytesDesc) ms) = [] \<and>
      map val (filter (\<lambda>m. metricDesc m = libvirtBlockWrReqDesc) ms) = [7] \<and>
      map val (filter (\<lambda>m. metricDesc m = libvirtBlockFlushReqDesc) ms) = []) \<and>
   valof (float64_quo (float64_of_int64 2500000000) float64_1e9) = 2.5 \<and>
   \<bar>sint (7 :: 64 word)\<bar> \<le> 2 ^ 53 \<and> valof (float64_of_int64 7) = 7 \<and>
   \<bar>valof (float64_of_int64 9007199254740993) - 9007199254740993\<bar> \<le> 9007199254740993 / 2 ^ 53"
proof -
  note inst = CollectDomain_sample_float64 [OF CollectDomain_lv_times]
  have q: "valof (float64_quo (float64_of_int64 2500000000) float64_1e9) = 2.5"
    by (simp add: float64_of_int64_def float64_1e9_eq float64_quo_def round_float64_def binade_def
        round_even_def Let_def valof_def)
  from inst have e: "\<bar>sint (7 :: 64 word)\<bar> \<le> 2 ^ 53 \<longrightarrow> valof (float64_of_int64 7) = real_of_int (sint (7 :: 64 word))"
    by blast
  from inst have b: "\<bar>valof (float64_of_int64 9007199254740993) - real_of_int (sint (9007199254740993 :: 64 word))\<bar>
      \<le> \<bar>real_of_int (sint (9007199254740993 :: 64 word))\<bar> / 2 ^ 53"
    by blast
  from inst have "\<exists>ms. takeWhile is_send
      [EvSend \<lparr>metricDesc = libvirtBlockRdTotalTimesDesc, valType = CounterValue, val = 2.5,
               labelValues = [''vm1'', ''/a.img'', ''vda'']\<rparr>,
       EvSend \<lparr>metricDesc = libvirtBlockWrReqDesc, valType = CounterValue, val = 7,
               labelValues = [''vm1'', ''/a.img'', ''vda'']\<rparr>] = map EvSend ms \<and>
    map val (filter (\<lambda>m. metricDesc m = libvirtBlockRdTotalTimesDesc) ms) =
      (if RdTotalTimesSet (no_stats
        \<lparr>RdTotalTimesSet := True, RdTotalTimes := 2500000000, WrReqSet := True, WrReq := 7\<rparr>)
       then [valof (float64_quo (float64_of_int64 (RdTotalTimes (no_stats
        \<lparr>RdTotalTimesSet := True, RdTotalTimes := 2500000000, WrReqSet := True, WrReq := 7\<rparr>))) float64_1e9)] else []) \<and>
    map val (filter (\<lambda>m. metricDesc m = libvirtBlockWrTotalTimesDesc) ms) =
      (if WrTotalTimesSet (no_stats
        \<lparr>RdTotalTimesSet := True, RdTotalTimes := 2500000000, WrReqSet := True, WrReq := 7\<rparr>)
       then [valof (float64_quo (float64_of_int64 (WrTotalTimes (no_stats
        \<lparr>RdTotalTimesSet := True, RdTotalTimes := 2500000000, WrReqSet := True, WrReq := 7\<rparr>))) float64_1e9)] else []) \<and>
    map val (filter (\<lambda>m. metricDesc m = libvirtBlockFlushTotalTimesDesc) ms) =
      (if FlushTotalTimesSet (no_stats
        \<lparr>RdTotalTimesSet := True, RdTotalTimes := 2500000000, WrReqSet := True, WrReq := 7\<rparr>)
       then [valof (float64_quo (float64_of_int64 (FlushTotalTimes (no_stats
        \<lparr>RdTotalTimesSet := True, RdTotalTimes := 2500000000, WrReqSet := True, WrReq := 7\<rparr>))) float64_1e9)] else []) \<and>
    map val (filter (\<lambda>m. metricDesc m = libvirtBlockRdBytesDesc) ms) =
      (if RdBytesSet (no_stats
        \<lparr>RdTotalTimesSet := True, RdTotalTimes := 2500000000, WrReqSet := True, WrReq := 7\<rparr>)
       then [valof (float64_of_int64 (RdBytes (no_stats
        \<lparr>RdTotalTimesSet := True, RdTotalTimes := 2500000000, WrReqSet := True, WrReq := 7\<rparr>)))] else []) \<and>
    map val (filter (\<lambda>m. metricDesc m = libvirtBlockRdReqDesc) ms) =
      (if RdReqSet (no_stats
        \<lparr>RdTotalTimesSet := True, RdTotalTimes := 2500000000, WrReqSet := True, WrReq := 7\<rparr>)
       then [valof (float64_of_int64 (RdReq (no_stats
        \<lparr>RdTotalTimesSet := True, RdTotalTimes := 2500000000, WrReqSet := True, WrReq := 7\<rparr>)))] else []) \<and>
    map val (filter (\<lambda>m. metricDesc m = libvirtBlockWrBytesDesc) ms) =
      (if WrBytesSet (no_stats
        \<lparr>RdTotalTimesSet := True, RdTotalTimes := 2500000000, WrReqSet := True, WrReq := 7\<rparr>)
       then [valof (float64_of_int64 (WrBytes (no_stats
        \<lparr>RdTotalTimesSet := True, RdTotalTimes := 2500000000, WrReqSet := True, WrReq := 7\<rparr>)))] else []) \<and>
    map val (filter (\<lambda>m. metricDesc m = libvirtBlockWrReqDesc) ms) =
      (if WrReqSet (no_stats
        \<lparr>RdTotalTimesSet := True, RdTotalTimes := 2500000000, WrReqSet := True, WrReq := 7\<rparr>)
       then [valof (float64_of_int64 (WrReq (no_stats
        \<lparr>RdTotalTimesSet := True, RdTotalTimes := 2500000000, WrReqSet := True, WrReq := 7\<rparr>)))] else []) \<and>
    map val (filter (\<lambda>m. metricDesc m = libvirtBlockFlushReqDesc) ms) =
      (if FlushReqSet (no_stats
        \<lparr>RdTotalTimesSet := True, RdTotalTimes := 2500000000, WrReqSet := True, WrReq := 7\<rparr>)
       then [valof (float64_of_int64 (FlushReq (no_stats
        \<lparr>RdTotalTimesSet := True, RdTotalTimes := 2500000000, WrReqSet := True, WrReq := 7\<rparr>)))] else [])"
    by (rule conjunct1)
  then have m: "\<exists>ms. [EvSend \<lparr>metricDesc = libvirtBlockRdTotalTimesDesc, valType = CounterValue, val = 2.5,
               labelValues = [''vm1'', ''/a.img'', ''vda'']\<rparr>,
          EvSend \<lparr>metricDesc = libvirtBlockWrReqDesc, valType = CounterValue, val = 7,
               labelValues = [''vm1'', ''/a.img'', ''vda'']\<rparr>] = map EvSend ms \<and>
      map val (filter (\<lambda>m. metricDesc m = libvirtBlockRdTotalTimesDesc) ms) = [2.5] \<and>
      map val (filter (\<lambda>m. metricDesc m = libvirtBlockWrTotalTimesDesc) ms) = [] \<and>
      map val (filter (\<lambda>m. metricDesc m = libvirtBlockFlushTotalTimesDesc) ms) = [] \<and>
      map val (filter (\<lambda>m. metricDesc m = libvirtBlockRdBytesDesc) ms) = [] \<and>
      map val (filter (\<lambda>m. metricDesc m = libvirtBlockRdReqDesc) ms) = [] \<and>
      map val (filter (\<lambda>m. metricDesc m = libvirtBlockWrBytesDesc) ms) = [] \<and>
      map val (filter (\<lambda>m. metricDesc m = libvirtBlockWrReqDesc) ms) = [7] \<and>
      map val (filter (\<lambda>m. metricDesc m = libvirtBlockFlushReqDesc) ms) = []"
    by (simp add: no_stats_def q float64_of_int64_exact)
  from e have e': "\<bar>sint (7 :: 64 word)\<bar> \<le> 2 ^ 53 \<and> valof (float64_of_int64 7) = 7" by simp
  from b have b': "\<bar>valof (float64_of_int64 9007199254740993) - 9007199254740993\<bar> \<le> 9007199254740993 / 2 ^ 53"
    by simp
  from CollectDomain_lv_times m q e' b' show ?thesis by (intro conjI) simp_all
qed

section \<open>Labels, and a domain without disks\<close>

lemma set_sample:
  "m \<in> set (sample b d x ls) \<longleftrightarrow>
     b \<and> m = \<lparr>metricDesc = d, valType = CounterValue, val = x, labelValues = ls\<rparr>"
  by (auto simp: sample_def)

lemma block_samples_labels:
  assumes "m \<in> set (block_samples n disk st)"
  shows "labelValues m = [n, File (Source disk), Device (Target disk)]"
    and "valType m = CounterValue"
    and "metricDesc m \<in> {libvirtBlockRdBytesDesc, libvirtBlockRdReqDesc,
      libvirtBlockRdTotalTimesDesc, libvirtBlockWrBytesDesc, libvirtBlockWrReqDesc,
      libvirtBlockWrTotalTimesDesc, libvirtBlockFlushReqDesc, libvirtBlockFlushTotalTimesDesc}"
  using assms by (auto simp: block_samples_def set_sample)

lemma block_desc_names:
  "fqName libvirtBlockRdBytesDesc = ''libvirt_block_stats_read_bytes_total''"
  "fqName libvirtBlockRdReqDesc = ''libvirt_block_stats_read_requests_total''"
  "fqName libvirtBlockRdTotalTimesDesc = ''libvirt_block_stats_read_seconds_total''"
  "fqName libvirtBlockWrBytesDesc = ''libvirt_block_stats_write_bytes_total''"
  "fqName libvirtBlockWrReqDesc = ''libvirt_block_stats_write_requests_total''"
  "fqName libvirtBlockWrTotalTimesDesc = ''libvirt_block_stats_write_seconds_total''"
  "fqName libvirtBlockFlushReqDesc = ''libvirt_block_stats_flush_requests_total''"
  "fqName libvirtBlockFlushTotalTimesDesc = ''libvirt_block_stats_flush_seconds_total''"
  by (simp_all add: libvirtBlockRdBytesDesc_def libvirtBlockRdReqDesc_def
      libvirtBlockRdTotalTimesDesc_def libvirtBlockWrBytesDesc_def libvirtBlockWrReqDesc_def
      libvirtBlockWrTotalTimesDesc_def libvirtBlockFlushReqDesc_def libvirtBlockFlushTotalTimesDesc_def
      NewDesc_def BuildFQName_def)

text \<open>
  The loop makes one query for each disk, in the order of the descriptor, so the disk
  whose turn it is has as its position the number of queries made before its own. A
  send belongs to the last query before it.
\<close>

lemma stats_queries_append: "stats_queries (xs @ ys) = stats_queries xs + stats_queries ys"
  by (induction xs rule: stats_queries.induct) simp_all

lemma stats_queries_sends: "stats_queries (map EvSend ms) = 0"
  by (induction ms) simp_all

lemma append_eq_sends_send:
  "xs @ EvSend m # ys = map EvSend ms @ zs \<Longrightarrow>
   (list_all is_send xs \<and> m \<in> set ms) \<or> (\<exists>a. xs = map EvSend ms @ a \<and> zs = a @ EvSend m # ys)"
proof (induction ms arbitrary: xs)
  case Nil
  then show ?case by simp
next
  case (Cons m' ms)
  show ?case
  proof (cases xs)
    case Nil
    with Cons.prems show ?thesis by simp
  next
    case (Cons x xs')
    with Cons.prems have x: "x = EvSend m'" and "xs' @ EvSend m # ys = map EvSend ms @ zs"
      by simp_all
    from Cons.IH [OF this(2)] x Cons show ?thesis by auto
  qed
qed

lemma collect_disks_send_disk:
  "collect_disks lv d n ds t = (r, t @ p @ EvSend m # q) \<Longrightarrow>
   \<exists>a st s. p = a @ EvBlockStats d (Device (Target (ds ! stats_queries a))) (Inr st) # s \<and>
     list_all is_send s \<and> stats_queries a < length ds \<and>
     m \<in> set (block_samples n (ds ! stats_queries a) st)"
proof (induction ds arbitrary: t p)
  case Nil
  then show ?case by simp
next
  case (Cons disk ds)
  show ?case
  proof (cases "BlockStats lv t d (Device (Target disk))")
    case (Inl err)
    with Cons.prems have "p @ EvSend m # q = [EvBlockStats d (Device (Target disk)) (Inl err)]"
      by simp
    then have False by (cases p) simp_all
    then show ?thesis ..
  next
    case (Inr st0)
    let ?e0 = "EvBlockStats d (Device (Target disk)) (Inr st0)"
    let ?t1 = "t @ ?e0 # map EvSend (block_samples n disk st0)"
    from Inr Cons.prems have run: "collect_disks lv d n ds ?t1 = (r, t @ p @ EvSend m # q)"
      by (simp add: report_block_stats_eq)
    then obtain u where u: "t @ p @ EvSend m # q = ?t1 @ u"
      using collect_disks_append by blast
    then have eq: "p @ EvSend m # q = ?e0 # map EvSend (block_samples n disk st0) @ u"
      by simp
    then obtain p' where p: "p = ?e0 # p'"
      and eq': "p' @ EvSend m # q = map EvSend (block_samples n disk st0) @ u"
      by (cases p) simp_all
    from append_eq_sends_send [OF eq'] show ?thesis
    proof
      assume "list_all is_send p' \<and> m \<in> set (block_samples n disk st0)"
      with p have "p = [] @ EvBlockStats d (Device (Target ((disk # ds) ! stats_queries []))) (Inr st0) # p' \<and>
          list_all is_send p' \<and> stats_queries [] < length (disk # ds) \<and>
          m \<in> set (block_samples n ((disk # ds) ! stats_queries []) st0)"
        by simp
      then show ?thesis by blast
    next
      assume "\<exists>a. p' = map EvSend (block_samples n disk st0) @ a \<and> u = a @ EvSend m # q"
      then obtain p2 where p': "p' = map EvSend (block_samples n disk st0) @ p2"
        and u2: "u = p2 @ EvSend m # q"
        by blast
      from run u u2 have "collect_disks lv d n ds ?t1 = (r, ?t1 @ p2 @ EvSend m # q)" by simp
      from Cons.IH [OF this] obtain a st s
        where p2: "p2 = a @ EvBlockStats d (Device (Target (ds ! stats_queries a))) (Inr st) # s"
          and s: "list_all is_send s" and k: "stats_queries a < length ds"
          and m: "m \<in> set (block_samples n (ds ! stats_queries a) st)"
        by blast
      let ?a = "?e0 # map EvSend (block_samples n disk st0) @ a"
      have q: "stats_queries ?a = Suc (stats_queries a)"
        by (simp add: stats_queries_append stats_queries_sends)
      from p p' p2 have "p = ?a @ EvBlockStats d (Device (Target (ds ! stats_queries a))) (Inr st) # s"
        by simp
      with s k m q have "p = ?a @ EvBlockStats d (Device (Target ((disk # ds) ! stats_queries ?a))) (Inr st) # s \<and>
          list_all is_send s \<and> stats_queries ?a < length (disk # ds) \<and>
          m \<in> set (block_samples n ((disk # ds) ! stats_queries ?a) st)"
        by simp
      then show ?thesis by blast
    qed
  qed
qed

text \<open>
  C8. Take any metric sent during a run of \<open>CollectDomain\<close>. The last event before it
  that is not a send is an answered query of block statistics. If \<open>k\<close> queries were
  made before that one, the query is for the target device of the disk at position
  \<open>k\<close> of the parsed descriptor, the disk whose turn it is in the loop, and the label
  values of the metric are, in this order, the name \<^verbatim>\<open>GetName\<close> returned for the domain
  and the source file and target device of that same disk. The metric is a counter with
  one of the eight block descriptors, whose names are the \<^verbatim>\<open>libvirt_block_stats_\<close> names
  and whose labels are \<^verbatim>\<open>domain\<close>, \<^verbatim>\<open>source_file\<close>, \<^verbatim>\<open>target_device\<close> in this order.
\<close>

theorem CollectDomain_sample_labels:
  assumes "CollectDomain lv domain t = (r, t @ p @ EvSend m # q)"
  shows "\<exists>name xml desc a blockStats s disk.
    GetName lv t domain = Inr name \<and>
    GetXMLDesc lv (t @ [EvGetName domain (Inr name)]) domain 0 = Inr xml \<and>
    Unmarshal lv xml = Inr desc \<and>
    stats_queries a < length (Disks (Devices desc)) \<and>
    disk = Disks (Devices desc) ! stats_queries a \<and>
    p = a @ EvBlockStats domain (Device (Target disk)) (Inr blockStats) # s \<and>
    list_all is_send s \<and>
    labelValues m = [name, File (Source disk), Device (Target disk)] \<and>
    variableLabels (metricDesc m) = [''domain'', ''source_file'', ''target_device''] \<and>
    valType m = CounterValue \<and>
    metricDesc m \<in> {libvirtBlockRdBytesDesc, libvirtBlockRdReqDesc,
      libvirtBlockRdTotalTimesDesc, libvirtBlockWrBytesDesc, libvirtBlockWrReqDesc,
      libvirtBlockWrTotalTimesDesc, libvirtBlockFlushReqDesc, libvirtBlockFlushTotalTimesDesc} \<and>
    fqName (metricDesc m) \<in> {''libvirt_block_stats_read_bytes_total'',
      ''libvirt_block_stats_read_requests_total'', ''libvirt_block_stats_read_seconds_total'',
      ''libvirt_block_stats_write_bytes_total'', ''libvirt_block_stats_write_requests_total'',
      ''libvirt_block_stats_write_seconds_total'', ''libvirt_block_stats_flush_requests_total'',
      ''libvirt_block_stats_flush_seconds_total''}"
proof (cases rule: CollectDomain_cases [of lv t domain])
  case (name_err err)
  with assms have "p @ EvSend m # q = [EvGetName domain (Inl err)]" by simp
  then have False by (cases p) simp_all
  then show ?thesis ..
next
  case (xml_err n err)
  with assms have "p @ EvSend m # q = [EvGetName domain (Inr n), EvGetXMLDesc domain 0 (Inl err)]"
    by simp
  then have False by (cases p; cases "tl p") auto
  then show ?thesis ..
next
  case (parse_err n xml err)
  with assms have "p @ EvSend m # q = [EvGetName domain (Inr n), EvGetXMLDesc domain 0 (Inr xml)]"
    by simp
  then have False by (cases p; cases "tl p") auto
  then show ?thesis ..
next
  case (disks n xml desc)
  let ?t2 = "t @ [EvGetName domain (Inr n), EvGetXMLDesc domain 0 (Inr xml)]"
  from disks assms have run: "collect_disks lv domain n (Disks (Devices desc)) ?t2 = (r, t @ p @ EvSend m # q)"
    by simp
  then obtain u where u: "t @ p @ EvSend m # q = ?t2 @ u"
    using collect_disks_append by blast
  then have "p @ EvSend m # q = EvGetName domain (Inr n) # EvGetXMLDesc domain 0 (Inr xml) # u"
    by simp
  then obtain p' where p: "p = EvGetName domain (Inr n) # EvGetXMLDesc domain 0 (Inr xml) # p'"
    and "u = p' @ EvSend m # q"
    by (cases p; cases "tl p") auto
  with run u have "collect_disks lv domain n (Disks (Devices desc)) ?t2 = (r, ?t2 @ p' @ EvSend m # q)"
    by simp
  from collect_disks_send_disk [OF this] obtain a st s
    where p': "p' = a @ EvBlockStats domain (Device (Target (Disks (Devices desc) ! stats_queries a))) (Inr st) # s"
      and s: "list_all is_send s" and k: "stats_queries a < length (Disks (Devices desc))"
      and ms: "m \<in> set (block_samples n (Disks (Devices desc) ! stats_queries a) st)"
    by blast
  let ?a = "EvGetName domain (Inr n) # EvGetXMLDesc domain 0 (Inr xml) # a"
  let ?disk = "Disks (Devices desc) ! stats_queries ?a"
  have a: "stats_queries ?a = stats_queries a" by simp
  from p p' have "p = ?a @ EvBlockStats domain (Device (Target ?disk)) (Inr st) # s" by simp
  moreover from k have "stats_queries ?a < length (Disks (Devices desc))" by simp
  moreover from ms have ms': "m \<in> set (block_samples n ?disk st)" by simp
  note props = block_samples_labels [OF ms']
  moreover from props(3) have "variableLabels (metricDesc m) = [''domain'', ''source_file'', ''target_device'']"
    by (auto simp: block_desc_labels)
  moreover from props(3) have "fqName (metricDesc m) \<in> {''libvirt_block_stats_read_bytes_total'',
      ''libvirt_block_stats_read_requests_total'', ''libvirt_block_stats_read_seconds_total'',
      ''libvirt_block_stats_write_bytes_total'', ''libvirt_block_stats_write_requests_total'',
      ''libvirt_block_stats_write_seconds_total'', ''libvirt_block_stats_flush_requests_total'',
      ''libvirt_block_stats_flush_seconds_total''}"
    by (auto simp: block_desc_names)
  ultimately show ?thesis using disks(1-3) s by blast
qed

lemma CollectDomain_lv_two_disks:
  "CollectDomain lv_two_disks (Domain 1) [] =
     (Return None,
      [] @
      [EvGetName (Domain 1) (Inr ''vm1''), EvGetXMLDesc (Domain 1) 0 (Inr ''<domain/>''),
       EvBlockStats (Domain 1) ''vda'' (Inr (no_stats\<lparr>RdBytesSet := True, RdBytes := 1024\<rparr>)),
       EvSend \<lparr>metricDesc = libvirtBlockRdBytesDesc, valType = CounterValue, val = 1024,
               labelValues = [''vm1'', ''/a.img'', ''vda'']\<rparr>,
       EvBlockStats (Domain 1) ''vdb'' (Inr (no_stats\<lparr>RdBytesSet := True, RdBytes := 1024\<rparr>))] @
      EvSend \<lparr>metricDesc = libvirtBlockRdBytesDesc, valType = CounterValue, val = 1024,
               labelValues = [''vm1'', ''/b.img'', ''vdb'']\<rparr> # [])"
  by (simp add: CollectDomain_def lv_two_disks_def lv_vm1_def disk_of_def report_block_stats_eq
      block_samples_def sample_def no_stats_def)

theorem CollectDomain_sample_labels_witness:
  "CollectDomain lv_two_disks (Domain 1) [] =
     (Return None,
      [] @
      [EvGetName (Domain 1) (Inr ''vm1''), EvGetXMLDesc (Domain 1) 0 (Inr ''<domain/>''),
       EvBlockStats (Domain 1) ''vda'' (Inr (no_stats\<lparr>RdBytesSet := True, RdBytes := 1024\<rparr>)),
       EvSend \<lparr>metricDesc = libvirtBlockRdBytesDesc, valType = CounterValue, val = 1024,
               labelValues = [''vm1'', ''/a.img'', ''vda'']\<rparr>,
       EvBlockStats (Domain 1) ''vdb'' (Inr (no_stats\<lparr>RdBytesSet := True, RdBytes := 1024\<rparr>))] @
      EvSend \<lparr>metricDesc = libvirtBlockRdBytesDesc, valType = CounterValue, val = 1024,
               labelValues = [''vm1'', ''/b.img'', ''vdb'']\<rparr> # []) \<and>
   GetName lv_two_disks [] (Domain 1) = Inr ''vm1'' \<and>
   Unmarshal lv_two_disks ''<domain/>'' =
     Inr \<lparr>Devices = \<lparr>Disks = [disk_of ''/a.img'' ''vda'', disk_of ''/b.img'' ''vdb'']\<rparr>\<rparr> \<and>
   (\<exists>a blockStats s disk.
      stats_queries a < length [disk_of ''/a.img'' ''vda'', disk_of ''/b.img'' ''vdb''] \<and>
      disk = [disk_of ''/a.img'' ''vda'', disk_of ''/b.img'' ''vdb''] ! stats_queries a \<and>
      [EvGetName (Domain 1) (Inr ''vm1''), EvGetXMLDesc (Domain 1) 0 (Inr ''<domain/>''),
       EvBlockStats (Domain 1) ''vda'' (Inr (no_stats\<lparr>RdBytesSet := True, RdBytes := 1024\<rparr>)),
       EvSend \<lparr>metricDesc = libvirtBlockRdBytesDesc, valType = CounterValue, val = 1024,
               labelValues = [''vm1'', ''/a.img'', ''vda'']\<rparr>,
       EvBlockStats (Domain 1) ''vdb'' (Inr (no_stats\<lparr>RdBytesSet := True, RdBytes := 1024\<rparr>))] =
        a @ EvBlockStats (Domain 1) (Device (Target disk)) (Inr blockStats) # s \<and>
      list_all is_send s \<and>
      [''vm1'', ''/b.img'', ''vdb''] = [''vm1'', File (Source disk), Device (Target disk)]) \<and>
   variableLabels libvirtBlockRdBytesDesc = [''domain'', ''source_file'', ''target_device''] \<and>
   fqName libvirtBlockRdBytesDesc = ''libvirt_block_stats_read_bytes_total''"
proof -
  from CollectDomain_sample_labels [OF CollectDomain_lv_two_disks]
  have "\<exists>a blockStats s disk.
      stats_queries a < length [disk_of ''/a.img'' ''vda'', disk_of ''/b.img'' ''vdb''] \<and>
      disk = [disk_of ''/a.img'' ''vda'', disk_of ''/b.img'' ''vdb''] ! stats_queries a \<and>
      [EvGetName (Domain 1) (Inr ''vm1''), EvGetXMLDesc (Domain 1) 0 (Inr ''<domain/>''),
       EvBlockStats (Domain 1) ''vda'' (Inr (no_stats\<lparr>RdBytesSet := True, RdBytes := 1024\<rparr>)),
       EvSend \<lparr>metricDesc = libvirtBlockRdBytesDesc, valType = CounterValue, val = 1024,
               labelValues = [''vm1'', ''/a.img'', ''vda'']\<rparr>,
       EvBlockStats (Domain 1) ''vdb'' (Inr (no_stats\<lparr>RdBytesSet := True, RdBytes := 1024\<rparr>))] =
        a @ EvBlockStats (Domain 1) (Device (Target disk)) (Inr blockStats) # s \<and>
      list_all is_send s \<and>
      [''vm1'', ''/b.img'', ''vdb''] = [''vm1'', File (Source disk), Device (Target disk)]"
    by (simp add: lv_two_disks_def lv_vm1_def) blast
  with CollectDomain_lv_two_disks show ?thesis
    by (simp add: lv_two_disks_def lv_vm1_def block_desc_names block_desc_labels)
qed

text \<open>
  C10. When the name and the descriptor of a domain are read and parsed and the
  descriptor lists no disk, \<open>CollectDomain\<close> returns \<^verbatim>\<open>nil\<close> after these two calls:
  it asks for no block statistics and sends nothing.
\<close>

theorem CollectDomain_no_disks:
  assumes "GetName lv t domain = Inr name"
    and "GetXMLDesc lv (t @ [EvGetName domain (Inr name)]) domain 0 = Inr xml"
    and "Unmarshal lv xml = Inr desc"
    and "Disks (Devices desc) = []"
  shows "CollectDomain lv domain t =
    (Return None, t @ [EvGetName domain (Inr name), EvGetXMLDesc domain 0 (Inr xml)])"
  using assms by (simp add: CollectDomain_def)

theorem CollectDomain_no_disks_witness:
  "CollectDomain lv_no_disks (Domain 2) [] =
    (Return None, [EvGetName (Domain 2) (Inr ''vm1''), EvGetXMLDesc (Domain 2) 0 (Inr ''<domain/>'')])"
  using CollectDomain_no_disks [of lv_no_disks "[]" "Domain 2" "''vm1''" "''<domain/>''"
      "\<lparr>Devices = \<lparr>Disks = []\<rparr>\<rparr>"]
  by (simp add: lv_no_disks_def lv_vm1_def)

section \<open>The loops over the domains and the deferred calls\<close>

text \<open>
  Neither loop over the domains panics, and both only extend the trace. The deferred
  calls run in order, and after the loop of line 196 all deferred \<^verbatim>\<open>Free\<close> calls hold
  the address of the same variable, whose value is the last domain listed.
\<close>

lemma CollectDomain_append:
  assumes "CollectDomain lv d t = (r, t')"
  shows "\<exists>u. t' = t @ u"
proof (cases rule: CollectDomain_cases [of lv t d])
  case (disks n xml desc)
  with assms have "collect_disks lv d n (Disks (Devices desc))
      (t @ [EvGetName d (Inr n), EvGetXMLDesc d 0 (Inr xml)]) = (r, t')"
    by simp
  from collect_disks_append [OF this] show ?thesis by auto
qed (use assms in auto)

lemma CollectDomain_Return:
  assumes "CollectDomain lv d t = (r, t')"
  shows "\<exists>e. r = Return e"
proof (cases rule: CollectDomain_cases [of lv t d])
  case (disks n xml desc)
  with assms have "collect_disks lv d n (Disks (Devices desc))
      (t @ [EvGetName d (Inr n), EvGetXMLDesc d 0 (Inr xml)]) = (r, t')"
    by simp
  from collect_disks_Return [OF this] show ?thesis .
qed (use assms in auto)

lemma collect_all_append:
  "collect_all lv ds t = (r, t') \<Longrightarrow> \<exists>u. t' = t @ u"
proof (induction ds arbitrary: t)
  case Nil
  then show ?case by simp
next
  case (Cons d ds)
  obtain r1 t1 where run: "CollectDomain lv d t = (r1, t1)" by fastforce
  then obtain u1 where t1: "t1 = t @ u1" using CollectDomain_append by blast
  from CollectDomain_Return [OF run] obtain e where r1: "r1 = Return e" ..
  show ?case
  proof (cases e)
    case None
    with Cons.prems run r1 have "collect_all lv ds t1 = (r, t')" by simp
    from Cons.IH [OF this] t1 show ?thesis by auto
  next
    case (Some err)
    with Cons.prems run r1 t1 show ?thesis by auto
  qed
qed

lemma collect_all_Return:
  "collect_all lv ds t = (r, t') \<Longrightarrow> \<exists>e. r = Return e"
proof (induction ds arbitrary: t)
  case Nil
  then show ?case by auto
next
  case (Cons d ds)
  obtain r1 t1 where run: "CollectDomain lv d t = (r1, t1)" by fastforce
  from CollectDomain_Return [OF run] obtain e where r1: "r1 = Return e" ..
  show ?case
  proof (cases e)
    case None
    with Cons.prems run r1 have "collect_all lv ds t1 = (r, t')" by simp
    from Cons.IH [OF this] show ?thesis .
  next
    case (Some err)
    with Cons.prems run r1 show ?thesis by auto
  qed
qed

lemma collect_by_id_append:
  "collect_by_id lv conn ids t = (r, t') \<Longrightarrow> \<exists>u. t' = t @ u"
proof (induction ids arbitrary: t)
  case Nil
  then show ?case by simp
next
  case (Cons i ids)
  show ?case
  proof (cases "LookupDomainById lv t conn i")
    case (Inl err)
    with Cons.prems have "collect_by_id lv conn ids (t @ [EvLookupDomainById conn i (Inl err)]) = (r, t')"
      by simp
    from Cons.IH [OF this] show ?thesis by auto
  next
    case (Inr d)
    let ?t0 = "t @ [EvLookupDomainById conn i (Inr d)]"
    obtain r1 t1 where run: "CollectDomain lv d ?t0 = (r1, t1)" by fastforce
    then obtain u1 where t1: "t1 = ?t0 @ u1" using CollectDomain_append by blast
    from CollectDomain_Return [OF run] obtain e where r1: "r1 = Return e" ..
    show ?thesis
    proof (cases e)
      case None
      with Cons.prems Inr run r1 have "collect_by_id lv conn ids (t1 @ [EvFree d]) = (r, t')" by simp
      from Cons.IH [OF this] t1 show ?thesis by auto
    next
      case (Some err)
      with Cons.prems Inr run r1 t1 show ?thesis by auto
    qed
  qed
qed

lemma collect_by_id_Return:
  "collect_by_id lv conn ids t = (r, t') \<Longrightarrow> \<exists>e. r = Return e"
proof (induction ids arbitrary: t)
  case Nil
  then show ?case by auto
next
  case (Cons i ids)
  show ?case
  proof (cases "LookupDomainById lv t conn i")
    case (Inl err)
    with Cons.prems have "collect_by_id lv conn ids (t @ [EvLookupDomainById conn i (Inl err)]) = (r, t')"
      by simp
    from Cons.IH [OF this] show ?thesis .
  next
    case (Inr d)
    let ?t0 = "t @ [EvLookupDomainById conn i (Inr d)]"
    obtain r1 t1 where run: "CollectDomain lv d ?t0 = (r1, t1)" by fastforce
    from CollectDomain_Return [OF run] obtain e where r1: "r1 = Return e" ..
    show ?thesis
    proof (cases e)
      case None
      with Cons.prems Inr run r1 have "collect_by_id lv conn ids (t1 @ [EvFree d]) = (r, t')" by simp
      from Cons.IH [OF this] show ?thesis .
    next
      case (Some err)
      with Cons.prems Inr run r1 show ?thesis by auto
    qed
  qed
qed

lemma run_defers_eq: "run_defers vs ds t = t @ map (release_of vs) ds"
  by (induction vs ds t rule: run_defers.induct) simp_all

lemma defers_defer_free_loop:
  "defers (defer_free_loop ds fr) = replicate (length ds) (DeferFree domain_var) @ defers fr"
  by (induction ds arbitrary: fr) (simp_all add: replicate_app_Cons_same)

lemma vars_defer_free_loop:
  "vars (defer_free_loop ds fr) domain_var = (if ds = [] then vars fr domain_var else last ds)"
  by (induction ds arbitrary: fr) simp_all

section \<open>CollectFromLibvirt and Collect, case by case\<close>

text \<open>
  A run of \<open>CollectFromLibvirt\<close> goes one of four ways: no connection; the bulk
  listing and the loop over its domains; neither listing; the listing of identifiers
  and the loop over them. In the last three the connection is closed at the end.
\<close>

lemma CollectFromLibvirt_cases:
  obtains (no_conn) err where "NewConnect lv t u = Inl err"
      "CollectFromLibvirt lv u t = (Return (Some err), t @ [EvNewConnect u (Inl err)])"
  | (bulk) conn ds r t' where "NewConnect lv t u = Inr conn"
      "ListAllDomains lv (t @ [EvNewConnect u (Inr conn)]) conn CONNECT_LIST_DOMAINS_ACTIVE = Inr ds"
      "collect_all lv ds (t @ [EvNewConnect u (Inr conn),
         EvListAllDomains conn CONNECT_LIST_DOMAINS_ACTIVE (Inr ds)]) = (r, t')"
      "CollectFromLibvirt lv u t =
         (r, t' @ replicate (length ds) (EvFree (last ds)) @ [EvClose conn])"
  | (no_ids) conn err0 err where "NewConnect lv t u = Inr conn"
      "ListAllDomains lv (t @ [EvNewConnect u (Inr conn)]) conn CONNECT_LIST_DOMAINS_ACTIVE = Inl err0"
      "ListDomains lv (t @ [EvNewConnect u (Inr conn),
         EvListAllDomains conn CONNECT_LIST_DOMAINS_ACTIVE (Inl err0)]) conn = Inl err"
      "CollectFromLibvirt lv u t =
         (Return (Some err), t @ [EvNewConnect u (Inr conn),
            EvListAllDomains conn CONNECT_LIST_DOMAINS_ACTIVE (Inl err0),
            EvListDomains conn (Inl err), EvClose conn])"
  | (by_id) conn err0 ids r t' where "NewConnect lv t u = Inr conn"
      "ListAllDomains lv (t @ [EvNewConnect u (Inr conn)]) conn CONNECT_LIST_DOMAINS_ACTIVE = Inl err0"
      "ListDomains lv (t @ [EvNewConnect u (Inr conn),
         EvListAllDomains conn CONNECT_LIST_DOMAINS_ACTIVE (Inl err0)]) conn = Inr ids"
      "collect_by_id lv conn ids (t @ [EvNewConnect u (Inr conn),
         EvListAllDomains conn CONNECT_LIST_DOMAINS_ACTIVE (Inl err0),
         EvListDomains conn (Inr ids)]) = (r, t')"
      "CollectFromLibvirt lv u t = (r, t' @ [EvClose conn])"
proof (cases "NewConnect lv t u")
  case (Inl err)
  then show ?thesis using no_conn by (simp add: CollectFromLibvirt_def)
next
  case conn: (Inr conn)
  let ?t1 = "t @ [EvNewConnect u (Inr conn)]"
  show ?thesis
  proof (cases "ListAllDomains lv ?t1 conn CONNECT_LIST_DOMAINS_ACTIVE")
    case (Inr ds)
    obtain r t' where run: "collect_all lv ds (t @ [EvNewConnect u (Inr conn),
         EvListAllDomains conn CONNECT_LIST_DOMAINS_ACTIVE (Inr ds)]) = (r, t')"
      by fastforce
    with conn Inr have "CollectFromLibvirt lv u t =
         (r, t' @ replicate (length ds) (EvFree (last ds)) @ [EvClose conn])"
      by (simp add: CollectFromLibvirt_def list_and_collect_def run_defers_eq
          defers_defer_free_loop vars_defer_free_loop)
    with conn Inr run show ?thesis using bulk by blast
  next
    case err0: (Inl err0)
    let ?t2 = "t @ [EvNewConnect u (Inr conn), EvListAllDomains conn CONNECT_LIST_DOMAINS_ACTIVE (Inl err0)]"
    show ?thesis
    proof (cases "ListDomains lv ?t2 conn")
      case (Inl err)
      with conn err0 show ?thesis using no_ids
        by (simp add: CollectFromLibvirt_def list_and_collect_def run_defers_eq)
    next
      case (Inr ids)
      obtain r t' where run: "collect_by_id lv conn ids (t @ [EvNewConnect u (Inr conn),
         EvListAllDomains conn CONNECT_LIST_DOMAINS_ACTIVE (Inl err0),
         EvListDomains conn (Inr ids)]) = (r, t')"
        by fastforce
      with conn err0 Inr have "CollectFromLibvirt lv u t = (r, t' @ [EvClose conn])"
        by (simp add: CollectFromLibvirt_def list_and_collect_def run_defers_eq)
      with conn err0 Inr run show ?thesis using by_id by blast
    qed
  qed
qed

lemma CollectFromLibvirt_Return:
  assumes "CollectFromLibvirt lv u t = (r, t')"
  shows "\<exists>e. r = Return e"
proof (cases rule: CollectFromLibvirt_cases [of lv t u])
  case (bulk conn ds r1 t1)
  with assms collect_all_Return [OF bulk(3)] show ?thesis by auto
next
  case (by_id conn err0 ids r1 t1)
  with assms collect_by_id_Return [OF by_id(4)] show ?thesis by auto
qed (use assms in auto)

lemma CollectFromLibvirt_append:
  assumes "CollectFromLibvirt lv u t = (r, t')"
  shows "\<exists>w. t' = t @ w"
proof (cases rule: CollectFromLibvirt_cases [of lv t u])
  case (bulk conn ds r1 t1)
  with assms collect_all_append [OF bulk(3)] show ?thesis by auto
next
  case (by_id conn err0 ids r1 t1)
  with assms collect_by_id_append [OF by_id(4)] show ?thesis by auto
qed (use assms in auto)

lemma Collect_eq:
  assumes "CollectFromLibvirt lv (uri e) t = (r, t')"
  shows "\<exists>res. r = Return res \<and> Collect lv e t =
    (Return (), t' @ (case res of None \<Rightarrow> [EvSend (up_metric 1)]
       | Some err \<Rightarrow> [EvLogPrintf ''Failed to scrape metrics: %s'' err, EvSend (up_metric 0)]))"
proof -
  from CollectFromLibvirt_Return [OF assms] obtain res where "r = Return res" ..
  with assms show ?thesis
    by (cases res) (simp_all add: Collect_def send_up)
qed

section \<open>Which events a run can contain\<close>

text \<open>
  A run of \<open>CollectDomain\<close> makes the three calls on the domain and sends samples of
  the block descriptors, and nothing else; the loop over the identifiers adds lookups
  and \<^verbatim>\<open>Free\<close> calls. In particular no sample of \<^verbatim>\<open>libvirt_up\<close> is sent below \<open>Collect\<close>.
\<close>

lemma domain_event_samples: "list_all domain_event (map EvSend (block_samples n disk st))"
  by (simp add: block_samples_def sample_def desc_distinct)

lemma collect_disks_events:
  "collect_disks lv d n ds t = (r, t @ u) \<Longrightarrow> list_all domain_event u"
proof (induction ds arbitrary: t u)
  case Nil
  then show ?case by simp
next
  case (Cons disk ds)
  show ?case
  proof (cases "BlockStats lv t d (Device (Target disk))")
    case (Inl err)
    with Cons.prems show ?thesis by auto
  next
    case (Inr st)
    let ?t1 = "t @ EvBlockStats d (Device (Target disk)) (Inr st) # map EvSend (block_samples n disk st)"
    from Inr Cons.prems(1) have run: "collect_disks lv d n ds ?t1 = (r, t @ u)"
      by (simp add: report_block_stats_eq)
    then obtain u' where u': "t @ u = ?t1 @ u'"
      using collect_disks_append by blast
    then have u: "u = EvBlockStats d (Device (Target disk)) (Inr st) # map EvSend (block_samples n disk st) @ u'"
      by simp
    from run u' have "collect_disks lv d n ds ?t1 = (r, ?t1 @ u')" by simp
    from Cons.IH [OF this] u show ?thesis by (simp add: domain_event_samples)
  qed
qed

lemma CollectDomain_events:
  assumes "CollectDomain lv d t = (r, t @ u)"
  shows "list_all domain_event u"
proof (cases rule: CollectDomain_cases [of lv t d])
  case (disks n xml desc)
  let ?t2 = "t @ [EvGetName d (Inr n), EvGetXMLDesc d 0 (Inr xml)]"
  from disks assms have run: "collect_disks lv d n (Disks (Devices desc)) ?t2 = (r, t @ u)"
    by simp
  then obtain u' where u': "t @ u = ?t2 @ u'"
    using collect_disks_append by blast
  then have u: "u = EvGetName d (Inr n) # EvGetXMLDesc d 0 (Inr xml) # u'" by simp
  from run u' have "collect_disks lv d n (Disks (Devices desc)) ?t2 = (r, ?t2 @ u')" by simp
  from collect_disks_events [OF this] u show ?thesis by simp
qed (use assms in auto)

lemma collect_all_events:
  "collect_all lv ds t = (r, t @ u) \<Longrightarrow> list_all domain_event u"
proof (induction ds arbitrary: t u)
  case Nil
  then show ?case by simp
next
  case (Cons d ds)
  obtain r1 t1 where "CollectDomain lv d t = (r1, t1)" by fastforce
  then obtain u1 where run: "CollectDomain lv d t = (r1, t @ u1)"
    using CollectDomain_append by blast
  note ev1 = CollectDomain_events [OF run]
  from CollectDomain_Return [OF run] obtain e where r1: "r1 = Return e" ..
  show ?case
  proof (cases e)
    case None
    with Cons.prems run r1 have rest: "collect_all lv ds (t @ u1) = (r, t @ u)" by simp
    then obtain u2 where "t @ u = (t @ u1) @ u2" using collect_all_append by blast
    then have u: "u = u1 @ u2" by simp
    with rest have "collect_all lv ds (t @ u1) = (r, (t @ u1) @ u2)" by simp
    from Cons.IH [OF this] ev1 u show ?thesis by simp
  next
    case (Some err)
    with Cons.prems run r1 ev1 show ?thesis by auto
  qed
qed

lemma collect_by_id_events:
  "collect_by_id lv conn ids t = (r, t @ u) \<Longrightarrow>
   list_all (\<lambda>ev. domain_event ev \<or> is_fallback_call ev \<or> is_free ev) u"
proof (induction ids arbitrary: t u)
  case Nil
  then show ?case by simp
next
  case (Cons i ids)
  show ?case
  proof (cases "LookupDomainById lv t conn i")
    case (Inl err)
    let ?t0 = "t @ [EvLookupDomainById conn i (Inl err)]"
    from Inl Cons.prems have rest: "collect_by_id lv conn ids ?t0 = (r, t @ u)" by simp
    then obtain u2 where "t @ u = ?t0 @ u2" using collect_by_id_append by blast
    then have u: "u = EvLookupDomainById conn i (Inl err) # u2" by simp
    with rest have "collect_by_id lv conn ids ?t0 = (r, ?t0 @ u2)" by simp
    from Cons.IH [OF this] u show ?thesis by simp
  next
    case (Inr d)
    let ?t0 = "t @ [EvLookupDomainById conn i (Inr d)]"
    obtain r1 t1 where "CollectDomain lv d ?t0 = (r1, t1)" by fastforce
    then obtain u1 where run: "CollectDomain lv d ?t0 = (r1, ?t0 @ u1)"
      using CollectDomain_append by blast
    from CollectDomain_events [OF run]
    have ev1: "list_all (\<lambda>ev. domain_event ev \<or> is_fallback_call ev \<or> is_free ev) u1"
      by (simp add: list_all_iff)
    from CollectDomain_Return [OF run] obtain e where r1: "r1 = Return e" ..
    show ?thesis
    proof (cases e)
      case None
      let ?t2 = "?t0 @ u1 @ [EvFree d]"
      from None Cons.prems Inr run r1 have rest: "collect_by_id lv conn ids ?t2 = (r, t @ u)" by simp
      then obtain u2 where "t @ u = ?t2 @ u2" using collect_by_id_append by blast
      then have u: "u = EvLookupDomainById conn i (Inr d) # u1 @ EvFree d # u2" by simp
      with rest have "collect_by_id lv conn ids ?t2 = (r, ?t2 @ u2)" by simp
      from Cons.IH [OF this] ev1 u show ?thesis by simp
    next
      case (Some err)
      with Cons.prems Inr run r1 have "u = EvLookupDomainById conn i (Inr d) # u1 @ [EvFree d]"
        by simp
      with ev1 show ?thesis by simp
    qed
  qed
qed

lemma sent_no_up:
  "list_all (\<lambda>ev. domain_event ev \<or> is_fallback_call ev \<or> is_free ev) u \<Longrightarrow>
   filter (\<lambda>m. metricDesc m = libvirtUpDesc) (sent u) = []"
  by (induction u rule: sent.induct) auto

lemma sent_no_up_domain:
  "list_all domain_event u \<Longrightarrow> filter (\<lambda>m. metricDesc m = libvirtUpDesc) (sent u) = []"
  by (induction u rule: sent.induct) auto

lemma sent_replicate_Free: "sent (replicate k (EvFree d)) = []"
  by (induction k) simp_all

lemma CollectFromLibvirt_no_up:
  assumes "CollectFromLibvirt lv u t = (r, t @ w)"
  shows "filter (\<lambda>m. metricDesc m = libvirtUpDesc) (sent w) = []"
proof (cases rule: CollectFromLibvirt_cases [of lv t u])
  case (no_conn err)
  with assms show ?thesis by auto
next
  case (bulk conn ds r1 t1)
  let ?t0 = "t @ [EvNewConnect u (Inr conn), EvListAllDomains conn CONNECT_LIST_DOMAINS_ACTIVE (Inr ds)]"
  from bulk(3) obtain u1 where t1: "t1 = ?t0 @ u1" using collect_all_append by blast
  with bulk(3) have "collect_all lv ds ?t0 = (r1, ?t0 @ u1)" by simp
  from sent_no_up_domain [OF collect_all_events [OF this]] bulk(4) assms t1
  show ?thesis by (auto simp: sent_append sent_replicate_Free)
next
  case (no_ids conn err0 err)
  with assms show ?thesis by auto
next
  case (by_id conn err0 ids r1 t1)
  let ?t0 = "t @ [EvNewConnect u (Inr conn), EvListAllDomains conn CONNECT_LIST_DOMAINS_ACTIVE (Inl err0),
         EvListDomains conn (Inr ids)]"
  from by_id(4) obtain u1 where t1: "t1 = ?t0 @ u1" using collect_by_id_append by blast
  with by_id(4) have "collect_by_id lv conn ids ?t0 = (r1, ?t0 @ u1)" by simp
  from sent_no_up [OF collect_by_id_events [OF this]] by_id(5) assms t1
  show ?thesis by (auto simp: sent_append)
qed

section \<open>The health gauge\<close>

text \<open>
  C7. \<open>Collect\<close> never panics, and neither does the pipeline under it. What it appends
  to the events of \<open>CollectFromLibvirt\<close> is the gauge \<^verbatim>\<open>libvirt_up\<close> with value 1 when
  that returned \<^verbatim>\<open>nil\<close>, and otherwise the log line with the error followed by the
  gauge with value 0. When the connection cannot be opened, the whole run is the
  failed call, the log line and the gauge with value 0.
\<close>

theorem Collect_reports_health:
  "\<exists>res t'. CollectFromLibvirt lv (uri e) t = (Return res, t') \<and>
     Collect lv e t =
       (Return (),
        t' @ (case res of
                None \<Rightarrow> [EvSend (up_metric 1)]
              | Some err \<Rightarrow>
                  [EvLogPrintf ''Failed to scrape metrics: %s'' err, EvSend (up_metric 0)])) \<and>
     (\<forall>err. NewConnect lv t (uri e) = Inl err \<longrightarrow>
        Collect lv e t =
          (Return (),
           t @ [EvNewConnect (uri e) (Inl err),
                EvLogPrintf ''Failed to scrape metrics: %s'' err, EvSend (up_metric 0)]))"
proof -
  obtain r t' where run: "CollectFromLibvirt lv (uri e) t = (r, t')" by fastforce
  from Collect_eq [OF run] obtain res where res: "r = Return res"
    and eq: "Collect lv e t =
       (Return (),
        t' @ (case res of
                None \<Rightarrow> [EvSend (up_metric 1)]
              | Some err \<Rightarrow>
                  [EvLogPrintf ''Failed to scrape metrics: %s'' err, EvSend (up_metric 0)]))"
    by blast
  have "Collect lv e t =
          (Return (),
           t @ [EvNewConnect (uri e) (Inl err),
                EvLogPrintf ''Failed to scrape metrics: %s'' err, EvSend (up_metric 0)])"
    if "NewConnect lv t (uri e) = Inl err" for err
    using that by (simp add: Collect_def CollectFromLibvirt_def send_up)
  with run res eq show ?thesis by blast
qed

theorem Collect_reports_health_witness:
  "NewConnect lv_down [] (uri exporter) = Inl (VirError 38 ''connection refused'') \<and>
   Collect lv_down exporter [] =
     (Return (),
      [EvNewConnect ''qemu:///system'' (Inl (VirError 38 ''connection refused'')),
       EvLogPrintf ''Failed to scrape metrics: %s'' (VirError 38 ''connection refused''),
       EvSend (up_metric 0)]) \<and>
   sent [EvNewConnect ''qemu:///system'' (Inl (VirError 38 ''connection refused'')),
       EvLogPrintf ''Failed to scrape metrics: %s'' (VirError 38 ''connection refused''),
       EvSend (up_metric 0)] = [up_metric 0] \<and>
   fqName (metricDesc (up_metric 0)) = ''libvirt_up'' \<and> val (up_metric 0) = 0"
proof -
  have down: "NewConnect lv_down [] (uri exporter) = Inl (VirError 38 ''connection refused'')"
    by (simp add: lv_down_def lv_vm1_def)
  from Collect_reports_health [of lv_down exporter "[]"] down
  have "Collect lv_down exporter [] =
     (Return (),
      [] @ [EvNewConnect (uri exporter) (Inl (VirError 38 ''connection refused'')),
       EvLogPrintf ''Failed to scrape metrics: %s'' (VirError 38 ''connection refused''),
       EvSend (up_metric 0)])"
    by blast
  with down show ?thesis
    by (simp add: exporter_def NewLibvirtExporter_def up_metric_def libvirtUpDesc_def NewDesc_def
        BuildFQName_def)
qed

text \<open>
  C9. Among the metrics that one call of \<open>Collect\<close> sends there is exactly one with
  the descriptor \<^verbatim>\<open>libvirt_up\<close>, whatever the daemon does; its value is 1 when
  \<open>CollectFromLibvirt\<close> returned \<^verbatim>\<open>nil\<close> and 0 otherwise.
\<close>

theorem Collect_one_up:
  "\<exists>u. Collect lv e t = (Return (), t @ u) \<and>
     filter (\<lambda>m. metricDesc m = libvirtUpDesc) (sent u) =
       [up_metric (if fst (CollectFromLibvirt lv (uri e) t) = Return None then 1 else 0)]"
proof -
  obtain r t' where "CollectFromLibvirt lv (uri e) t = (r, t')" by fastforce
  then obtain w where run: "CollectFromLibvirt lv (uri e) t = (r, t @ w)"
    using CollectFromLibvirt_append by blast
  note no_up = CollectFromLibvirt_no_up [OF run]
  from Collect_eq [OF run] obtain res where res: "r = Return res"
    and eq: "Collect lv e t =
       (Return (),
        (t @ w) @ (case res of
                None \<Rightarrow> [EvSend (up_metric 1)]
              | Some err \<Rightarrow>
                  [EvLogPrintf ''Failed to scrape metrics: %s'' err, EvSend (up_metric 0)]))"
    by blast
  show ?thesis
  proof (cases res)
    case None
    with eq have "Collect lv e t = (Return (), t @ (w @ [EvSend (up_metric 1)]))" by simp
    moreover from None res run no_up
    have "filter (\<lambda>m. metricDesc m = libvirtUpDesc) (sent (w @ [EvSend (up_metric 1)])) =
       [up_metric (if fst (CollectFromLibvirt lv (uri e) t) = Return None then 1 else 0)]"
      by (simp add: sent_append up_metric_def)
    ultimately show ?thesis by blast
  next
    case (Some err)
    with eq have "Collect lv e t = (Return (),
        t @ (w @ [EvLogPrintf ''Failed to scrape metrics: %s'' err, EvSend (up_metric 0)]))"
      by simp
    moreover from Some res run no_up
    have "filter (\<lambda>m. metricDesc m = libvirtUpDesc)
        (sent (w @ [EvLogPrintf ''Failed to scrape metrics: %s'' err, EvSend (up_metric 0)])) =
       [up_metric (if fst (CollectFromLibvirt lv (uri e) t) = Return None then 1 else 0)]"
      by (simp add: sent_append up_metric_def)
    ultimately show ?thesis by blast
  qed
qed

lemma CollectFromLibvirt_lv_vm1:
  "CollectFromLibvirt lv_vm1 ''qemu:///system'' [] =
     (Return None,
      [EvNewConnect ''qemu:///system'' (Inr (Connect 1)),
       EvListAllDomains (Connect 1) CONNECT_LIST_DOMAINS_ACTIVE (Inr [Domain 1]),
       EvGetName (Domain 1) (Inr ''vm1''), EvGetXMLDesc (Domain 1) 0 (Inr ''<domain/>''),
       EvBlockStats (Domain 1) ''vda'' (Inr (no_stats\<lparr>RdBytesSet := True, RdBytes := 1024\<rparr>)),
       EvSend \<lparr>metricDesc = libvirtBlockRdBytesDesc, valType = CounterValue, val = 1024,
               labelValues = [''vm1'', ''/a.img'', ''vda'']\<rparr>,
       EvFree (Domain 1), EvClose (Connect 1)])"
  by (simp add: CollectFromLibvirt_def list_and_collect_def CollectDomain_def lv_vm1_def disk_of_def
      report_block_stats_eq block_samples_def sample_def no_stats_def domain_var_def)

theorem Collect_one_up_witness:
  "Collect lv_vm1 exporter [] =
     (Return (),
      [EvNewConnect ''qemu:///system'' (Inr (Connect 1)),
       EvListAllDomains (Connect 1) CONNECT_LIST_DOMAINS_ACTIVE (Inr [Domain 1]),
       EvGetName (Domain 1) (Inr ''vm1''), EvGetXMLDesc (Domain 1) 0 (Inr ''<domain/>''),
       EvBlockStats (Domain 1) ''vda'' (Inr (no_stats\<lparr>RdBytesSet := True, RdBytes := 1024\<rparr>)),
       EvSend \<lparr>metricDesc = libvirtBlockRdBytesDesc, valType = CounterValue, val = 1024,
               labelValues = [''vm1'', ''/a.img'', ''vda'']\<rparr>,
       EvFree (Domain 1), EvClose (Connect 1), EvSend (up_metric 1)]) \<and>
   sent (snd (Collect lv_vm1 exporter [])) =
     [\<lparr>metricDesc = libvirtBlockRdBytesDesc, valType = CounterValue, val = 1024,
               labelValues = [''vm1'', ''/a.img'', ''vda'']\<rparr>, up_metric 1] \<and>
   filter (\<lambda>m. metricDesc m = libvirtUpDesc) (sent (snd (Collect lv_vm1 exporter []))) = [up_metric 1]"
proof -
  have uri: "uri exporter = ''qemu:///system''"
    by (simp add: exporter_def NewLibvirtExporter_def)
  have run: "Collect lv_vm1 exporter [] =
     (Return (),
      [EvNewConnect ''qemu:///system'' (Inr (Connect 1)),
       EvListAllDomains (Connect 1) CONNECT_LIST_DOMAINS_ACTIVE (Inr [Domain 1]),
       EvGetName (Domain 1) (Inr ''vm1''), EvGetXMLDesc (Domain 1) 0 (Inr ''<domain/>''),
       EvBlockStats (Domain 1) ''vda'' (Inr (no_stats\<lparr>RdBytesSet := True, RdBytes := 1024\<rparr>)),
       EvSend \<lparr>metricDesc = libvirtBlockRdBytesDesc, valType = CounterValue, val = 1024,
               labelValues = [''vm1'', ''/a.img'', ''vda'']\<rparr>,
       EvFree (Domain 1), EvClose (Connect 1), EvSend (up_metric 1)])"
    by (simp add: Collect_def uri CollectFromLibvirt_lv_vm1 send_up)
  from Collect_one_up [of lv_vm1 exporter "[]"] obtain u
    where u: "Collect lv_vm1 exporter [] = (Return (), [] @ u)"
      and up: "filter (\<lambda>m. metricDesc m = libvirtUpDesc) (sent u) =
       [up_metric (if fst (CollectFromLibvirt lv_vm1 (uri exporter) []) = Return None then 1 else 0)]"
    by blast
  from up have "filter (\<lambda>m. metricDesc m = libvirtUpDesc) (sent u) = [up_metric 1]"
    by (simp add: uri CollectFromLibvirt_lv_vm1)
  with u run show ?thesis by auto
qed

section \<open>When the enumeration by identifier is used\<close>

lemma domain_event_not_fallback: "domain_event ev \<Longrightarrow> \<not> is_fallback_call ev"
  by (cases ev) simp_all

lemma no_fallback_call_domain:
  "list_all domain_event u \<Longrightarrow> filter is_fallback_call u = []"
  by (induction u) (simp_all add: domain_event_not_fallback)

lemma filter_fallback_replicate_Free: "filter is_fallback_call (replicate k (EvFree d)) = []"
  by (induction k) simp_all

lemma CollectFromLibvirt_lv_rpc:
  "CollectFromLibvirt lv_rpc ''qemu:///system'' [] =
     (Return None,
      [EvNewConnect ''qemu:///system'' (Inr (Connect 1)),
       EvListAllDomains (Connect 1) CONNECT_LIST_DOMAINS_ACTIVE (Inl (VirError ERR_RPC ''broken pipe'')),
       EvListDomains (Connect 1) (Inr []),
       EvClose (Connect 1)])"
  by (simp add: CollectFromLibvirt_def list_and_collect_def lv_rpc_def lv_vm1_def)

text \<open>
  C1. The claim is that only the error that says the bulk listing is unsupported
  starts the enumeration by identifier, and that any other error of the bulk listing
  is returned. The program does not look at the error: with a daemon whose bulk
  listing fails on the transport, the identifiers are listed all the same and the
  call returns \<^verbatim>\<open>nil\<close>.
\<close>

theorem fallback_on_transport_error:
  "ListAllDomains lv_rpc [EvNewConnect ''qemu:///system'' (Inr (Connect 1))] (Connect 1)
      CONNECT_LIST_DOMAINS_ACTIVE = Inl (VirError ERR_RPC ''broken pipe'') \<and>
   ERR_RPC \<noteq> ERR_NO_SUPPORT \<and>
   CollectFromLibvirt lv_rpc ''qemu:///system'' [] =
     (Return None,
      [EvNewConnect ''qemu:///system'' (Inr (Connect 1)),
       EvListAllDomains (Connect 1) CONNECT_LIST_DOMAINS_ACTIVE (Inl (VirError ERR_RPC ''broken pipe'')),
       EvListDomains (Connect 1) (Inr []),
       EvClose (Connect 1)])"
  by (simp add: CollectFromLibvirt_lv_rpc) (simp add: lv_rpc_def lv_vm1_def ERR_RPC_def ERR_NO_SUPPORT_def)

text \<open>
  C1, as the program has it. Once the connection is open, any error of the bulk
  listing starts the enumeration by identifier, and the result of the call is the
  result of that enumeration: the error of the bulk listing is recorded in the trace
  and nowhere else. When the bulk listing succeeds, no call of the enumeration by
  identifier is made.
\<close>

theorem fallback_on_any_error:
  assumes "NewConnect lv t u = Inr conn"
  shows "(\<forall>err0. ListAllDomains lv (t @ [EvNewConnect u (Inr conn)]) conn
              CONNECT_LIST_DOMAINS_ACTIVE = Inl err0 \<longrightarrow>
            CollectFromLibvirt lv u t =
              (case ListDomains lv (t @ [EvNewConnect u (Inr conn),
                      EvListAllDomains conn CONNECT_LIST_DOMAINS_ACTIVE (Inl err0)]) conn of
                 Inl err \<Rightarrow>
                   (Return (Some err),
                    t @ [EvNewConnect u (Inr conn),
                         EvListAllDomains conn CONNECT_LIST_DOMAINS_ACTIVE (Inl err0),
                         EvListDomains conn (Inl err), EvClose conn])
               | Inr domainIds \<Rightarrow>
                   (case collect_by_id lv conn domainIds
                           (t @ [EvNewConnect u (Inr conn),
                                 EvListAllDomains conn CONNECT_LIST_DOMAINS_ACTIVE (Inl err0),
                                 EvListDomains conn (Inr domainIds)]) of
                      (r, t') \<Rightarrow> (r, t' @ [EvClose conn])))) \<and>
         (\<forall>domains. ListAllDomains lv (t @ [EvNewConnect u (Inr conn)]) conn
              CONNECT_LIST_DOMAINS_ACTIVE = Inr domains \<longrightarrow>
            (\<exists>r w. CollectFromLibvirt lv u t = (r, t @ w) \<and> filter is_fallback_call w = []))"
proof (intro conjI allI impI)
  fix err0
  assume "ListAllDomains lv (t @ [EvNewConnect u (Inr conn)]) conn CONNECT_LIST_DOMAINS_ACTIVE = Inl err0"
  with assms show "CollectFromLibvirt lv u t =
              (case ListDomains lv (t @ [EvNewConnect u (Inr conn),
                      EvListAllDomains conn CONNECT_LIST_DOMAINS_ACTIVE (Inl err0)]) conn of
                 Inl err \<Rightarrow>
                   (Return (Some err),
                    t @ [EvNewConnect u (Inr conn),
                         EvListAllDomains conn CONNECT_LIST_DOMAINS_ACTIVE (Inl err0),
                         EvListDomains conn (Inl err), EvClose conn])
               | Inr domainIds \<Rightarrow>
                   (case collect_by_id lv conn domainIds
                           (t @ [EvNewConnect u (Inr conn),
                                 EvListAllDomains conn CONNECT_LIST_DOMAINS_ACTIVE (Inl err0),
                                 EvListDomains conn (Inr domainIds)]) of
                      (r, t') \<Rightarrow> (r, t' @ [EvClose conn])))"
    by (simp add: CollectFromLibvirt_def list_and_collect_def run_defers_eq split: sum.split prod.split)
next
  fix domains
  assume ok: "ListAllDomains lv (t @ [EvNewConnect u (Inr conn)]) conn CONNECT_LIST_DOMAINS_ACTIVE = Inr domains"
  show "\<exists>r w. CollectFromLibvirt lv u t = (r, t @ w) \<and> filter is_fallback_call w = []"
  proof (cases rule: CollectFromLibvirt_cases [of lv t u])
    case (bulk conn' ds r1 t1)
    with assms ok have same: "conn' = conn" "ds = domains" by simp_all
    let ?t0 = "t @ [EvNewConnect u (Inr conn), EvListAllDomains conn CONNECT_LIST_DOMAINS_ACTIVE (Inr domains)]"
    from bulk(3) same obtain u1 where t1: "t1 = ?t0 @ u1" using collect_all_append by blast
    with bulk(3) same have "collect_all lv domains ?t0 = (r1, ?t0 @ u1)" by simp
    from no_fallback_call_domain [OF collect_all_events [OF this]] bulk(4) same t1
    show ?thesis by (simp add: filter_fallback_replicate_Free)
  qed (use assms ok in auto)
qed

lemma collect_by_id_lv_old:
  "collect_by_id lv_old (Connect 1) [3, 7, 9]
      [EvNewConnect ''qemu:///system'' (Inr (Connect 1)),
       EvListAllDomains (Connect 1) CONNECT_LIST_DOMAINS_ACTIVE (Inl (VirError ERR_NO_SUPPORT ''not supported'')),
       EvListDomains (Connect 1) (Inr [3, 7, 9])] =
     (Return None,
      [EvNewConnect ''qemu:///system'' (Inr (Connect 1)),
       EvListAllDomains (Connect 1) CONNECT_LIST_DOMAINS_ACTIVE (Inl (VirError ERR_NO_SUPPORT ''not supported'')),
       EvListDomains (Connect 1) (Inr [3, 7, 9]),
       EvLookupDomainById (Connect 1) 3 (Inr (Domain 3)),
       EvGetName (Domain 3) (Inr ''vm1''), EvGetXMLDesc (Domain 3) 0 (Inr ''<domain/>''),
       EvFree (Domain 3),
       EvLookupDomainById (Connect 1) 7 (Inl (VirError 42 ''no domain'')),
       EvLookupDomainById (Connect 1) 9 (Inr (Domain 9)),
       EvGetName (Domain 9) (Inr ''vm1''), EvGetXMLDesc (Domain 9) 0 (Inr ''<domain/>''),
       EvFree (Domain 9)])"
  by (simp add: CollectDomain_def lv_old_def lv_vm1_def)

theorem fallback_on_any_error_witness:
  "NewConnect lv_old [] ''qemu:///system'' = Inr (Connect 1) \<and>
   ListAllDomains lv_old ([] @ [EvNewConnect ''qemu:///system'' (Inr (Connect 1))]) (Connect 1)
      CONNECT_LIST_DOMAINS_ACTIVE = Inl (VirError ERR_NO_SUPPORT ''not supported'') \<and>
   CollectFromLibvirt lv_old ''qemu:///system'' [] =
     (Return None,
      [EvNewConnect ''qemu:///system'' (Inr (Connect 1)),
       EvListAllDomains (Connect 1) CONNECT_LIST_DOMAINS_ACTIVE (Inl (VirError ERR_NO_SUPPORT ''not supported'')),
       EvListDomains (Connect 1) (Inr [3, 7, 9]),
       EvLookupDomainById (Connect 1) 3 (Inr (Domain 3)),
       EvGetName (Domain 3) (Inr ''vm1''), EvGetXMLDesc (Domain 3) 0 (Inr ''<domain/>''),
       EvFree (Domain 3),
       EvLookupDomainById (Connect 1) 7 (Inl (VirError 42 ''no domain'')),
       EvLookupDomainById (Connect 1) 9 (Inr (Domain 9)),
       EvGetName (Domain 9) (Inr ''vm1''), EvGetXMLDesc (Domain 9) 0 (Inr ''<domain/>''),
       EvFree (Domain 9),
       EvClose (Connect 1)]) \<and>
   NewConnect lv_vm1 [] ''qemu:///system'' = Inr (Connect 1) \<and>
   ListAllDomains lv_vm1 ([] @ [EvNewConnect ''qemu:///system'' (Inr (Connect 1))]) (Connect 1)
      CONNECT_LIST_DOMAINS_ACTIVE = Inr [Domain 1] \<and>
   (\<exists>r w. CollectFromLibvirt lv_vm1 ''qemu:///system'' [] = (r, [] @ w) \<and>
      filter is_fallback_call w = [])"
proof -
  have c_old: "NewConnect lv_old [] ''qemu:///system'' = Inr (Connect 1)"
    and l_old: "ListAllDomains lv_old ([] @ [EvNewConnect ''qemu:///system'' (Inr (Connect 1))])
      (Connect 1) CONNECT_LIST_DOMAINS_ACTIVE = Inl (VirError ERR_NO_SUPPORT ''not supported'')"
    and i_old: "ListDomains lv_old ([] @ [EvNewConnect ''qemu:///system'' (Inr (Connect 1)),
      EvListAllDomains (Connect 1) CONNECT_LIST_DOMAINS_ACTIVE (Inl (VirError ERR_NO_SUPPORT ''not supported''))])
      (Connect 1) = Inr [3, 7, 9]"
    by (simp_all add: lv_old_def lv_vm1_def)
  have c_vm1: "NewConnect lv_vm1 [] ''qemu:///system'' = Inr (Connect 1)"
    and l_vm1: "ListAllDomains lv_vm1 ([] @ [EvNewConnect ''qemu:///system'' (Inr (Connect 1))])
      (Connect 1) CONNECT_LIST_DOMAINS_ACTIVE = Inr [Domain 1]"
    by (simp_all add: lv_vm1_def)
  from fallback_on_any_error [OF c_old] l_old i_old
  have "CollectFromLibvirt lv_old ''qemu:///system'' [] =
     (case collect_by_id lv_old (Connect 1) [3, 7, 9]
        ([] @ [EvNewConnect ''qemu:///system'' (Inr (Connect 1)),
         EvListAllDomains (Connect 1) CONNECT_LIST_DOMAINS_ACTIVE (Inl (VirError ERR_NO_SUPPORT ''not supported'')),
         EvListDomains (Connect 1) (Inr [3, 7, 9])]) of
        (r, t') \<Rightarrow> (r, t' @ [EvClose (Connect 1)]))"
    by (simp del: collect_by_id.simps One_nat_def)
  then have "CollectFromLibvirt lv_old ''qemu:///system'' [] =
     (Return None,
      [EvNewConnect ''qemu:///system'' (Inr (Connect 1)),
       EvListAllDomains (Connect 1) CONNECT_LIST_DOMAINS_ACTIVE (Inl (VirError ERR_NO_SUPPORT ''not supported'')),
       EvListDomains (Connect 1) (Inr [3, 7, 9]),
       EvLookupDomainById (Connect 1) 3 (Inr (Domain 3)),
       EvGetName (Domain 3) (Inr ''vm1''), EvGetXMLDesc (Domain 3) 0 (Inr ''<domain/>''),
       EvFree (Domain 3),
       EvLookupDomainById (Connect 1) 7 (Inl (VirError 42 ''no domain'')),
       EvLookupDomainById (Connect 1) 9 (Inr (Domain 9)),
       EvGetName (Domain 9) (Inr ''vm1''), EvGetXMLDesc (Domain 9) 0 (Inr ''<domain/>''),
       EvFree (Domain 9),
       EvClose (Connect 1)])"
    by (simp add: collect_by_id_lv_old del: collect_by_id.simps One_nat_def)
  moreover from fallback_on_any_error [OF c_vm1] l_vm1
  have "\<exists>r w. CollectFromLibvirt lv_vm1 ''qemu:///system'' [] = (r, [] @ w) \<and>
      filter is_fallback_call w = []"
    by blast
  ultimately show ?thesis using c_old l_old c_vm1 l_vm1
    by simp
qed

section \<open>The enumeration by identifier\<close>

lemma collected_append: "collected (xs @ ys) = collected xs @ collected ys"
  by (induction xs rule: collected.induct) simp_all

lemma looked_up_append: "looked_up (xs @ ys) = looked_up xs @ looked_up ys"
  by (induction xs rule: looked_up.induct) simp_all

lemma freed_append: "freed (xs @ ys) = freed xs @ freed ys"
  by (induction xs rule: freed.induct) simp_all

lemma domain_event_no_handles:
  "list_all domain_event u \<Longrightarrow> looked_up u = [] \<and> freed u = []"
proof (induction u)
  case Nil
  then show ?case by simp
next
  case (Cons ev u)
  then show ?case by (cases ev) simp_all
qed

lemma collected_sends: "collected (map EvSend ms) = []"
  by (induction ms) simp_all

lemma collect_disks_collected:
  "collect_disks lv d n ds t = (r, t @ u) \<Longrightarrow> collected u = []"
proof (induction ds arbitrary: t u)
  case Nil
  then show ?case by simp
next
  case (Cons disk ds)
  show ?case
  proof (cases "BlockStats lv t d (Device (Target disk))")
    case (Inl err)
    with Cons.prems show ?thesis by auto
  next
    case (Inr st)
    let ?t1 = "t @ EvBlockStats d (Device (Target disk)) (Inr st) # map EvSend (block_samples n disk st)"
    from Inr Cons.prems(1) have run: "collect_disks lv d n ds ?t1 = (r, t @ u)"
      by (simp add: report_block_stats_eq)
    then obtain u' where u': "t @ u = ?t1 @ u'"
      using collect_disks_append by blast
    then have u: "u = EvBlockStats d (Device (Target disk)) (Inr st) # map EvSend (block_samples n disk st) @ u'"
      by simp
    from run u' have "collect_disks lv d n ds ?t1 = (r, ?t1 @ u')" by simp
    from Cons.IH [OF this] u show ?thesis by (simp add: collected_append collected_sends)
  qed
qed

lemma CollectDomain_collected:
  assumes "CollectDomain lv d t = (r, t @ u)"
  shows "collected u = [d]"
proof (cases rule: CollectDomain_cases [of lv t d])
  case (disks n xml desc)
  let ?t2 = "t @ [EvGetName d (Inr n), EvGetXMLDesc d 0 (Inr xml)]"
  from disks assms have run: "collect_disks lv d n (Disks (Devices desc)) ?t2 = (r, t @ u)"
    by simp
  then obtain u' where u': "t @ u = ?t2 @ u'"
    using collect_disks_append by blast
  then have u: "u = EvGetName d (Inr n) # EvGetXMLDesc d 0 (Inr xml) # u'" by simp
  from run u' have "collect_disks lv d n (Disks (Devices desc)) ?t2 = (r, ?t2 @ u')" by simp
  from collect_disks_collected [OF this] u show ?thesis by simp
qed (use assms in auto)

lemma collect_by_id_handles:
  "collect_by_id lv conn ids t = (r, t @ u) \<Longrightarrow>
   collected u = looked_up u \<and> freed u = looked_up u"
proof (induction ids arbitrary: t u)
  case Nil
  then show ?case by simp
next
  case (Cons i ids)
  show ?case
  proof (cases "LookupDomainById lv t conn i")
    case (Inl err)
    let ?t0 = "t @ [EvLookupDomainById conn i (Inl err)]"
    from Inl Cons.prems have rest: "collect_by_id lv conn ids ?t0 = (r, t @ u)" by simp
    then obtain u2 where "t @ u = ?t0 @ u2" using collect_by_id_append by blast
    then have u: "u = EvLookupDomainById conn i (Inl err) # u2" by simp
    with rest have "collect_by_id lv conn ids ?t0 = (r, ?t0 @ u2)" by simp
    from Cons.IH [OF this] u show ?thesis by simp
  next
    case (Inr d)
    let ?t0 = "t @ [EvLookupDomainById conn i (Inr d)]"
    obtain r1 t1 where "CollectDomain lv d ?t0 = (r1, t1)" by fastforce
    then obtain u1 where run: "CollectDomain lv d ?t0 = (r1, ?t0 @ u1)"
      using CollectDomain_append by blast
    from domain_event_no_handles [OF CollectDomain_events [OF run]] CollectDomain_collected [OF run]
    have h1: "collected u1 = [d]" "looked_up u1 = []" "freed u1 = []" by simp_all
    from CollectDomain_Return [OF run] obtain e where r1: "r1 = Return e" ..
    show ?thesis
    proof (cases e)
      case None
      let ?t2 = "?t0 @ u1 @ [EvFree d]"
      from None Cons.prems Inr run r1 have rest: "collect_by_id lv conn ids ?t2 = (r, t @ u)" by simp
      then obtain u2 where "t @ u = ?t2 @ u2" using collect_by_id_append by blast
      then have u: "u = EvLookupDomainById conn i (Inr d) # u1 @ EvFree d # u2" by simp
      with rest have "collect_by_id lv conn ids ?t2 = (r, ?t2 @ u2)" by simp
      from Cons.IH [OF this] h1 u show ?thesis
        by (simp add: collected_append looked_up_append freed_append)
    next
      case (Some err)
      with Cons.prems Inr run r1 have "u = EvLookupDomainById conn i (Inr d) # u1 @ [EvFree d]"
        by simp
      with h1 show ?thesis by (simp add: collected_append looked_up_append freed_append)
    qed
  qed
qed











section \<open>A failed query of block statistics\<close>

text \<open>
  The invariant \<open>fail_fast\<close> holds of every level of the program: in the events a
  run adds, a failed query of block statistics has no failed query before it, is
  followed by releases only, and its error is the result of the run.
\<close>

lemma fail_fast_Nil: "fail_fast r []"
  by (simp add: fail_fast_def)

lemma fail_fast_failed:
  assumes p: "\<forall>d dev e. EvBlockStats d dev (Inl e) \<notin> set p" and rel: "list_all is_release rel"
  shows "fail_fast (Return (Some err)) (p @ EvBlockStats d dev (Inl err) # rel)"
  unfolding fail_fast_def
proof (intro allI impI)
  fix d' dev' e'
  assume mem: "EvBlockStats d' dev' (Inl e') \<in> set (p @ EvBlockStats d dev (Inl err) # rel)"
  have "\<not> is_release (EvBlockStats d' dev' (Inl e'))" by simp
  with rel have "EvBlockStats d' dev' (Inl e') \<notin> set rel"
    by (auto simp: list_all_iff)
  with mem p have "d' = d" "dev' = dev" "e' = err" by auto
  with p rel show "Return (Some err) = Return (Some e') \<and>
      (\<exists>u0 rel'. p @ EvBlockStats d dev (Inl err) # rel = u0 @ EvBlockStats d' dev' (Inl e') # rel' \<and>
         list_all is_release rel' \<and> (\<forall>d' dev' e'. EvBlockStats d' dev' (Inl e') \<notin> set u0))"
    by blast
qed

lemma fail_fast_prefix:
  assumes "fail_fast r u" and "\<forall>d dev e. EvBlockStats d dev (Inl e) \<notin> set p"
  shows "fail_fast r (p @ u)"
  unfolding fail_fast_def
proof (intro allI impI)
  fix d dev e
  assume "EvBlockStats d dev (Inl e) \<in> set (p @ u)"
  with assms(2) have "EvBlockStats d dev (Inl e) \<in> set u" by simp
  with assms(1) obtain u0 rel where "r = Return (Some e)"
    "u = u0 @ EvBlockStats d dev (Inl e) # rel" "list_all is_release rel"
    "\<forall>d' dev' e'. EvBlockStats d' dev' (Inl e') \<notin> set u0"
    unfolding fail_fast_def by blast
  with assms(2) have "r = Return (Some e) \<and> p @ u = (p @ u0) @ EvBlockStats d dev (Inl e) # rel \<and>
      list_all is_release rel \<and> (\<forall>d' dev' e'. EvBlockStats d' dev' (Inl e') \<notin> set (p @ u0))"
    by simp
  then show "r = Return (Some e) \<and>
      (\<exists>u0 rel. p @ u = u0 @ EvBlockStats d dev (Inl e) # rel \<and> list_all is_release rel \<and>
         (\<forall>d' dev' e'. EvBlockStats d' dev' (Inl e') \<notin> set u0))"
    by blast
qed

lemma fail_fast_suffix:
  assumes "fail_fast r u" and "list_all is_release s"
  shows "fail_fast r (u @ s)"
  unfolding fail_fast_def
proof (intro allI impI)
  fix d dev e
  assume mem: "EvBlockStats d dev (Inl e) \<in> set (u @ s)"
  have "\<not> is_release (EvBlockStats d dev (Inl e))" by simp
  with assms(2) have "EvBlockStats d dev (Inl e) \<notin> set s"
    by (auto simp: list_all_iff)
  with mem have "EvBlockStats d dev (Inl e) \<in> set u" by simp
  with assms(1) obtain u0 rel where "r = Return (Some e)"
    "u = u0 @ EvBlockStats d dev (Inl e) # rel" "list_all is_release rel"
    "\<forall>d' dev' e'. EvBlockStats d' dev' (Inl e') \<notin> set u0"
    unfolding fail_fast_def by blast
  with assms(2) have "r = Return (Some e) \<and> u @ s = u0 @ EvBlockStats d dev (Inl e) # (rel @ s) \<and>
      list_all is_release (rel @ s) \<and> (\<forall>d' dev' e'. EvBlockStats d' dev' (Inl e') \<notin> set u0)"
    by simp
  then show "r = Return (Some e) \<and>
      (\<exists>u0 rel. u @ s = u0 @ EvBlockStats d dev (Inl e) # rel \<and> list_all is_release rel \<and>
         (\<forall>d' dev' e'. EvBlockStats d' dev' (Inl e') \<notin> set u0))"
    by blast
qed

lemma fail_fast_None:
  "fail_fast (Return None) u \<Longrightarrow> \<forall>d dev e. EvBlockStats d dev (Inl e) \<notin> set u"
  unfolding fail_fast_def by auto

lemma fail_fast_other_error:
  "\<forall>d dev e. EvBlockStats d dev (Inl e) \<notin> set u \<Longrightarrow> fail_fast r u"
  unfolding fail_fast_def by simp

lemma collect_disks_fail_fast:
  "collect_disks lv d n ds t = (r, t @ u) \<Longrightarrow> fail_fast r u"
proof (induction ds arbitrary: t u)
  case Nil
  then show ?case by (simp add: fail_fast_Nil)
next
  case (Cons disk ds)
  show ?case
  proof (cases "BlockStats lv t d (Device (Target disk))")
    case (Inl err)
    with Cons.prems have "r = Return (Some err)" "u = [] @ EvBlockStats d (Device (Target disk)) (Inl err) # []"
      by auto
    then show ?thesis using fail_fast_failed [of "[]" "[]"] by simp
  next
    case (Inr st)
    let ?t1 = "t @ EvBlockStats d (Device (Target disk)) (Inr st) # map EvSend (block_samples n disk st)"
    from Inr Cons.prems(1) have run: "collect_disks lv d n ds ?t1 = (r, t @ u)"
      by (simp add: report_block_stats_eq)
    then obtain u' where u': "t @ u = ?t1 @ u'"
      using collect_disks_append by blast
    then have u: "u = (EvBlockStats d (Device (Target disk)) (Inr st) # map EvSend (block_samples n disk st)) @ u'"
      by simp
    from run u' have "collect_disks lv d n ds ?t1 = (r, ?t1 @ u')" by simp
    from Cons.IH [OF this] have "fail_fast r u'" .
    then show ?thesis unfolding u by (rule fail_fast_prefix) auto
  qed
qed

lemma fail_fast_CollectDomain:
  assumes "CollectDomain lv d t = (r, t @ u)"
  shows "fail_fast r u"
proof (cases rule: CollectDomain_cases [of lv t d])
  case (name_err err)
  with assms show ?thesis by (auto intro: fail_fast_other_error)
next
  case (xml_err n err)
  with assms show ?thesis by (auto intro: fail_fast_other_error)
next
  case (parse_err n xml err)
  with assms show ?thesis by (auto intro: fail_fast_other_error)
next
  case (disks n xml desc)
  let ?t2 = "t @ [EvGetName d (Inr n), EvGetXMLDesc d 0 (Inr xml)]"
  from disks assms have run: "collect_disks lv d n (Disks (Devices desc)) ?t2 = (r, t @ u)"
    by simp
  then obtain u' where u': "t @ u = ?t2 @ u'"
    using collect_disks_append by blast
  then have u: "u = [EvGetName d (Inr n), EvGetXMLDesc d 0 (Inr xml)] @ u'" by simp
  from run u' have "collect_disks lv d n (Disks (Devices desc)) ?t2 = (r, ?t2 @ u')" by simp
  from collect_disks_fail_fast [OF this] show ?thesis
    unfolding u by (rule fail_fast_prefix) auto
qed

lemma collect_all_fail_fast:
  "collect_all lv ds t = (r, t @ u) \<Longrightarrow> fail_fast r u"
proof (induction ds arbitrary: t u)
  case Nil
  then show ?case by (simp add: fail_fast_Nil)
next
  case (Cons d ds)
  obtain r1 t1 where "CollectDomain lv d t = (r1, t1)" by fastforce
  then obtain u1 where run: "CollectDomain lv d t = (r1, t @ u1)"
    using CollectDomain_append by blast
  note ff1 = fail_fast_CollectDomain [OF run]
  from CollectDomain_Return [OF run] obtain e where r1: "r1 = Return e" ..
  show ?case
  proof (cases e)
    case None
    with Cons.prems run r1 have rest: "collect_all lv ds (t @ u1) = (r, t @ u)" by simp
    then obtain u2 where "t @ u = (t @ u1) @ u2" using collect_all_append by blast
    then have u: "u = u1 @ u2" by simp
    with rest have "collect_all lv ds (t @ u1) = (r, (t @ u1) @ u2)" by simp
    from Cons.IH [OF this] have "fail_fast r u2" .
    moreover from ff1 r1 None have "\<forall>d dev e. EvBlockStats d dev (Inl e) \<notin> set u1"
      by (simp add: fail_fast_None)
    ultimately show ?thesis unfolding u by (rule fail_fast_prefix)
  next
    case (Some err)
    with Cons.prems run r1 ff1 show ?thesis by auto
  qed
qed

lemma collect_by_id_fail_fast:
  "collect_by_id lv conn ids t = (r, t @ u) \<Longrightarrow> fail_fast r u"
proof (induction ids arbitrary: t u)
  case Nil
  then show ?case by (simp add: fail_fast_Nil)
next
  case (Cons i ids)
  show ?case
  proof (cases "LookupDomainById lv t conn i")
    case (Inl err)
    let ?t0 = "t @ [EvLookupDomainById conn i (Inl err)]"
    from Inl Cons.prems have rest: "collect_by_id lv conn ids ?t0 = (r, t @ u)" by simp
    then obtain u2 where "t @ u = ?t0 @ u2" using collect_by_id_append by blast
    then have u: "u = [EvLookupDomainById conn i (Inl err)] @ u2" by simp
    with rest have "collect_by_id lv conn ids ?t0 = (r, ?t0 @ u2)" by simp
    from Cons.IH [OF this] show ?thesis
      unfolding u by (rule fail_fast_prefix) auto
  next
    case (Inr d)
    let ?t0 = "t @ [EvLookupDomainById conn i (Inr d)]"
    obtain r1 t1 where "CollectDomain lv d ?t0 = (r1, t1)" by fastforce
    then obtain u1 where run: "CollectDomain lv d ?t0 = (r1, ?t0 @ u1)"
      using CollectDomain_append by blast
    note ff1 = fail_fast_CollectDomain [OF run]
    from CollectDomain_Return [OF run] obtain e where r1: "r1 = Return e" ..
    show ?thesis
    proof (cases e)
      case None
      let ?t2 = "?t0 @ u1 @ [EvFree d]"
      from None Cons.prems Inr run r1 have rest: "collect_by_id lv conn ids ?t2 = (r, t @ u)" by simp
      then obtain u2 where "t @ u = ?t2 @ u2" using collect_by_id_append by blast
      then have u: "u = (EvLookupDomainById conn i (Inr d) # u1 @ [EvFree d]) @ u2" by simp
      with rest have "collect_by_id lv conn ids ?t2 = (r, ?t2 @ u2)" by simp
      from Cons.IH [OF this] have "fail_fast r u2" .
      moreover from ff1 r1 None have "\<forall>d dev e. EvBlockStats d dev (Inl e) \<notin> set u1"
        by (simp add: fail_fast_None)
      then have "\<forall>d' dev e. EvBlockStats d' dev (Inl e) \<notin> set (EvLookupDomainById conn i (Inr d) # u1 @ [EvFree d])"
        by simp
      ultimately show ?thesis unfolding u by (rule fail_fast_prefix)
    next
      case (Some err)
      with Cons.prems Inr run r1 have r: "r = r1"
        and u: "u = [EvLookupDomainById conn i (Inr d)] @ (u1 @ [EvFree d])"
        by simp_all
      from ff1 have "fail_fast r1 (u1 @ [EvFree d])"
        by (rule fail_fast_suffix) simp
      then show ?thesis unfolding u r by (rule fail_fast_prefix) simp
    qed
  qed
qed

lemma list_all_release_replicate: "list_all is_release (replicate k (EvFree d))"
  by (induction k) simp_all

lemma CollectFromLibvirt_fail_fast:
  assumes "CollectFromLibvirt lv u t = (r, t @ w)"
  shows "fail_fast r w"
proof (cases rule: CollectFromLibvirt_cases [of lv t u])
  case (no_conn err)
  with assms show ?thesis by (auto intro: fail_fast_other_error)
next
  case (bulk conn ds r1 t1)
  let ?t0 = "t @ [EvNewConnect u (Inr conn), EvListAllDomains conn CONNECT_LIST_DOMAINS_ACTIVE (Inr ds)]"
  from bulk(3) obtain u1 where t1: "t1 = ?t0 @ u1" using collect_all_append by blast
  with bulk(3) have "collect_all lv ds ?t0 = (r1, ?t0 @ u1)" by simp
  from collect_all_fail_fast [OF this]
  have "fail_fast r1 (u1 @ (replicate (length ds) (EvFree (last ds)) @ [EvClose conn]))"
    by (rule fail_fast_suffix) (simp add: list_all_release_replicate)
  then have "fail_fast r1 ([EvNewConnect u (Inr conn),
      EvListAllDomains conn CONNECT_LIST_DOMAINS_ACTIVE (Inr ds)] @
      (u1 @ (replicate (length ds) (EvFree (last ds)) @ [EvClose conn])))"
    by (rule fail_fast_prefix) simp
  with bulk(4) assms t1 show ?thesis by simp
next
  case (no_ids conn err0 err)
  with assms show ?thesis by (auto intro: fail_fast_other_error)
next
  case (by_id conn err0 ids r1 t1)
  let ?t0 = "t @ [EvNewConnect u (Inr conn), EvListAllDomains conn CONNECT_LIST_DOMAINS_ACTIVE (Inl err0),
         EvListDomains conn (Inr ids)]"
  from by_id(4) obtain u1 where t1: "t1 = ?t0 @ u1" using collect_by_id_append by blast
  with by_id(4) have "collect_by_id lv conn ids ?t0 = (r1, ?t0 @ u1)" by simp
  from collect_by_id_fail_fast [OF this]
  have "fail_fast r1 (u1 @ [EvClose conn])"
    by (rule fail_fast_suffix) simp
  then have "fail_fast r1 ([EvNewConnect u (Inr conn),
      EvListAllDomains conn CONNECT_LIST_DOMAINS_ACTIVE (Inl err0), EvListDomains conn (Inr ids)] @
      (u1 @ [EvClose conn]))"
    by (rule fail_fast_prefix) simp
  with by_id(5) assms t1 show ?thesis by simp
qed

lemma collect_disks_app:
  "collect_disks lv d n xs t = (Return None, t1) \<Longrightarrow>
   collect_disks lv d n (xs @ ys) t = collect_disks lv d n ys t1"
proof (induction xs arbitrary: t)
  case Nil
  then show ?case by simp
next
  case (Cons disk xs)
  show ?case
  proof (cases "BlockStats lv t d (Device (Target disk))")
    case (Inl err)
    with Cons.prems show ?thesis by simp
  next
    case (Inr st)
    let ?t1 = "t @ EvBlockStats d (Device (Target disk)) (Inr st) # map EvSend (block_samples n disk st)"
    from Inr Cons.prems have "collect_disks lv d n xs ?t1 = (Return None, t1)"
      by (simp add: report_block_stats_eq)
    from Cons.IH [OF this] Inr show ?thesis
      by (simp add: report_block_stats_eq)
  qed
qed

lemma Collect_after_failed_stats:
  assumes "Collect lv e t0 = (r, t0 @ w @ EvBlockStats d dev (Inl err) # v)"
  shows "r = Return () \<and>
    (\<exists>rel. list_all is_release rel \<and>
       v = rel @ [EvLogPrintf ''Failed to scrape metrics: %s'' err, EvSend (up_metric 0)])"
proof -
  let ?ev = "EvBlockStats d dev (Inl err)"
  obtain r1 t1 where "CollectFromLibvirt lv (uri e) t0 = (r1, t1)" by fastforce
  then obtain w0 where run: "CollectFromLibvirt lv (uri e) t0 = (r1, t0 @ w0)"
    using CollectFromLibvirt_append by blast
  from Collect_eq [OF run] obtain res where res: "r1 = Return res"
    and eq: "Collect lv e t0 =
       (Return (),
        (t0 @ w0) @ (case res of
                None \<Rightarrow> [EvSend (up_metric 1)]
              | Some err \<Rightarrow>
                  [EvLogPrintf ''Failed to scrape metrics: %s'' err, EvSend (up_metric 0)]))"
    by blast
  let ?tail = "case res of None \<Rightarrow> [EvSend (up_metric 1)]
      | Some err \<Rightarrow> [EvLogPrintf ''Failed to scrape metrics: %s'' err, EvSend (up_metric 0)]"
  from eq assms have r: "r = Return ()" and tr: "w @ ?ev # v = w0 @ ?tail"
    by simp_all
  have "?ev \<notin> set ?tail" by (cases res) simp_all
  moreover have "?ev \<in> set (w @ ?ev # v)" by simp
  ultimately have "?ev \<in> set w0" unfolding tr by simp
  with CollectFromLibvirt_fail_fast [OF run] obtain u0 rel
    where r1: "r1 = Return (Some err)" and w0: "w0 = u0 @ ?ev # rel"
      and rel: "list_all is_release rel"
      and u0: "\<forall>d' dev' e'. EvBlockStats d' dev' (Inl e') \<notin> set u0"
    unfolding fail_fast_def by blast
  from r1 res have tail: "?tail = [EvLogPrintf ''Failed to scrape metrics: %s'' err, EvSend (up_metric 0)]"
    by simp
  have "\<not> is_release ?ev" by simp
  with rel have "?ev \<notin> set rel" by (auto simp: list_all_iff)
  then have notin: "?ev \<notin> set (rel @ [EvLogPrintf ''Failed to scrape metrics: %s'' err, EvSend (up_metric 0)])"
    by simp
  from tr w0 tail have "u0 @ ?ev # (rel @ [EvLogPrintf ''Failed to scrape metrics: %s'' err, EvSend (up_metric 0)])
      = w @ ?ev # v"
    by simp
  with u0 notin have "v = rel @ [EvLogPrintf ''Failed to scrape metrics: %s'' err, EvSend (up_metric 0)]"
    by (simp add: append_Cons_eq_iff)
  with r rel show ?thesis by blast
qed

text \<open>
  C4. Take a domain whose name and descriptor are read and parsed, and a disk of the
  descriptor such that the disks before it are processed without error, up to the
  trace \<open>tk\<close>, and the query of its block statistics fails. Then \<open>CollectDomain\<close>
  returns the error of that query, and its trace is \<open>tk\<close> followed by the failed
  query: what was sent for the disks before stays, and nothing is asked or sent for
  the disks after. And in any run of \<open>Collect\<close> in which this failed query occurs, what
  follows it is releases of handles and of the connection, the log line with this
  error, and the gauge \<^verbatim>\<open>libvirt_up\<close> with value 0.
\<close>

theorem CollectDomain_fail_fast:
  assumes "GetName lv t domain = Inr name"
    and "GetXMLDesc lv (t @ [EvGetName domain (Inr name)]) domain 0 = Inr xml"
    and "Unmarshal lv xml = Inr desc"
    and "Disks (Devices desc) = before @ disk # after"
    and "collect_disks lv domain name before
           (t @ [EvGetName domain (Inr name), EvGetXMLDesc domain 0 (Inr xml)]) = (Return None, tk)"
    and "BlockStats lv tk domain (Device (Target disk)) = Inl err"
  shows "CollectDomain lv domain t =
      (Return (Some err), tk @ [EvBlockStats domain (Device (Target disk)) (Inl err)]) \<and>
    (\<forall>e t0 r w v.
       Collect lv e t0 =
         (r, t0 @ w @ EvBlockStats domain (Device (Target disk)) (Inl err) # v) \<longrightarrow>
       r = Return () \<and>
       (\<exists>rel. list_all is_release rel \<and>
          v = rel @ [EvLogPrintf ''Failed to scrape metrics: %s'' err, EvSend (up_metric 0)]))"
proof -
  from assms(1-4) have "CollectDomain lv domain t =
      collect_disks lv domain name (before @ disk # after)
        (t @ [EvGetName domain (Inr name), EvGetXMLDesc domain 0 (Inr xml)])"
    by (simp add: CollectDomain_def)
  also from collect_disks_app [OF assms(5)]
  have "\<dots> = collect_disks lv domain name (disk # after) tk" .
  also from assms(6)
  have "\<dots> = (Return (Some err), tk @ [EvBlockStats domain (Device (Target disk)) (Inl err)])"
    by simp
  finally show ?thesis using Collect_after_failed_stats by blast
qed

theorem CollectDomain_fail_fast_witness:
  "Disks (Devices \<lparr>Devices = \<lparr>Disks = [disk_of ''/a.img'' ''vda'', disk_of ''/b.img'' ''vdb'',
      disk_of ''/c.img'' ''vdc'']\<rparr>\<rparr>) =
     [disk_of ''/a.img'' ''vda''] @ disk_of ''/b.img'' ''vdb'' # [disk_of ''/c.img'' ''vdc''] \<and>
   CollectDomain lv_three_disks (Domain 1) [] =
     (Return (Some (VirError 1 ''no such device'')),
      [EvGetName (Domain 1) (Inr ''vm1''), EvGetXMLDesc (Domain 1) 0 (Inr ''<domain/>''),
       EvBlockStats (Domain 1) ''vda'' (Inr (no_stats\<lparr>RdBytesSet := True, RdBytes := 1024\<rparr>)),
       EvSend \<lparr>metricDesc = libvirtBlockRdBytesDesc, valType = CounterValue, val = 1024,
               labelValues = [''vm1'', ''/a.img'', ''vda'']\<rparr>,
       EvBlockStats (Domain 1) ''vdb'' (Inl (VirError 1 ''no such device''))]) \<and>
   Collect lv_three_disks exporter [] =
     (Return (),
      [EvNewConnect ''qemu:///system'' (Inr (Connect 1)),
       EvListAllDomains (Connect 1) CONNECT_LIST_DOMAINS_ACTIVE (Inr [Domain 1]),
       EvGetName (Domain 1) (Inr ''vm1''), EvGetXMLDesc (Domain 1) 0 (Inr ''<domain/>''),
       EvBlockStats (Domain 1) ''vda'' (Inr (no_stats\<lparr>RdBytesSet := True, RdBytes := 1024\<rparr>)),
       EvSend \<lparr>metricDesc = libvirtBlockRdBytesDesc, valType = CounterValue, val = 1024,
               labelValues = [''vm1'', ''/a.img'', ''vda'']\<rparr>,
       EvBlockStats (Domain 1) ''vdb'' (Inl (VirError 1 ''no such device'')),
       EvFree (Domain 1), EvClose (Connect 1),
       EvLogPrintf ''Failed to scrape metrics: %s'' (VirError 1 ''no such device''),
       EvSend (up_metric 0)]) \<and>
   (\<exists>rel. list_all is_release rel \<and>
      [EvFree (Domain 1), EvClose (Connect 1),
       EvLogPrintf ''Failed to scrape metrics: %s'' (VirError 1 ''no such device''),
       EvSend (up_metric 0)] =
      rel @ [EvLogPrintf ''Failed to scrape metrics: %s'' (VirError 1 ''no such device''),
             EvSend (up_metric 0)])"
proof -
  let ?tk = "[EvGetName (Domain 1) (Inr ''vm1''), EvGetXMLDesc (Domain 1) 0 (Inr ''<domain/>''),
       EvBlockStats (Domain 1) ''vda'' (Inr (no_stats\<lparr>RdBytesSet := True, RdBytes := 1024\<rparr>)),
       EvSend \<lparr>metricDesc = libvirtBlockRdBytesDesc, valType = CounterValue, val = 1024,
               labelValues = [''vm1'', ''/a.img'', ''vda'']\<rparr>]"
  have h1: "GetName lv_three_disks [] (Domain 1) = Inr ''vm1''"
    and h2: "GetXMLDesc lv_three_disks ([] @ [EvGetName (Domain 1) (Inr ''vm1'')]) (Domain 1) 0 =
      Inr ''<domain/>''"
    and h3: "Unmarshal lv_three_disks ''<domain/>'' = Inr \<lparr>Devices = \<lparr>Disks =
      [disk_of ''/a.img'' ''vda'', disk_of ''/b.img'' ''vdb'', disk_of ''/c.img'' ''vdc'']\<rparr>\<rparr>"
    and h6: "BlockStats lv_three_disks ?tk (Domain 1) (Device (Target (disk_of ''/b.img'' ''vdb''))) =
      Inl (VirError 1 ''no such device'')"
    by (simp_all add: lv_three_disks_def lv_vm1_def disk_of_def)
  have h4: "Disks (Devices \<lparr>Devices = \<lparr>Disks = [disk_of ''/a.img'' ''vda'', disk_of ''/b.img'' ''vdb'',
      disk_of ''/c.img'' ''vdc'']\<rparr>\<rparr>) =
     [disk_of ''/a.img'' ''vda''] @ disk_of ''/b.img'' ''vdb'' # [disk_of ''/c.img'' ''vdc'']"
    by simp
  have h5: "collect_disks lv_three_disks (Domain 1) ''vm1'' [disk_of ''/a.img'' ''vda'']
      ([] @ [EvGetName (Domain 1) (Inr ''vm1''), EvGetXMLDesc (Domain 1) 0 (Inr ''<domain/>'')]) =
      (Return None, ?tk)"
    by (simp add: lv_three_disks_def lv_vm1_def disk_of_def report_block_stats_eq block_samples_def
        sample_def no_stats_def)
  note inst = CollectDomain_fail_fast [OF h1 h2 h3 h4 h5 h6]
  have dev: "Device (Target (disk_of ''/b.img'' ''vdb'')) = ''vdb''"
    by (simp add: disk_of_def)
  have run: "Collect lv_three_disks exporter [] =
     (Return (),
      [] @ [EvNewConnect ''qemu:///system'' (Inr (Connect 1)),
       EvListAllDomains (Connect 1) CONNECT_LIST_DOMAINS_ACTIVE (Inr [Domain 1]),
       EvGetName (Domain 1) (Inr ''vm1''), EvGetXMLDesc (Domain 1) 0 (Inr ''<domain/>''),
       EvBlockStats (Domain 1) ''vda'' (Inr (no_stats\<lparr>RdBytesSet := True, RdBytes := 1024\<rparr>)),
       EvSend \<lparr>metricDesc = libvirtBlockRdBytesDesc, valType = CounterValue, val = 1024,
               labelValues = [''vm1'', ''/a.img'', ''vda'']\<rparr>] @
       EvBlockStats (Domain 1) (Device (Target (disk_of ''/b.img'' ''vdb''))) (Inl (VirError 1 ''no such device'')) #
       [EvFree (Domain 1), EvClose (Connect 1),
       EvLogPrintf ''Failed to scrape metrics: %s'' (VirError 1 ''no such device''),
       EvSend (up_metric 0)])"
    by (simp add: Collect_def exporter_def NewLibvirtExporter_def CollectFromLibvirt_def
        list_and_collect_def CollectDomain_def lv_three_disks_def lv_vm1_def disk_of_def
        report_block_stats_eq block_samples_def sample_def no_stats_def domain_var_def send_up)
  from inst run have "\<exists>rel. list_all is_release rel \<and>
      [EvFree (Domain 1), EvClose (Connect 1),
       EvLogPrintf ''Failed to scrape metrics: %s'' (VirError 1 ''no such device''),
       EvSend (up_metric 0)] =
      rel @ [EvLogPrintf ''Failed to scrape metrics: %s'' (VirError 1 ''no such device''),
             EvSend (up_metric 0)]"
    by blast
  with inst run h4 show ?thesis by (simp add: dev)
qed

section \<open>Releases\<close>

text \<open>
  Which handles are freed and when the connection is closed, for every run of
  \<open>CollectFromLibvirt\<close>.
\<close>

lemma freed_replicate: "freed (replicate k (EvFree d)) = replicate k d"
  by (induction k) simp_all

lemma CollectFromLibvirt_bulk_frees:
  assumes "NewConnect lv t u = Inr conn"
    and "ListAllDomains lv (t @ [EvNewConnect u (Inr conn)]) conn CONNECT_LIST_DOMAINS_ACTIVE = Inr ds"
    and "CollectFromLibvirt lv u t = (r, t @ w)"
  shows "freed w = replicate (length ds) (last ds)"
proof (cases rule: CollectFromLibvirt_cases [of lv t u])
  case (bulk conn' ds' r1 t1)
  with assms have same: "conn' = conn" "ds' = ds" by simp_all
  let ?t0 = "t @ [EvNewConnect u (Inr conn), EvListAllDomains conn CONNECT_LIST_DOMAINS_ACTIVE (Inr ds)]"
  from bulk(3) same obtain u1 where t1: "t1 = ?t0 @ u1" using collect_all_append by blast
  with bulk(3) same have "collect_all lv ds ?t0 = (r1, ?t0 @ u1)" by simp
  from domain_event_no_handles [OF collect_all_events [OF this]] bulk(4) same t1 assms(3)
  show ?thesis by (auto simp: freed_append freed_replicate)
qed (use assms in auto)

lemma CollectFromLibvirt_fallback_frees:
  assumes "NewConnect lv t u = Inr conn"
    and "ListAllDomains lv (t @ [EvNewConnect u (Inr conn)]) conn CONNECT_LIST_DOMAINS_ACTIVE = Inl err0"
    and "CollectFromLibvirt lv u t = (r, t @ w)"
  shows "freed w = looked_up w"
proof (cases rule: CollectFromLibvirt_cases [of lv t u])
  case (by_id conn' err0' ids r1 t1)
  with assms have same: "conn' = conn" "err0' = err0" by simp_all
  let ?t0 = "t @ [EvNewConnect u (Inr conn), EvListAllDomains conn CONNECT_LIST_DOMAINS_ACTIVE (Inl err0),
         EvListDomains conn (Inr ids)]"
  from by_id(4) same obtain u1 where t1: "t1 = ?t0 @ u1" using collect_by_id_append by blast
  with by_id(4) same have "collect_by_id lv conn ids ?t0 = (r1, ?t0 @ u1)" by simp
  from collect_by_id_handles [OF this] by_id(5) same t1 assms(3)
  show ?thesis by (auto simp: freed_append looked_up_append)
qed (use assms in auto)

lemma CollectFromLibvirt_closes_once:
  assumes "NewConnect lv t u = Inr conn" and "CollectFromLibvirt lv u t = (r, t @ w)"
  shows "\<exists>w0. w = w0 @ [EvClose conn] \<and> (\<forall>c. EvClose c \<notin> set w0)"
proof (cases rule: CollectFromLibvirt_cases [of lv t u])
  case (no_conn err)
  with assms show ?thesis by simp
next
  case (bulk conn' ds r1 t1)
  with assms have same: "conn' = conn" by simp
  let ?t0 = "t @ [EvNewConnect u (Inr conn), EvListAllDomains conn CONNECT_LIST_DOMAINS_ACTIVE (Inr ds)]"
  from bulk(3) same obtain u1 where t1: "t1 = ?t0 @ u1" using collect_all_append by blast
  with bulk(3) same have "collect_all lv ds ?t0 = (r1, ?t0 @ u1)" by simp
  from collect_all_events [OF this] have "EvClose c \<notin> set u1" for c
    by (auto simp: list_all_iff)
  moreover from bulk(4) same t1 assms(2)
  have "w = ([EvNewConnect u (Inr conn), EvListAllDomains conn CONNECT_LIST_DOMAINS_ACTIVE (Inr ds)] @
      u1 @ replicate (length ds) (EvFree (last ds))) @ [EvClose conn]"
    by simp
  ultimately show ?thesis by (intro exI conjI) (assumption, auto)
next
  case (no_ids conn' err0 err)
  with assms have "w = [EvNewConnect u (Inr conn), EvListAllDomains conn CONNECT_LIST_DOMAINS_ACTIVE (Inl err0),
      EvListDomains conn (Inl err)] @ [EvClose conn]"
    by simp
  then show ?thesis by (intro exI conjI) (assumption, auto)
next
  case (by_id conn' err0 ids r1 t1)
  with assms have same: "conn' = conn" by simp
  let ?t0 = "t @ [EvNewConnect u (Inr conn), EvListAllDomains conn CONNECT_LIST_DOMAINS_ACTIVE (Inl err0),
         EvListDomains conn (Inr ids)]"
  from by_id(4) same obtain u1 where t1: "t1 = ?t0 @ u1" using collect_by_id_append by blast
  with by_id(4) same have "collect_by_id lv conn ids ?t0 = (r1, ?t0 @ u1)" by simp
  from collect_by_id_events [OF this] have "EvClose c \<notin> set u1" for c
    by (auto simp: list_all_iff)
  moreover from by_id(5) same t1 assms(2)
  have "w = ([EvNewConnect u (Inr conn), EvListAllDomains conn CONNECT_LIST_DOMAINS_ACTIVE (Inl err0),
         EvListDomains conn (Inr ids)] @ u1) @ [EvClose conn]"
    by simp
  ultimately show ?thesis by (intro exI conjI) (assumption, auto)
qed

text \<open>
  C6. The connection is closed once, last, on every exit after it was opened
  (\<open>CollectFromLibvirt_closes_once\<close>), and in the enumeration by identifier every
  handle that a lookup returned is freed once, right after its \<open>CollectDomain\<close>
  (\<open>collect_by_id\<close>, \<open>CollectFromLibvirt_fallback_frees\<close>). The handles of the bulk
  listing are not each freed once: every deferred \<^verbatim>\<open>Free\<close> reads the one loop
  variable at exit, so the last handle is freed as many times as there are handles
  and the others never (\<open>CollectFromLibvirt_bulk_frees\<close>). With two domains, the
  second is freed twice and the first is not freed.
\<close>

theorem bulk_listing_frees_last_handle_only:
  "CollectFromLibvirt lv_no_disks ''qemu:///system'' [] =
     (Return None,
      [EvNewConnect ''qemu:///system'' (Inr (Connect 1)),
       EvListAllDomains (Connect 1) CONNECT_LIST_DOMAINS_ACTIVE (Inr [Domain 1, Domain 2]),
       EvGetName (Domain 1) (Inr ''vm1''), EvGetXMLDesc (Domain 1) 0 (Inr ''<domain/>''),
       EvGetName (Domain 2) (Inr ''vm1''), EvGetXMLDesc (Domain 2) 0 (Inr ''<domain/>''),
       EvFree (Domain 2), EvFree (Domain 2), EvClose (Connect 1)]) \<and>
   freed (snd (CollectFromLibvirt lv_no_disks ''qemu:///system'' [])) = [Domain 2, Domain 2]"
  by (simp add: CollectFromLibvirt_def list_and_collect_def CollectDomain_def lv_no_disks_def
      lv_vm1_def domain_var_def)

end
